(* ===== verification/Go_Strings.thy ===== *)
theory Go_Strings
  imports Prelude
begin

text \<open>
  The functions of Go's packages \<open>strings\<close>, \<open>strconv\<close>, \<open>encoding/hex\<close>,
  \<open>encoding/base64\<close> and \<open>net/url\<close> (escaping) that the program calls, on bytes.

  White space is Unicode white space in its UTF-8 encoding, as \<open>strings.TrimSpace\<close> and
  \<open>strings.Fields\<close> see it: an encoding of a space starts with a lead byte, so scanning byte
  by byte finds the same spaces as scanning rune by rune. \<open>strings.ToLower\<close> is modelled on
  ASCII letters; the bytes from 128 on are kept (Go maps letters of other alphabets, which
  no header name, hex digit or media type of the protocols here contains).
\<close>

section \<open>Characters\<close>

abbreviation ord :: "char \<Rightarrow> nat" where "ord c \<equiv> of_char c"

definition is_upper :: "char \<Rightarrow> bool" where "is_upper c \<longleftrightarrow> 65 \<le> ord c \<and> ord c \<le> 90"
definition is_lower :: "char \<Rightarrow> bool" where "is_lower c \<longleftrightarrow> 97 \<le> ord c \<and> ord c \<le> 122"
definition is_digit :: "char \<Rightarrow> bool" where "is_digit c \<longleftrightarrow> 48 \<le> ord c \<and> ord c \<le> 57"

definition is_alnum :: "char \<Rightarrow> bool" where
  "is_alnum c \<longleftrightarrow> is_upper c \<or> is_lower c \<or> is_digit c"

definition lower_char :: "char \<Rightarrow> char" where
  "lower_char c = (if is_upper c then char_of (ord c + 32) else c)"

definition upper_char :: "char \<Rightarrow> char" where
  "upper_char c = (if is_lower c then char_of (ord c - 32) else c)"

definition to_lower :: "string \<Rightarrow> string" where
  "to_lower s = map lower_char s"

lemmas char_class_defs = is_upper_def is_lower_def is_digit_def is_alnum_def

lemma ord_less_256 [simp]: "ord c < 256"
  by (rule nat_of_char_less_256)

lemma ord_char_of: "n < 256 \<Longrightarrow> ord (char_of n) = n"
  by (simp add: of_char_of)

lemma ord_lower_char: "ord (lower_char c) = (if is_upper c then ord c + 32 else ord c)"
  by (auto simp: lower_char_def is_upper_def of_char_of)

lemma lower_char_not_upper [simp]: "\<not> is_upper (lower_char c)"
  by (auto simp: is_upper_def ord_lower_char)

lemma lower_char_idem [simp]: "\<not> is_upper c \<Longrightarrow> lower_char c = c"
  by (simp add: lower_char_def)

lemma to_lower_id: "\<forall>c \<in> set s. \<not> is_upper c \<Longrightarrow> to_lower s = s"
  by (simp add: to_lower_def map_idI)

lemma to_lower_idem [simp]: "to_lower (to_lower s) = to_lower s"
  by (simp add: to_lower_def)

lemma length_to_lower [simp]: "length (to_lower s) = length s"
  by (simp add: to_lower_def)

lemma to_lower_Nil_iff [simp]: "to_lower s = [] \<longleftrightarrow> s = []"
  by (simp add: to_lower_def)

section \<open>Prefixes, splitting, joining\<close>

definition has_prefix :: "string \<Rightarrow> string \<Rightarrow> bool" where
  "has_prefix p s \<longleftrightarrow> take (length p) s = p"

definition has_suffix :: "string \<Rightarrow> string \<Rightarrow> bool" where
  "has_suffix p s \<longleftrightarrow> has_prefix (rev p) (rev s)"

definition cut_prefix :: "string \<Rightarrow> string \<Rightarrow> string option" where
  "cut_prefix p s = (if has_prefix p s then Some (drop (length p) s) else None)"

definition trim_prefix :: "string \<Rightarrow> string \<Rightarrow> string" where
  "trim_prefix p s = (if has_prefix p s then drop (length p) s else s)"

text \<open>\<open>strings.Split\<close> at a one-byte separator: never the empty list.\<close>

fun split_on :: "char \<Rightarrow> string \<Rightarrow> string list" where
  "split_on c [] = [[]]"
| "split_on c (x # xs) =
     (if x = c then [] # split_on c xs
      else (case split_on c xs of [] \<Rightarrow> [[x]] | y # ys \<Rightarrow> (x # y) # ys))"

text \<open>\<open>strings.Cut\<close>: what comes before the separator, what comes after it, and whether it
  was found.\<close>

definition cut :: "char \<Rightarrow> string \<Rightarrow> string \<times> string \<times> bool" where
  "cut c s = (case dropWhile (\<lambda>x. x \<noteq> c) s of
     [] \<Rightarrow> (s, [], False)
   | _ # r \<Rightarrow> (takeWhile (\<lambda>x. x \<noteq> c) s, r, True))"

fun join :: "string \<Rightarrow> string list \<Rightarrow> string" where
  "join sep [] = []"
| "join sep [x] = x"
| "join sep (x # y # xs) = x @ sep @ join sep (y # xs)"

lemma has_prefix_append [simp]: "has_prefix p (p @ s)"
  by (simp add: has_prefix_def)

lemma cut_prefix_append [simp]: "cut_prefix p (p @ s) = Some s"
  by (simp add: cut_prefix_def)

lemma cut_prefix_Some_iff: "cut_prefix p s = Some r \<longleftrightarrow> s = p @ r"
proof
  assume "cut_prefix p s = Some r"
  then have "take (length p) s = p" "drop (length p) s = r"
    by (auto simp: cut_prefix_def has_prefix_def split: if_splits)
  then show "s = p @ r" by (metis append_take_drop_id)
qed simp

lemma split_on_not_Nil [simp]: "split_on c s \<noteq> []"
  by (induction s) (auto split: list.splits)

lemma join_Cons: "xs \<noteq> [] \<Longrightarrow> join sep (x # xs) = x @ sep @ join sep xs"
  by (cases xs) auto

lemma join_split_on: "join [c] (split_on c s) = s"
proof (induction s)
  case (Cons x xs)
  obtain y ys where y: "split_on c xs = y # ys"
    by (cases "split_on c xs") auto
  with Cons.IH show ?case by (cases ys) (auto simp: join_Cons)
qed simp

lemma split_on_free: "c \<notin> set s \<Longrightarrow> split_on c s = [s]"
  by (induction s) auto

lemma split_on_append: "c \<notin> set x \<Longrightarrow> split_on c (x @ c # r) = x # split_on c r"
  by (induction x) auto

lemma split_on_join:
  "xs \<noteq> [] \<Longrightarrow> \<forall>x \<in> set xs. c \<notin> set x \<Longrightarrow> split_on c (join [c] xs) = xs"
proof (induction xs)
  case (Cons x xs)
  then show ?case
    by (cases "xs = []") (auto simp: join_Cons split_on_free split_on_append)
qed simp

lemma split_on_pieces_free: "x \<in> set (split_on c s) \<Longrightarrow> c \<notin> set x"
proof (induction s arbitrary: x)
  case (Cons a s)
  then show ?case by (auto split: if_splits list.splits)
qed simp

lemma set_split_on_pieces: "x \<in> set (split_on c s) \<Longrightarrow> set x \<subseteq> set s"
proof (induction s arbitrary: x)
  case (Cons a s)
  then show ?case by (fastforce split: if_splits list.splits)
qed simp

lemma cut_append: "c \<notin> set x \<Longrightarrow> cut c (x @ c # r) = (x, r, True)"
proof -
  assume "c \<notin> set x"
  then have "\<forall>a \<in> set x. a \<noteq> c" by blast
  then have "dropWhile (\<lambda>x. x \<noteq> c) (x @ c # r) = c # r"
    and "takeWhile (\<lambda>x. x \<noteq> c) (x @ c # r) = x"
    by (simp_all add: dropWhile_append_stop takeWhile_append_stop)
  then show ?thesis unfolding cut_def by simp
qed

lemma cut_free: "c \<notin> set s \<Longrightarrow> cut c s = (s, [], False)"
proof -
  assume "c \<notin> set s"
  then have "dropWhile (\<lambda>x. x \<noteq> c) s = []" by auto
  then show ?thesis unfolding cut_def by (simp only: list.case)
qed

lemma set_join: "set (join sep xs) \<subseteq> set sep \<union> (\<Union>x \<in> set xs. set x)"
  by (induction sep xs rule: join.induct) auto

lemma join_Nil_iff: "\<forall>x \<in> set xs. x \<noteq> [] \<Longrightarrow> join sep xs = [] \<longleftrightarrow> xs = []"
  by (cases xs rule: remdups_adj.cases) auto

section \<open>White space\<close>

definition ascii_space :: "char \<Rightarrow> bool" where
  "ascii_space c \<longleftrightarrow> ord c \<in> {9, 10, 11, 12, 13, 32}"

text \<open>U+0085 and U+00A0.\<close>

definition space2 :: "char \<Rightarrow> char \<Rightarrow> bool" where
  "space2 a b \<longleftrightarrow> ord a = 194 \<and> (ord b = 133 \<or> ord b = 160)"

text \<open>U+1680, U+2000 to U+200A, U+2028, U+2029, U+202F, U+205F and U+3000.\<close>

definition space3 :: "char \<Rightarrow> char \<Rightarrow> char \<Rightarrow> bool" where
  "space3 a b c \<longleftrightarrow>
     ord a = 225 \<and> ord b = 154 \<and> ord c = 128 \<or>
     ord a = 226 \<and> ord b = 128 \<and> (128 \<le> ord c \<and> ord c \<le> 138 \<or> ord c \<in> {168, 169, 175}) \<or>
     ord a = 226 \<and> ord b = 129 \<and> ord c = 159 \<or>
     ord a = 227 \<and> ord b = 128 \<and> ord c = 128"

text \<open>The number of bytes of the space at the head of the string, 0 when there is none.\<close>

fun space_len :: "string \<Rightarrow> nat" where
  "space_len [] = 0"
| "space_len [a] = (if ascii_space a then 1 else 0)"
| "space_len [a, b] = (if ascii_space a then 1 else if space2 a b then 2 else 0)"
| "space_len (a # b # c # s) =
     (if ascii_space a then 1 else if space2 a b then 2 else if space3 a b c then 3 else 0)"

text \<open>The same at the end of the string, which is given in reverse.\<close>

fun space_len_rev :: "string \<Rightarrow> nat" where
  "space_len_rev [] = 0"
| "space_len_rev [a] = (if ascii_space a then 1 else 0)"
| "space_len_rev [b, a] = (if ascii_space b then 1 else if space2 a b then 2 else 0)"
| "space_len_rev (c # b # a # s) =
     (if ascii_space c then 1 else if space2 b c then 2 else if space3 a b c then 3 else 0)"

lemma space_len_Nil_zero [termination_simp]: "0 < space_len s \<Longrightarrow> s \<noteq> []"
  by (cases s) auto

lemma space_len_rev_Nil_zero [termination_simp]: "0 < space_len_rev s \<Longrightarrow> s \<noteq> []"
  by (cases s) auto

function trim_left :: "string \<Rightarrow> string" where
  "trim_left s = (if space_len s = 0 then s else trim_left (drop (space_len s) s))"
  by pat_completeness auto
termination
  by (relation "measure length") (auto simp: space_len_Nil_zero)

function trim_rev :: "string \<Rightarrow> string" where
  "trim_rev s = (if space_len_rev s = 0 then s else trim_rev (drop (space_len_rev s) s))"
  by pat_completeness auto
termination
  by (relation "measure length") (auto simp: space_len_rev_Nil_zero)

declare trim_left.simps [simp del] trim_rev.simps [simp del]

definition trim_space :: "string \<Rightarrow> string" where
  "trim_space s = rev (trim_rev (rev (trim_left s)))"

text \<open>\<open>strings.Fields\<close>: the maximal runs of non-space bytes; \<open>cur\<close> is the run being read,
  reversed.\<close>

function fields_from :: "string \<Rightarrow> string \<Rightarrow> string list" where
  "fields_from cur [] = (if cur = [] then [] else [rev cur])"
| "fields_from cur (x # xs) =
     (if space_len (x # xs) = 0 then fields_from (x # cur) xs
      else (if cur = [] then [] else [rev cur]) @
        fields_from [] (drop (space_len (x # xs)) (x # xs)))"
  by pat_completeness auto
termination
  by (relation "measure (\<lambda>(cur, s). length s)") auto

definition str_fields :: "string \<Rightarrow> string list" where
  "str_fields s = fields_from [] s"

text \<open>A printable byte: ASCII, neither a space nor a control character.\<close>

definition graphic :: "char \<Rightarrow> bool" where
  "graphic c \<longleftrightarrow> 33 \<le> ord c \<and> ord c \<le> 126"

lemma space_len_graphic: "graphic x \<Longrightarrow> space_len (x # xs) = 0"
  by (cases "x # xs" rule: space_len.cases)
    (auto simp: graphic_def ascii_space_def space2_def space3_def)

lemma space_len_rev_graphic: "graphic x \<Longrightarrow> \<forall>y \<in> set xs. ord y < 128 \<Longrightarrow> space_len_rev (x # xs) = 0"
  by (cases "x # xs" rule: space_len_rev.cases)
    (auto simp: graphic_def ascii_space_def space2_def space3_def)

lemma trim_left_graphic: "s = [] \<or> graphic (hd s) \<Longrightarrow> trim_left s = s"
  by (cases s) (auto simp: trim_left.simps [of s] space_len_graphic trim_left.simps)

lemma trim_rev_graphic: "\<forall>c \<in> set s. graphic c \<Longrightarrow> trim_rev s = s"
proof (cases s)
  case (Cons x xs)
  assume g: "\<forall>c \<in> set s. graphic c"
  then have "space_len_rev s = 0"
    using Cons by (auto intro!: space_len_rev_graphic simp: graphic_def)
  then show ?thesis by (simp add: trim_rev.simps)
qed (simp add: trim_rev.simps)

lemma trim_space_graphic: "\<forall>c \<in> set s. graphic c \<Longrightarrow> trim_space s = s"
  by (cases s) (auto simp: trim_space_def trim_left_graphic trim_rev_graphic)

lemma trim_left_space: "graphic (hd (x # xs)) \<Longrightarrow> trim_left (CHR '' '' # x # xs) = x # xs"
proof -
  assume g: "graphic (hd (x # xs))"
  have "space_len (CHR '' '' # x # xs) = 1"
    by (cases "CHR '' '' # x # xs" rule: space_len.cases) (auto simp: ascii_space_def)
  then have "trim_left (CHR '' '' # x # xs) = trim_left (x # xs)"
    by (subst trim_left.simps) simp
  then show ?thesis using g by (simp add: trim_left_graphic)
qed

lemma trim_space_space:
  "s \<noteq> [] \<Longrightarrow> \<forall>c \<in> set s. graphic c \<Longrightarrow> trim_space (CHR '' '' # s) = s"
  by (cases s) (auto simp: trim_space_def trim_left_space trim_rev_graphic)

text \<open>A field holds no space, in particular no line break.\<close>

lemma space_len_ascii: "ascii_space x \<Longrightarrow> space_len (x # xs) = 1"
  by (cases "x # xs" rule: space_len.cases) auto

lemma fields_from_no_space:
  "f \<in> set (fields_from cur s) \<Longrightarrow> \<forall>c \<in> set cur. \<not> ascii_space c \<Longrightarrow> c \<in> set f \<Longrightarrow> \<not> ascii_space c"
proof (induction cur s arbitrary: f rule: fields_from.induct)
  case (1 cur)
  then show ?case by (auto split: if_splits)
next
  case (2 cur x xs)
  show ?case
  proof (cases "space_len (x # xs) = 0")
    case True
    then have "\<not> ascii_space x" using space_len_ascii [of x xs] by auto
    then show ?thesis using 2 True by auto
  next
    case False
    then show ?thesis using 2 by (auto split: if_splits)
  qed
qed

lemma str_fields_no_newline: "f \<in> set (str_fields s) \<Longrightarrow> CHR 0x0A \<notin> set f"
  using fields_from_no_space [of f "[]" s "CHR 0x0A"] by (auto simp: str_fields_def ascii_space_def)

lemma split_on_lines:
  "\<forall>x \<in> set xs. c \<notin> set (f x) \<Longrightarrow>
   split_on c (concat (map (\<lambda>x. f x @ [c]) xs) @ s) = map f xs @ split_on c s"
  by (induction xs) (simp_all add: split_on_append)

end
