(* ===== verification/Go_Encoding.thy ===== *)
theory Go_Encoding
  imports Go_Strings
begin

text \<open>
  Text encodings of Go's library: decimal numbers (\<open>strconv\<close>), hexadecimal
  (\<open>encoding/hex\<close>), unpadded URL-safe base64 (\<open>encoding/base64\<close>) and percent escapes
  (\<open>net/url\<close>).
\<close>

section \<open>Decimal numbers\<close>

definition digit_char :: "nat \<Rightarrow> char" where
  "digit_char n = char_of (48 + n)"

definition digit_val :: "char \<Rightarrow> nat" where
  "digit_val c = ord c - 48"

text \<open>\<open>strconv.Itoa\<close> and \<open>strconv.FormatInt(_, 10)\<close>.\<close>

fun itoa_nat :: "nat \<Rightarrow> string" where
  "itoa_nat n = (if n < 10 then [digit_char n] else itoa_nat (n div 10) @ [digit_char (n mod 10)])"

declare itoa_nat.simps [simp del]

definition itoa :: "int \<Rightarrow> string" where
  "itoa i = (if i < 0 then CHR ''-'' # itoa_nat (nat (- i)) else itoa_nat (nat i))"

definition digits_val :: "string \<Rightarrow> nat" where
  "digits_val s = foldl (\<lambda>n c. 10 * n + digit_val c) 0 s"

text \<open>\<open>strconv.Atoi\<close>: one optional sign, at least one digit, digits only, and a value that
  fits 64 bits.\<close>

definition atoi :: "string \<Rightarrow> int option" where
  "atoi s =
     (let neg = (s \<noteq> [] \<and> hd s = CHR ''-'');
          ds = (if s \<noteq> [] \<and> (hd s = CHR ''-'' \<or> hd s = CHR ''+'') then tl s else s);
          n = (if neg then - int (digits_val ds) else int (digits_val ds))
      in if ds = [] \<or> \<not> list_all is_digit ds then None
         else if n < min_int64 \<or> max_int64 < n then None
         else Some n)"

text \<open>\<open>strconv.ParseBool\<close>.\<close>

definition parse_bool :: "string \<Rightarrow> bool option" where
  "parse_bool s =
     (if s \<in> set [''1'', ''t'', ''T'', ''TRUE'', ''true'', ''True''] then Some True
      else if s \<in> set [''0'', ''f'', ''F'', ''FALSE'', ''false'', ''False''] then Some False
      else None)"

text \<open>A number padded with zeros on the left to at least \<open>w\<close> digits (\<open>time.appendInt\<close>).\<close>

definition pad_num :: "nat \<Rightarrow> int \<Rightarrow> string" where
  "pad_num w i =
     (let ds = itoa_nat (nat \<bar>i\<bar>)
      in (if i < 0 then [CHR ''-''] else []) @ replicate (w - length ds) (CHR ''0'') @ ds)"

lemma is_digit_digit_char [simp]: "n < 10 \<Longrightarrow> is_digit (digit_char n)"
  by (simp add: is_digit_def digit_char_def of_char_of)

lemma digit_val_digit_char [simp]: "n < 10 \<Longrightarrow> digit_val (digit_char n) = n"
  by (simp add: digit_val_def digit_char_def of_char_of)

lemma digits_val_append: "digits_val (s @ [c]) = 10 * digits_val s + digit_val c"
  by (simp add: digits_val_def)

lemma digits_val_Nil [simp]: "digits_val [] = 0"
  by (simp add: digits_val_def)

lemma itoa_nat_not_Nil [simp]: "itoa_nat n \<noteq> []"
  by (subst itoa_nat.simps) simp

lemma itoa_nat_digits: "list_all is_digit (itoa_nat n)"
proof (induction n rule: itoa_nat.induct)
  case (1 n)
  then show ?case by (subst itoa_nat.simps) simp
qed

lemma digits_val_itoa_nat: "digits_val (itoa_nat n) = n"
proof (induction n rule: itoa_nat.induct)
  case (1 n)
  show ?case
  proof (cases "n < 10")
    case True
    then show ?thesis by (subst itoa_nat.simps) (simp add: digits_val_def)
  next
    case False
    with 1 show ?thesis by (subst itoa_nat.simps) (simp add: digits_val_append)
  qed
qed

lemma digits_val_zeros: "digits_val (replicate k (CHR ''0'') @ s) = digits_val s"
proof (induction s rule: rev_induct)
  case Nil
  show ?case by (induction k) (simp_all add: digits_val_def digit_val_def)
next
  case (snoc c s)
  then show ?case by (simp add: digits_val_append flip: append_assoc)
qed

lemma itoa_nat_head_digit: "is_digit (hd (itoa_nat n))"
  using itoa_nat_digits [of n] by (cases "itoa_nat n") auto

text \<open>Parsing what was printed gives the number back, for every 64-bit value.\<close>

lemma atoi_itoa: "min_int64 \<le> i \<Longrightarrow> i \<le> max_int64 \<Longrightarrow> atoi (itoa i) = Some i"
proof -
  assume b: "min_int64 \<le> i" "i \<le> max_int64"
  have nosign: "hd (itoa_nat n) \<noteq> CHR ''-''" "hd (itoa_nat n) \<noteq> CHR ''+''" for n
    using itoa_nat_head_digit [of n] by (auto simp: is_digit_def)
  show ?thesis
    using b by (cases "i < 0")
      (simp_all add: itoa_def atoi_def Let_def nosign itoa_nat_digits digits_val_itoa_nat)
qed

lemma length_itoa_nat_le:
  "n < 10 ^ w \<Longrightarrow> 0 < w \<Longrightarrow> length (itoa_nat n) \<le> w"
proof (induction n arbitrary: w rule: itoa_nat.induct)
  case (1 n)
  show ?case
  proof (cases "n < 10")
    case True
    with "1.prems" show ?thesis by (subst itoa_nat.simps) simp
  next
    case False
    with "1.prems" obtain v where v: "w = Suc v" "0 < v"
      by (cases w; cases "w - 1") auto
    from "1.prems" v have "n div 10 < 10 ^ v" by (simp add: less_mult_imp_div_less mult.commute)
    with 1 False v have "length (itoa_nat (n div 10)) \<le> v" by simp
    with False v show ?thesis by (subst itoa_nat.simps) simp
  qed
qed

lemma length_pad_num:
  "0 \<le> i \<Longrightarrow> i < 10 ^ w \<Longrightarrow> 0 < w \<Longrightarrow> length (pad_num w i) = w"
proof -
  assume a: "0 \<le> i" "i < 10 ^ w" "0 < w"
  then have "nat i < 10 ^ w" by (simp add: nat_less_iff)
  then have "length (itoa_nat (nat i)) \<le> w" using a by (intro length_itoa_nat_le)
  with a show ?thesis by (simp add: pad_num_def Let_def)
qed

lemma pad_num_digits: "0 \<le> i \<Longrightarrow> list_all is_digit (pad_num w i)"
  using itoa_nat_digits [of "nat i"] by (auto simp: pad_num_def Let_def is_digit_def list_all_iff)

lemma digits_val_pad_num: "0 \<le> i \<Longrightarrow> digits_val (pad_num w i) = nat i"
  by (simp add: pad_num_def Let_def digits_val_zeros digits_val_itoa_nat)

section \<open>Hexadecimal\<close>

definition hex_lower :: "nat \<Rightarrow> char" where
  "hex_lower n = (if n < 10 then char_of (48 + n) else char_of (87 + n))"

definition hex_upper :: "nat \<Rightarrow> char" where
  "hex_upper n = (if n < 10 then char_of (48 + n) else char_of (55 + n))"

definition unhex :: "char \<Rightarrow> nat option" where
  "unhex c = (if is_digit c then Some (ord c - 48)
     else if 97 \<le> ord c \<and> ord c \<le> 102 then Some (ord c - 87)
     else if 65 \<le> ord c \<and> ord c \<le> 70 then Some (ord c - 55)
     else None)"

text \<open>\<open>hex.EncodeToString\<close> and \<open>hex.DecodeString\<close>.\<close>

fun hex_encode :: "string \<Rightarrow> string" where
  "hex_encode [] = []"
| "hex_encode (c # s) = hex_lower (ord c div 16) # hex_lower (ord c mod 16) # hex_encode s"

fun hex_decode :: "string \<Rightarrow> string option" where
  "hex_decode [] = Some []"
| "hex_decode [a] = None"
| "hex_decode (a # b # s) = (case (unhex a, unhex b, hex_decode s) of
     (Some x, Some y, Some r) \<Rightarrow> Some (char_of (16 * x + y) # r) | _ \<Rightarrow> None)"

lemma ord_hex_lower: "n < 16 \<Longrightarrow> ord (hex_lower n) = (if n < 10 then 48 + n else 87 + n)"
  by (simp add: hex_lower_def ord_char_of)

lemma ord_hex_upper: "n < 16 \<Longrightarrow> ord (hex_upper n) = (if n < 10 then 48 + n else 55 + n)"
  by (simp add: hex_upper_def ord_char_of)

lemma unhex_hex_lower: "n < 16 \<Longrightarrow> unhex (hex_lower n) = Some n"
  by (simp add: unhex_def is_digit_def ord_hex_lower)

lemma unhex_hex_upper: "n < 16 \<Longrightarrow> unhex (hex_upper n) = Some n"
  by (simp add: unhex_def is_digit_def ord_hex_upper)

lemma unhex_less_16: "unhex c = Some n \<Longrightarrow> n < 16"
  by (auto simp: unhex_def is_digit_def split: if_splits)

lemma byte_nibbles: "char_of (16 * (ord c div 16) + ord c mod 16) = c"
  by (simp add: mult_div_mod_eq)

lemma nibble_bounds: "ord c div 16 < 16" "ord c mod 16 < 16"
  using ord_less_256 [of c] by (auto simp: less_mult_imp_div_less)

lemma hex_decode_encode: "hex_decode (hex_encode s) = Some s"
  by (induction s) (simp_all add: unhex_hex_lower nibble_bounds byte_nibbles)

lemma length_hex_encode [simp]: "length (hex_encode s) = 2 * length s"
  by (induction s) simp_all

lemma hex_lower_class: "n < 16 \<Longrightarrow> graphic (hex_lower n) \<and> \<not> is_upper (hex_lower n) \<and> is_alnum (hex_lower n)"
  by (simp add: ord_hex_lower graphic_def char_class_defs)

lemma hex_encode_chars:
  "c \<in> set (hex_encode s) \<Longrightarrow> graphic c \<and> \<not> is_upper c \<and> is_alnum c"
proof (induction s)
  case (Cons a s)
  then show ?case using hex_lower_class nibble_bounds [of a] by auto
qed simp

section \<open>Base64, URL-safe alphabet, no padding\<close>

definition b64url_char :: "nat \<Rightarrow> char" where
  "b64url_char n = (if n < 26 then char_of (65 + n) else if n < 52 then char_of (71 + n)
     else if n < 62 then char_of (n - 4) else if n = 62 then CHR ''-'' else CHR ''_'')"

text \<open>\<open>base64.RawURLEncoding.EncodeToString\<close>: three bytes give four characters; one or two
  remaining bytes give two or three.\<close>

fun b64url_encode :: "string \<Rightarrow> string" where
  "b64url_encode [] = []"
| "b64url_encode [a] = [b64url_char (ord a div 4), b64url_char (16 * (ord a mod 4))]"
| "b64url_encode [a, b] =
     [b64url_char (ord a div 4), b64url_char (16 * (ord a mod 4) + ord b div 16),
      b64url_char (4 * (ord b mod 16))]"
| "b64url_encode (a # b # c # s) =
     b64url_char (ord a div 4) # b64url_char (16 * (ord a mod 4) + ord b div 16) #
     b64url_char (4 * (ord b mod 16) + ord c div 64) # b64url_char (ord c mod 64) #
     b64url_encode s"

lemma length_b64url_encode: "length (b64url_encode s) = (4 * length s + 2) div 3"
proof (induction s rule: b64url_encode.induct)
  case (4 a b c s)
  then show ?case by simp
qed simp_all

text \<open>\<open>base64.StdEncoding.DecodeString\<close>: groups of four characters, the last one padded; line
  breaks are skipped everywhere, and the unused bits of the last group are not looked at.\<close>

definition b64std_val :: "char \<Rightarrow> nat option" where
  "b64std_val c = (if is_upper c then Some (ord c - 65) else if is_lower c then Some (ord c - 71)
     else if is_digit c then Some (ord c + 4) else if c = CHR ''+'' then Some 62
     else if c = CHR ''/'' then Some 63 else None)"

fun b64std_groups :: "string \<Rightarrow> string option" where
  "b64std_groups [] = Some []"
| "b64std_groups (a # b # c # d # s) =
     (case (b64std_val a, b64std_val b) of
        (Some x, Some y) \<Rightarrow>
          if c = CHR ''='' \<and> d = CHR ''='' \<and> s = [] then Some [char_of (4 * x + y div 16)]
          else (case b64std_val c of
              None \<Rightarrow> None
            | Some z \<Rightarrow>
                let b1 = char_of (4 * x + y div 16); b2 = char_of (16 * (y mod 16) + z div 4)
                in if d = CHR ''='' \<and> s = [] then Some [b1, b2]
                   else (case b64std_val d of
                       None \<Rightarrow> None
                     | Some w \<Rightarrow> map_option (\<lambda>r. b1 # b2 # char_of (64 * (z mod 4) + w) # r) (b64std_groups s)))
      | _ \<Rightarrow> None)"
| "b64std_groups _ = None"

definition b64std_decode :: "string \<Rightarrow> string option" where
  "b64std_decode s = b64std_groups (filter (\<lambda>c. c \<noteq> CHR 0x0A \<and> c \<noteq> CHR 0x0D) s)"

section \<open>Percent escapes\<close>

text \<open>
  \<open>url.QueryUnescape\<close> (\<open>sp\<close> is true: a plus sign is a space) and \<open>url.PathUnescape\<close>
  (a plus sign is itself). \<open>None\<close> is the error of a percent sign without two hexadecimal
  digits.
\<close>

fun url_unescape :: "bool \<Rightarrow> string \<Rightarrow> string option" where
  "url_unescape sp [] = Some []"
| "url_unescape sp (c # s) =
     (if c = CHR ''%'' then
        (case s of
           a # b # s' \<Rightarrow> (case (unhex a, unhex b) of
               (Some x, Some y) \<Rightarrow> map_option (\<lambda>r. char_of (16 * x + y) # r) (url_unescape sp s')
             | _ \<Rightarrow> None)
         | _ \<Rightarrow> None)
      else map_option (\<lambda>r. (if sp \<and> c = CHR ''+'' then CHR '' '' else c) # r)
             (url_unescape sp s))"

abbreviation query_unescape :: "string \<Rightarrow> string option" where
  "query_unescape \<equiv> url_unescape True"

abbreviation path_unescape :: "string \<Rightarrow> string option" where
  "path_unescape \<equiv> url_unescape False"

text \<open>The two modes fail on the same strings.\<close>

lemma url_unescape_None_mode: "url_unescape p s = None \<longleftrightarrow> url_unescape q s = None"
proof (induction p s rule: url_unescape.induct)
  case (2 sp c s)
  then show ?case by (auto split: list.splits option.splits)
qed simp

lemma url_unescape_plain:
  "CHR ''%'' \<notin> set s \<Longrightarrow> CHR ''+'' \<notin> set s \<Longrightarrow> url_unescape p s = Some s"
  by (induction s) auto

end
