(* ===== verification/Go_Url.thy ===== *)
theory Go_Url
  imports Go_Encoding
begin

text \<open>
  Go's package \<open>net/url\<close>: the fields of \<open>url.URL\<close> that the program reads, parsing
  (\<open>Parse\<close>, \<open>ParseRequestURI\<close>), the escaped form of a path, and query strings. The
  components of a URL that nothing here reads (user information, fragment of a request URI,
  the opaque part beyond its presence) are checked as the library checks them and dropped.
\<close>

record url =
  u_scheme :: string
  u_host :: string
  u_path :: string
  u_raw_path :: string
  u_raw_query :: string

definition empty_url :: url where
  "empty_url = \<lparr>u_scheme = [], u_host = [], u_path = [], u_raw_path = [], u_raw_query = []\<rparr>"

section \<open>Escaping of paths\<close>

definition unreserved :: "char \<Rightarrow> bool" where
  "unreserved c \<longleftrightarrow> is_alnum c \<or> c \<in> set ''-_.~''"

text \<open>\<open>shouldEscape(c, encodePath)\<close>.\<close>

definition escape_in_path :: "char \<Rightarrow> bool" where
  "escape_in_path c \<longleftrightarrow> \<not> unreserved c \<and> c \<notin> set ''$&+,/:;=@''"

definition percent :: "char \<Rightarrow> string" where
  "percent c = [CHR ''%'', hex_upper (ord c div 16), hex_upper (ord c mod 16)]"

definition escape_path :: "string \<Rightarrow> string" where
  "escape_path s = concat (map (\<lambda>c. if escape_in_path c then percent c else [c]) s)"

text \<open>\<open>validEncoded(s, encodePath)\<close>.\<close>

definition valid_encoded_path :: "string \<Rightarrow> bool" where
  "valid_encoded_path s \<longleftrightarrow>
     list_all (\<lambda>c. c \<in> set ''!$&()*+,;=:@[]%'' \<or> ord c = 39 \<or> \<not> escape_in_path c) s"

definition escaped_path :: "url \<Rightarrow> string" where
  "escaped_path u =
     (if u_raw_path u \<noteq> [] \<and> valid_encoded_path (u_raw_path u) \<and>
         path_unescape (u_raw_path u) = Some (u_path u)
      then u_raw_path u
      else if u_path u = ''*'' then ''*'' else escape_path (u_path u))"

text \<open>\<open>URL.setPath\<close>: the raw path is kept only when it is not the default escaping.\<close>

definition set_path :: "string \<Rightarrow> url \<Rightarrow> url option" where
  "set_path p u = (case path_unescape p of
     None \<Rightarrow> None
   | Some q \<Rightarrow> Some (u\<lparr>u_path := q, u_raw_path := (if escape_path q = p then [] else p)\<rparr>))"

section \<open>Authority\<close>

definition escape_in_host :: "char \<Rightarrow> bool" where
  "escape_in_host c \<longleftrightarrow> \<not> unreserved c \<and> c \<notin> set ''!$&()*+,;=:[]<>'' \<and> ord c \<noteq> 34 \<and> ord c \<noteq> 39"

text \<open>\<open>unescape(s, encodeHost)\<close> and, with \<open>zone\<close>, \<open>unescape(s, encodeZone)\<close>.\<close>

fun host_unescape :: "bool \<Rightarrow> string \<Rightarrow> string option" where
  "host_unescape zone [] = Some []"
| "host_unescape zone (c # s) =
     (if c = CHR ''%'' then
        (case s of
           a # b # s' \<Rightarrow> (case (unhex a, unhex b) of
               (Some x, Some y) \<Rightarrow>
                 if (if zone then [a, b] \<noteq> ''25'' \<and> 16 * x + y \<noteq> 32 \<and> escape_in_host (char_of (16 * x + y))
                     else x < 8 \<and> [a, b] \<noteq> ''25'')
                 then None
                 else map_option (\<lambda>r. char_of (16 * x + y) # r) (host_unescape zone s')
             | _ \<Rightarrow> None)
         | _ \<Rightarrow> None)
      else if ord c < 128 \<and> escape_in_host c then None
      else map_option (\<lambda>r. c # r) (host_unescape zone s))"

definition valid_optional_port :: "string \<Rightarrow> bool" where
  "valid_optional_port p \<longleftrightarrow> (case p of [] \<Rightarrow> True | c # ds \<Rightarrow> c = CHR '':'' \<and> list_all is_digit ds)"

text \<open>What precedes and what follows the last occurrence of a byte.\<close>

definition rsplit :: "char \<Rightarrow> string \<Rightarrow> (string \<times> string) option" where
  "rsplit c s = (if c \<in> set s
     then Some (rev (tl (dropWhile (\<lambda>x. x \<noteq> c) (rev s))), rev (takeWhile (\<lambda>x. x \<noteq> c) (rev s)))
     else None)"

text \<open>The index of the first occurrence of a string.\<close>

fun find_sub :: "string \<Rightarrow> string \<Rightarrow> nat option" where
  "find_sub p [] = (if p = [] then Some 0 else None)"
| "find_sub p (c # s) = (if has_prefix p (c # s) then Some 0 else map_option Suc (find_sub p s))"

definition parse_host :: "string \<Rightarrow> string option" where
  "parse_host h =
     (if has_prefix ''['' h then
        (case rsplit (CHR '']'') h of
           None \<Rightarrow> None
         | Some (before, port) \<Rightarrow>
             if \<not> valid_optional_port port then None
             else (case find_sub ''%25'' before of
                 None \<Rightarrow> host_unescape False h
               | Some z \<Rightarrow>
                   (case (host_unescape False (take z before), host_unescape True (drop z before),
                          host_unescape False (CHR '']'' # port)) of
                      (Some a, Some b, Some c) \<Rightarrow> Some (a @ b @ c)
                    | _ \<Rightarrow> None)))
      else
        (case rsplit (CHR '':'') h of
           Some (_, port) \<Rightarrow> if list_all is_digit port then host_unescape False h else None
         | None \<Rightarrow> host_unescape False h))"

definition valid_userinfo :: "string \<Rightarrow> bool" where
  "valid_userinfo s \<longleftrightarrow>
     list_all (\<lambda>c. is_alnum c \<or> c \<in> set ''-._:~!$&()*+,;=%@'' \<or> ord c = 39) s"

definition parse_authority :: "string \<Rightarrow> string option" where
  "parse_authority a = (case rsplit (CHR ''@'') a of
     None \<Rightarrow> parse_host a
   | Some (user, h) \<Rightarrow>
       (case parse_host h of
          None \<Rightarrow> None
        | Some h' \<Rightarrow> if valid_userinfo user \<and> path_unescape user \<noteq> None then Some h' else None))"

section \<open>Parsing a URL\<close>

text \<open>\<open>getScheme\<close>: \<open>None\<close> is the error of a leading colon.\<close>

definition get_scheme :: "string \<Rightarrow> (string \<times> string) option" where
  "get_scheme s =
     (let sch = takeWhile (\<lambda>c. is_alnum c \<or> c \<in> set ''+-.'') s; rest = drop (length sch) s
      in case rest of
           c # r \<Rightarrow>
             if c = CHR '':'' then
               (if sch = [] then None
                else if is_upper (hd sch) \<or> is_lower (hd sch) then Some (sch, r) else Some ([], s))
             else Some ([], s)
         | [] \<Rightarrow> Some ([], s))"

definition has_ctl :: "string \<Rightarrow> bool" where
  "has_ctl s \<longleftrightarrow> list_ex (\<lambda>c. ord c < 32 \<or> ord c = 127) s"

text \<open>\<open>url.parse(rawURL, viaRequest)\<close>.\<close>

definition parse_url :: "bool \<Rightarrow> string \<Rightarrow> url option" where
  "parse_url via_request raw =
     (if has_ctl raw then None
      else if raw = [] \<and> via_request then None
      else if raw = ''*'' then Some (empty_url\<lparr>u_path := ''*''\<rparr>)
      else case get_scheme raw of
        None \<Rightarrow> None
      | Some (sch, rest0) \<Rightarrow>
          let scheme = to_lower sch;
              (rest, query, _) = cut (CHR ''?'') rest0;
              u = empty_url\<lparr>u_scheme := scheme, u_raw_query := query\<rparr>
          in if \<not> has_prefix ''/'' rest \<and> scheme \<noteq> [] then Some u
             else if \<not> has_prefix ''/'' rest \<and> via_request then None
             else if \<not> has_prefix ''/'' rest \<and> CHR '':'' \<in> set (fst (cut (CHR ''/'') rest)) then None
             else if (scheme \<noteq> [] \<or> \<not> via_request \<and> \<not> has_prefix ''///'' rest) \<and> has_prefix ''//'' rest then
               (let auth = takeWhile (\<lambda>c. c \<noteq> CHR ''/'') (drop 2 rest);
                    p = dropWhile (\<lambda>c. c \<noteq> CHR ''/'') (drop 2 rest)
                in case parse_authority auth of
                     None \<Rightarrow> None
                   | Some h \<Rightarrow> set_path p (u\<lparr>u_host := h\<rparr>))
             else set_path rest u)"

text \<open>\<open>url.ParseRequestURI\<close>, and \<open>url.Parse\<close>, which cuts a fragment off first.\<close>

definition parse_request_uri :: "string \<Rightarrow> url option" where
  "parse_request_uri raw = parse_url True raw"

definition url_parse :: "string \<Rightarrow> url option" where
  "url_parse raw = (case cut (CHR ''#'') raw of (u, frag, _) \<Rightarrow>
     if path_unescape frag = None then None else parse_url False u)"

section \<open>Query strings\<close>

type_synonym url_values = "(string \<times> string) list"

text \<open>One \<open>key=value\<close> part of a query: \<open>None\<close> when the library reports an error for it.\<close>

definition query_part :: "string \<Rightarrow> (string \<times> string) option" where
  "query_part part =
     (if CHR '';'' \<in> set part then None
      else case cut (CHR ''='') part of (k, v, _) \<Rightarrow>
        (case (query_unescape k, query_unescape v) of
           (Some k', Some v') \<Rightarrow> Some (k', v')
         | _ \<Rightarrow> None))"

text \<open>\<open>url.ParseQuery\<close>: the pairs in order of appearance, and whether there was no error.
  A part with an error is skipped, an empty one is no error.\<close>

definition query_parts :: "string \<Rightarrow> string list" where
  "query_parts q = filter (\<lambda>p. p \<noteq> []) (split_on (CHR ''&'') q)"

definition parse_query :: "string \<Rightarrow> url_values \<times> bool" where
  "parse_query q =
     (List.map_filter query_part (query_parts q), list_all (\<lambda>p. query_part p \<noteq> None) (query_parts q))"

definition values_get :: "url_values \<Rightarrow> string \<Rightarrow> string" where
  "values_get m k = (case map_of m k of None \<Rightarrow> [] | Some v \<Rightarrow> v)"

definition values_has :: "url_values \<Rightarrow> string \<Rightarrow> bool" where
  "values_has m k \<longleftrightarrow> k \<in> fst ` set m"

text \<open>\<open>URL.Query\<close> drops the error.\<close>

definition url_query :: "url \<Rightarrow> url_values" where
  "url_query u = fst (parse_query (u_raw_query u))"

lemma parse_query_mem:
  "p \<in> set (fst (parse_query q)) \<longleftrightarrow> (\<exists>part \<in> set (query_parts q). query_part part = Some p)"
  by (force simp: parse_query_def List.map_filter_def)

section \<open>Writing queries and forms\<close>

text \<open>\<open>url.QueryEscape\<close>.\<close>

definition query_escape_byte :: "char \<Rightarrow> string" where
  "query_escape_byte c =
     (if unreserved c then [c] else if c = CHR '' '' then ''+'' else percent c)"

definition query_escape :: "string \<Rightarrow> string" where
  "query_escape s = concat (map query_escape_byte s)"

text \<open>\<open>Values.Encode\<close>: sorted by key, the values of a key in their order.\<close>

definition values_encode :: "url_values \<Rightarrow> string" where
  "values_encode m =
     join ''&'' (map (\<lambda>(k, v). query_escape k @ ''='' @ query_escape v) (sort_key fst m))"

text \<open>What was encoded decodes to the same pairs, sorted by key.\<close>

lemma query_escape_byte_unescape:
  "query_unescape (query_escape_byte c @ s) = map_option ((#) c) (query_unescape s)"
proof -
  consider "unreserved c" | "c = CHR '' ''" | "\<not> unreserved c" "c \<noteq> CHR '' ''" by blast
  then show ?thesis
  proof cases
    case 1
    then have "c \<noteq> CHR ''%''" "c \<noteq> CHR ''+''" by (auto simp: unreserved_def char_class_defs)
    then show ?thesis using 1 by (simp add: query_escape_byte_def)
  next
    case 2
    then show ?thesis by (simp add: query_escape_byte_def unreserved_def char_class_defs)
  next
    case 3
    then show ?thesis
      using nibble_bounds [of c] by (simp add: query_escape_byte_def percent_def unhex_hex_upper byte_nibbles)
  qed
qed

lemma query_unescape_escape: "query_unescape (query_escape s) = Some s"
  by (induction s) (simp_all add: query_escape_def query_escape_byte_unescape)

lemma query_escape_byte_chars: "x \<in> set (query_escape_byte c) \<Longrightarrow> x \<notin> {CHR ''&'', CHR ''='', CHR '';''}"
proof -
  have u: "unreserved y \<Longrightarrow> y \<notin> {CHR ''&'', CHR ''='', CHR '';''}" for y
    by (auto simp: unreserved_def char_class_defs)
  have h: "n < 16 \<Longrightarrow> hex_upper n \<notin> {CHR ''&'', CHR ''='', CHR '';''}" for n
    using ord_hex_upper [of n] by (auto split: if_splits)
  assume "x \<in> set (query_escape_byte c)"
  then show ?thesis using u [of c] h nibble_bounds [of c] by (auto simp: query_escape_byte_def percent_def split: if_splits)
qed

lemma query_escape_chars: "x \<in> set (query_escape s) \<Longrightarrow> x \<notin> {CHR ''&'', CHR ''='', CHR '';''}"
  using query_escape_byte_chars unfolding query_escape_def by (induction s) auto

lemma parse_query_encode: "parse_query (values_encode m) = (sort_key fst m, True)"
proof -
  let ?f = "\<lambda>(k, v). query_escape k @ ''='' @ query_escape v"
  let ?ps = "sort_key fst m"
  have free: "CHR ''&'' \<notin> set (?f p)" "?f p \<noteq> []" for p
    using query_escape_chars by (cases p, auto)+
  have part: "query_part (?f p) = Some p" for p
  proof -
    obtain k v where p: "p = (k, v)" by (cases p)
    have "cut (CHR ''='') (query_escape k @ CHR ''='' # query_escape v) = (query_escape k, query_escape v, True)"
      using query_escape_chars [of "CHR ''=''" k] by (intro cut_append) auto
    moreover have "CHR '';'' \<notin> set (?f p)" using query_escape_chars [of "CHR '';''"] p by auto
    ultimately show ?thesis using p by (simp add: query_part_def query_unescape_escape)
  qed
  have "query_parts (values_encode m) = map ?f ?ps"
  proof (cases "?ps = []")
    case False
    then have "split_on (CHR ''&'') (values_encode m) = map ?f ?ps"
      unfolding values_encode_def using free by (intro split_on_join) (auto simp del: set_sort)
    then show ?thesis using free by (simp add: query_parts_def filter_id_conv)
  qed (simp add: query_parts_def values_encode_def)
  then show ?thesis using part by (simp add: parse_query_def List.map_filter_def comp_def list_all_iff)
qed

lemma values_get_sort: "distinct (map fst m) \<Longrightarrow> values_get (sort_key fst m) k = values_get m k"
proof -
  assume "distinct (map fst m)"
  then have "map_of (sort_key fst m) = map_of m"
    by (simp add: map_of_inject_set distinct_map)
  then show ?thesis by (simp add: values_get_def)
qed

end
