(* ===== verification/Go_Http.thy ===== *)
theory Go_Http
  imports Go_Url "HOL-Library.AList"
begin

text \<open>
  Go's package \<open>net/http\<close> as the program uses it: header maps, the request, the parsing of
  a form body, and \<open>mime.ParseMediaType\<close>.

  A header map is an association list from canonical keys to the values of the key in the
  order received. Go iterates over the map in an unspecified order; the order of the list
  stands for one such order. \<open>wf_header\<close> is what \<open>net/http\<close> guarantees of the header of a
  request it has read: each key once, in canonical form, made of token characters.
\<close>

section \<open>Headers\<close>

type_synonym header = "(string \<times> string list) list"

definition token_char :: "char \<Rightarrow> bool" where
  "token_char c \<longleftrightarrow> is_alnum c \<or> c \<in> set ''!#$%&*+-.^_|~'' \<or> ord c = 39 \<or> ord c = 96"

text \<open>\<open>textproto.CanonicalMIMEHeaderKey\<close>: upper case for the first letter and for every
  letter after a hyphen, lower case elsewhere; a name with other characters is kept.\<close>

fun canon_from :: "bool \<Rightarrow> string \<Rightarrow> string" where
  "canon_from up [] = []"
| "canon_from up (c # cs) =
     (if up then upper_char c else lower_char c) # canon_from (c = CHR ''-'') cs"

definition canonical_key :: "string \<Rightarrow> string" where
  "canonical_key s = (if list_all token_char s then canon_from True s else s)"

definition header_values :: "header \<Rightarrow> string \<Rightarrow> string list" where
  "header_values h k = (case map_of h (canonical_key k) of None \<Rightarrow> [] | Some vs \<Rightarrow> vs)"

definition header_get :: "header \<Rightarrow> string \<Rightarrow> string" where
  "header_get h k = (case header_values h k of [] \<Rightarrow> [] | v # _ \<Rightarrow> v)"

definition header_set :: "header \<Rightarrow> string \<Rightarrow> string \<Rightarrow> header" where
  "header_set h k v = AList.update (canonical_key k) [v] h"

definition header_del :: "header \<Rightarrow> string \<Rightarrow> header" where
  "header_del h k = AList.delete (canonical_key k) h"

definition wf_key :: "string \<Rightarrow> bool" where
  "wf_key k \<longleftrightarrow> k \<noteq> [] \<and> list_all token_char k \<and> canonical_key k = k"

definition wf_header :: "header \<Rightarrow> bool" where
  "wf_header h \<longleftrightarrow> distinct (map fst h) \<and> (\<forall>k \<in> fst ` set h. wf_key k)"

subsection \<open>Canonical keys\<close>

lemma ord_upper_char: "ord (upper_char c) = (if is_lower c then ord c - 32 else ord c)"
  by (auto simp: upper_char_def is_lower_def of_char_of)

lemma ord_inj: "ord a = ord b \<Longrightarrow> a = b"
  by (metis char_of_char)

lemma upper_lower [simp]: "upper_char (lower_char c) = upper_char c"
  by (rule ord_inj) (auto simp: ord_upper_char ord_lower_char is_upper_def is_lower_def)

lemma lower_upper [simp]: "lower_char (upper_char c) = lower_char c"
  by (rule ord_inj) (auto simp: ord_upper_char ord_lower_char is_upper_def is_lower_def)

lemma upper_upper [simp]: "upper_char (upper_char c) = upper_char c"
  by (rule ord_inj) (auto simp: ord_upper_char is_lower_def)

lemma lower_lower [simp]: "lower_char (lower_char c) = lower_char c"
  by simp

lemma ord_eq_iff: "c = d \<longleftrightarrow> ord c = ord d"
  using ord_inj by blast

lemma lower_char_hyphen [simp]: "lower_char c = CHR ''-'' \<longleftrightarrow> c = CHR ''-''"
  by (simp add: ord_eq_iff [of "lower_char c"] ord_eq_iff [of c] ord_lower_char is_upper_def)

lemma upper_char_hyphen [simp]: "upper_char c = CHR ''-'' \<longleftrightarrow> c = CHR ''-''"
  by (auto simp: ord_eq_iff [of "upper_char c"] ord_eq_iff [of c] ord_upper_char is_lower_def)

lemma canon_from_lower: "canon_from up (to_lower s) = canon_from up s"
  by (induction s arbitrary: up) (simp_all add: to_lower_def)

lemma canon_from_canon: "canon_from up (canon_from up s) = canon_from up s"
  by (induction s arbitrary: up) simp_all

lemma to_lower_canon_from: "to_lower (canon_from up s) = to_lower s"
  by (induction s arbitrary: up) (simp_all add: to_lower_def)

lemma token_char_cases: "token_char (lower_char c) \<longleftrightarrow> token_char c"
  "token_char (upper_char c) \<longleftrightarrow> token_char c"
proof -
  have "is_upper c \<Longrightarrow> is_alnum (lower_char c) \<and> is_alnum c"
    by (auto simp: char_class_defs ord_lower_char)
  then show "token_char (lower_char c) \<longleftrightarrow> token_char c"
    by (cases "is_upper c") (auto simp: token_char_def)
  have "is_lower c \<Longrightarrow> is_alnum (upper_char c) \<and> is_alnum c"
    by (auto simp: char_class_defs ord_upper_char)
  moreover have "\<not> is_lower c \<Longrightarrow> upper_char c = c" by (simp add: upper_char_def)
  ultimately show "token_char (upper_char c) \<longleftrightarrow> token_char c"
    by (cases "is_lower c") (auto simp: token_char_def)
qed

lemma list_all_token_lower [simp]: "list_all token_char (to_lower s) \<longleftrightarrow> list_all token_char s"
  by (simp add: to_lower_def list_all_iff token_char_cases)

lemma list_all_token_canon [simp]: "list_all token_char (canon_from up s) \<longleftrightarrow> list_all token_char s"
  by (induction s arbitrary: up) (simp_all add: token_char_cases)

lemma canonical_key_lower [simp]:
  "list_all token_char s \<Longrightarrow> canonical_key (to_lower s) = canonical_key s"
  by (simp add: canonical_key_def canon_from_lower)

lemma canonical_key_idem [simp]: "canonical_key (canonical_key s) = canonical_key s"
  by (simp add: canonical_key_def canon_from_canon)

lemma token_char_graphic: "token_char c \<Longrightarrow> graphic c \<and> c \<notin> set '';,/= ''"
  by (auto simp: token_char_def graphic_def char_class_defs ord_eq_iff)

subsection \<open>Lookups after updates\<close>

lemma header_values_set [hdr_simps]:
  "header_values (header_set h k v) k' =
     (if canonical_key k' = canonical_key k then [v] else header_values h k')"
  by (simp add: header_values_def header_set_def update_conv')

lemma header_values_del [hdr_simps]:
  "header_values (header_del h k) k' =
     (if canonical_key k' = canonical_key k then [] else header_values h k')"
  by (simp add: header_values_def header_del_def delete_conv')

lemma header_get_set [hdr_simps]:
  "header_get (header_set h k v) k' =
     (if canonical_key k' = canonical_key k then v else header_get h k')"
  by (simp add: header_get_def header_values_set)

lemma header_get_del [hdr_simps]:
  "header_get (header_del h k) k' =
     (if canonical_key k' = canonical_key k then [] else header_get h k')"
  by (simp add: header_get_def header_values_del)

lemma canon_from_Nil_iff [simp]: "canon_from up s = [] \<longleftrightarrow> s = []"
  by (cases s) auto

lemma wf_key_canonical: "list_all token_char k \<Longrightarrow> k \<noteq> [] \<Longrightarrow> wf_key (canonical_key k)"
  by (simp add: wf_key_def canonical_key_def canon_from_canon)

lemma wf_header_set:
  "wf_header h \<Longrightarrow> list_all token_char k \<Longrightarrow> k \<noteq> [] \<Longrightarrow> wf_header (header_set h k v)"
  by (auto simp: wf_header_def header_set_def distinct_update dom_update wf_key_canonical)

lemma wf_header_del: "wf_header h \<Longrightarrow> wf_header (header_del h k)"
  using dom_delete_subset [of "canonical_key k" h]
  by (auto simp: wf_header_def header_del_def distinct_delete simp del: ball_simps)

section \<open>Requests\<close>

text \<open>
  The fields of \<open>http.Request\<close> that the program reads or sets. \<open>r_client_ip\<close> is the host
  part of \<open>RemoteAddr\<close> (\<open>None\<close> when the address does not split), \<open>r_tls\<close> whether the
  connection is encrypted, \<open>r_body\<close> the bytes of the body (\<open>None\<close> when reading it fails).
\<close>

record request =
  r_method :: string
  r_url :: url
  r_request_uri :: string
  r_host :: string
  r_header :: header
  r_content_length :: int
  r_body :: "string option"
  r_client_ip :: "string option"
  r_tls :: bool

definition req_get :: "request \<Rightarrow> string \<Rightarrow> string" where
  "req_get r k = header_get (r_header r) k"

definition req_set :: "request \<Rightarrow> string \<Rightarrow> string \<Rightarrow> request" where
  "req_set r k v = r\<lparr>r_header := header_set (r_header r) k v\<rparr>"

definition req_del :: "request \<Rightarrow> string \<Rightarrow> request" where
  "req_del r k = r\<lparr>r_header := header_del (r_header r) k\<rparr>"

lemma req_get_set [hdr_simps]:
  "req_get (req_set r k v) k' = (if canonical_key k' = canonical_key k then v else req_get r k')"
  by (simp add: req_get_def req_set_def header_get_set)

lemma req_get_del [hdr_simps]:
  "req_get (req_del r k) k' = (if canonical_key k' = canonical_key k then [] else req_get r k')"
  by (simp add: req_get_def req_del_def header_get_del)

lemma req_set_frame [simp]:
  "r_method (req_set r k v) = r_method r" "r_url (req_set r k v) = r_url r"
  "r_request_uri (req_set r k v) = r_request_uri r" "r_host (req_set r k v) = r_host r"
  "r_header (req_set r k v) = header_set (r_header r) k v"
  "r_content_length (req_set r k v) = r_content_length r"
  by (simp_all add: req_set_def)

lemma req_del_frame [simp]:
  "r_method (req_del r k) = r_method r" "r_url (req_del r k) = r_url r"
  "r_request_uri (req_del r k) = r_request_uri r" "r_host (req_del r k) = r_host r"
  "r_header (req_del r k) = header_del (r_header r) k"
  "r_content_length (req_del r k) = r_content_length r"
  by (simp_all add: req_del_def)

lemma req_get_host [simp]: "req_get (r\<lparr>r_host := x\<rparr>) k = req_get r k"
  by (simp add: req_get_def)

section \<open>Media types\<close>

text \<open>\<open>mime.ParseMediaType\<close>: the media type, or an error. A quoted parameter value ends at
  the closing quote; a backslash quotes the next character.\<close>

definition tspecial :: "char \<Rightarrow> bool" where
  "tspecial c \<longleftrightarrow> c \<in> set ''()<>@,;:/[]?='' \<or> ord c = 34 \<or> ord c = 92"

definition mime_token_char :: "char \<Rightarrow> bool" where
  "mime_token_char c \<longleftrightarrow> graphic c \<and> \<not> tspecial c"

definition consume_token :: "string \<Rightarrow> string \<times> string" where
  "consume_token s = (takeWhile mime_token_char s, dropWhile mime_token_char s)"

text \<open>\<open>checkMediaTypeDisposition\<close>: a token, optionally a slash and another token.\<close>

definition check_media_type :: "string \<Rightarrow> bool" where
  "check_media_type s =
     (case consume_token s of (typ, rest) \<Rightarrow>
        if typ = [] then False
        else if rest = [] then True
        else (case rest of
            c # rest' \<Rightarrow> c = CHR ''/'' \<and>
              (case consume_token rest' of (sub, rest'') \<Rightarrow> sub \<noteq> [] \<and> rest'' = [])
          | [] \<Rightarrow> True))"

text \<open>The rest of a quoted string after its opening quote: \<open>None\<close> when it does not end. A
  backslash quotes one of the special characters.\<close>

fun consume_quoted :: "string \<Rightarrow> (string \<times> string) option" where
  "consume_quoted [] = None"
| "consume_quoted (c # s) =
     (if ord c = 34 then Some ([], s)
      else if ord c = 92 \<and> s \<noteq> [] \<and> tspecial (hd s) then
        map_option (\<lambda>(v, r). (hd s # v, r)) (consume_quoted (tl s))
      else if ord c = 13 \<or> ord c = 10 then None
      else map_option (\<lambda>(v, r). (c # v, r)) (consume_quoted s))"

definition consume_value :: "string \<Rightarrow> string \<times> string" where
  "consume_value v = (case v of
     [] \<Rightarrow> ([], [])
   | c # s \<Rightarrow>
       if ord c \<noteq> 34 then consume_token v
       else (case consume_quoted s of None \<Rightarrow> ([], v) | Some (x, r) \<Rightarrow> (x, r)))"

text \<open>\<open>consumeMediaParam\<close>: \<open>None\<close> stands for the empty parameter name.\<close>

definition consume_param :: "string \<Rightarrow> (string \<times> string \<times> string) option" where
  "consume_param v =
     (case trim_left v of
        c # s \<Rightarrow>
          if c \<noteq> CHR '';'' then None
          else (case consume_token (trim_left s) of (name, rest) \<Rightarrow>
            if name = [] then None
            else (case trim_left rest of
                d # s' \<Rightarrow>
                  if d \<noteq> CHR ''='' then None
                  else (let w = trim_left s'; (val, rest') = consume_value w
                        in if val = [] \<and> rest' = w then None else Some (to_lower name, val, rest'))
              | [] \<Rightarrow> None))
      | [] \<Rightarrow> None)"

text \<open>The loop over the parameters, for at most \<open>n\<close> of them. Each parameter consumes at
  least its semicolon, so the length of the string is enough fuel.\<close>

fun params_ok :: "nat \<Rightarrow> (string \<times> string) list \<Rightarrow> string \<Rightarrow> bool" where
  "params_ok 0 seen v = (trim_left v = [])"
| "params_ok (Suc n) seen v =
     (let w = trim_left v in
      if w = [] then True
      else case consume_param w of
        None \<Rightarrow> trim_space w = '';''
      | Some (k, x, rest) \<Rightarrow>
          (case map_of seen k of
             Some y \<Rightarrow> if y = x then params_ok n seen rest else False
           | None \<Rightarrow> params_ok n ((k, x) # seen) rest))"

definition parse_media_type :: "string \<Rightarrow> string option" where
  "parse_media_type v =
     (let base = takeWhile (\<lambda>c. c \<noteq> CHR '';'') v; mt = trim_space (to_lower base);
          rest = dropWhile (\<lambda>c. c \<noteq> CHR '';'') v
      in if check_media_type mt \<and> params_ok (length rest) [] rest then Some mt else None)"

section \<open>Forms\<close>

definition form_type :: string where
  "form_type = ''application/x-www-form-urlencoded''"

text \<open>
  \<open>Request.ParseForm\<close> for a request whose body reads as \<open>body\<close> (\<open>None\<close>: the read fails,
  as it does past the limit of \<open>http.MaxBytesReader\<close>): the values of the body and whether
  there was no error. A malformed query string in the URL is an error too.
\<close>

definition parse_form :: "request \<Rightarrow> string option \<Rightarrow> url_values \<times> bool" where
  "parse_form r body =
     (let ct = header_get (r_header r) ''Content-Type'';
          mt = parse_media_type (if ct = [] then ''application/octet-stream'' else ct);
          url_ok = snd (parse_query (u_raw_query (r_url r)))
      in if r_method r \<notin> {''POST'', ''PUT'', ''PATCH''} then ([], url_ok)
         else case mt of
           None \<Rightarrow> ([], False)
         | Some t \<Rightarrow>
             if t = form_type then
               (case body of
                  None \<Rightarrow> ([], False)
                | Some b \<Rightarrow> (case parse_query b of (m, ok) \<Rightarrow> (m, ok \<and> url_ok)))
             else ([], url_ok))"

end
