(* ===== verification/Go_Time.thy ===== *)
theory Go_Time
  imports Go_Encoding "HOL-Library.Monad_Syntax"
begin

text \<open>
  Instants and durations of Go's package \<open>time\<close>, and the two wire formats the program
  uses: the ISO 8601 basic format \<open>20060102T150405Z\<close> of \<open>X-Amz-Date\<close> (printed and parsed)
  and RFC 3339 (printed). An instant is the number of nanoseconds since the Unix epoch, a
  duration a 64-bit number of nanoseconds. Instants carry no monotonic reading and are read
  in UTC.
\<close>

type_synonym time = int
type_synonym duration = int

definition second :: duration where "second = 1000000000"

definition minute :: duration where "minute = 60000000000"

definition hour :: duration where "hour = 3600000000000"

text \<open>\<open>time.Duration(n) * time.Second\<close>: the product wraps around at 64 bits.\<close>

definition seconds :: "int \<Rightarrow> duration" where
  "seconds n = wrap64 (n * second)"

text \<open>\<open>Time.Sub\<close> saturates at the least and the greatest duration.\<close>

definition time_sub :: "time \<Rightarrow> time \<Rightarrow> duration" where
  "time_sub t u = max min_int64 (min max_int64 (t - u))"

definition time_add :: "time \<Rightarrow> duration \<Rightarrow> time" where
  "time_add t d = t + d"

lemma seconds_id: "0 \<le> n \<Longrightarrow> n \<le> 9223372036 \<Longrightarrow> seconds n = n * second"
  by (simp add: seconds_def second_def min_int64_def max_int64_def)

lemma time_sub_le_iff:
  "min_int64 \<le> d \<Longrightarrow> d < max_int64 \<Longrightarrow> time_sub t u \<le> d \<longleftrightarrow> t - u \<le> d"
  by (auto simp: time_sub_def min_int64_def max_int64_def)

text \<open>
  The program reads its clock at several places while it handles one request. The readings
  are named by their place, and \<open>clock\<close> is their values during one request; nothing is assumed
  about how they relate unless a statement says so.
\<close>

datatype reading =
    At_start
  | At_expiry_check
  | At_verification
  | At_resign
  | At_synthetic
  | At_exchange
  | At_token_check
  | At_cooldown_check
  | At_refresh
  | At_count

type_synonym clock = "reading \<Rightarrow> time"

text \<open>The zero value of \<open>time.Time\<close>: the first instant of year 1.\<close>

definition zero_time :: time where "zero_time = - 62135596800000000000"

section \<open>The Gregorian calendar\<close>

definition is_leap :: "int \<Rightarrow> bool" where
  "is_leap y \<longleftrightarrow> y mod 4 = 0 \<and> (y mod 100 \<noteq> 0 \<or> y mod 400 = 0)"

definition month_lengths :: "int \<Rightarrow> int list" where
  "month_lengths y = [31, if is_leap y then 29 else 28, 31, 30, 31, 30, 31, 31, 30, 31, 30, 31]"

definition days_in :: "int \<Rightarrow> int \<Rightarrow> int" where
  "days_in y m = month_lengths y ! nat (m - 1)"

text \<open>Days from the first of January of year 0 to the first of January of year \<open>y\<close>.\<close>

definition days_to_year :: "int \<Rightarrow> int" where
  "days_to_year y = 365 * y + (y + 3) div 4 - (y + 99) div 100 + (y + 399) div 400"

definition days_to_month :: "int \<Rightarrow> int \<Rightarrow> int" where
  "days_to_month y m = sum_list (take (nat (m - 1)) (month_lengths y))"

text \<open>The day of a date, counted from the Unix epoch.\<close>

definition days_of_date :: "int \<Rightarrow> int \<Rightarrow> int \<Rightarrow> int" where
  "days_of_date y m d = days_to_year y + days_to_month y m + (d - 1) - 719528"

text \<open>
  Year and day of the year from the number of days since the first of January of year 1, by
  cutting off cycles of 400, 100, 4 and 1 years. The last cycle of a group has one day more,
  hence the \<open>min 3\<close>.
\<close>

definition year_of_days :: "int \<Rightarrow> int \<times> int" where
  "year_of_days d =
     (let a = d div 146097; r = d mod 146097;
          b = min 3 (r div 36524); r1 = r - 36524 * b;
          c = r1 div 1461; r2 = r1 mod 1461;
          e = min 3 (r2 div 365)
      in (1 + 400 * a + 100 * b + 4 * c + e, r2 - 365 * e))"

fun month_of_yday :: "int list \<Rightarrow> int \<Rightarrow> int \<Rightarrow> int \<times> int" where
  "month_of_yday [] m d = (m, d + 1)"
| "month_of_yday (l # ls) m d = (if d < l then (m, d + 1) else month_of_yday ls (m + 1) (d - l))"

definition date_of_days :: "int \<Rightarrow> int \<times> int \<times> int" where
  "date_of_days n =
     (let (y, yd) = year_of_days (n + 719528 - 366); (m, d) = month_of_yday (month_lengths y) 1 yd
      in (y, m, d))"

lemma days_to_year_cycles:
  assumes "0 \<le> b" "b \<le> 3" "0 \<le> c" "c \<le> 24" "0 \<le> e" "e \<le> (3::int)"
  shows "days_to_year (1 + 400 * a + 100 * b + 4 * c + e) =
    366 + 146097 * a + 36524 * b + 1461 * c + 365 * e"
proof -
  let ?y = "1 + 400 * a + 100 * b + 4 * c + e"
  have "(?y + 3) div 4 = 100 * a + 25 * b + c + 1"
    by (rule int_div_pos_eq [where r = e]) (use assms in \<open>simp_all add: algebra_simps\<close>)
  moreover have "(?y + 99) div 100 = 4 * a + b + 1"
    by (rule int_div_pos_eq [where r = "4 * c + e"]) (use assms in \<open>simp_all add: algebra_simps\<close>)
  moreover have "(?y + 399) div 400 = a + 1"
    by (rule int_div_pos_eq [where r = "100 * b + 4 * c + e"]) (use assms in \<open>simp_all add: algebra_simps\<close>)
  ultimately show ?thesis by (simp add: days_to_year_def)
qed

text \<open>One cut: \<open>n\<close> cycles of \<open>k\<close> days, the last of at most four being one day longer.\<close>

lemma cut_cycle:
  fixes r k :: int
  assumes "0 \<le> r" "r \<le> 4 * k" "1 < k"
  defines "q \<equiv> min 3 (r div k)"
  shows "0 \<le> q" "q \<le> 3" "0 \<le> r - k * q" "r - k * q \<le> k" "q < 3 \<Longrightarrow> r - k * q < k"
proof -
  have d: "r = k * (r div k) + r mod k" "0 \<le> r mod k" "r mod k < k" using assms by simp_all
  show "0 \<le> q" using assms by (simp add: q_def pos_imp_zdiv_nonneg_iff)
  show "q \<le> 3" by (simp add: q_def)
  have "r div k \<le> 4"
  proof (rule ccontr)
    assume "\<not> r div k \<le> 4"
    then have "k * 5 \<le> k * (r div k)" using assms by (intro mult_left_mono) auto
    then show False using d assms by linarith
  qed
  then consider "r div k \<le> 3" | "r div k = 4" by linarith
  then show "0 \<le> r - k * q" "r - k * q \<le> k" "q < 3 \<Longrightarrow> r - k * q < k"
    using d assms by (cases; simp add: q_def min_def; linarith)+
qed

lemma year_of_days_correct:
  assumes "year_of_days n = (y, yd)"
  shows "days_to_year y + yd = n + 366" "0 \<le> yd" "yd < (if is_leap y then 366 else 365)"
proof -
  define a r where "a = n div 146097" and "r = n mod 146097"
  define b r1 where "b = min 3 (r div 36524)" and "r1 = r - 36524 * b"
  define c r2 where "c = r1 div 1461" and "r2 = r1 mod 1461"
  define e where "e = min 3 (r2 div 365)"
  have y: "y = 1 + 400 * a + 100 * b + 4 * c + e" and yd: "yd = r2 - 365 * e"
    using assms unfolding year_of_days_def Let_def a_def r_def b_def r1_def c_def r2_def e_def
    by (simp_all only: prod.inject)
  have n: "n = 146097 * a + r" unfolding a_def r_def by simp
  have r: "0 \<le> r" "r < 146097" by (simp_all add: r_def)
  have b: "0 \<le> b" "b \<le> 3" and r1: "0 \<le> r1" "r1 \<le> 36524" "b < 3 \<Longrightarrow> r1 < 36524"
    using cut_cycle [of r 36524, folded b_def, folded r1_def] r by simp_all
  have r1c: "r1 = 1461 * c + r2" unfolding c_def r2_def by simp
  have r2: "0 \<le> r2" "r2 < 1461" by (simp_all add: r2_def)
  have c: "0 \<le> c" "c \<le> 24" using r1 r1c r2 by linarith+
  have e: "0 \<le> e" "e \<le> 3" and yd_b: "0 \<le> yd" "yd \<le> 365" "e < 3 \<Longrightarrow> yd < 365"
    using cut_cycle [of r2 365, folded e_def, folded yd] r2 by simp_all
  show "days_to_year y + yd = n + 366"
    using days_to_year_cycles [OF b c e, of a] r1c r1_def unfolding y yd n by linarith
  show "0 \<le> yd" by (rule yd_b)
  show "yd < (if is_leap y then 366 else 365)"
  proof (cases "yd = 365")
    case True
    then have e3: "e = 3" using yd_b e by fastforce
    then have r2_last: "r2 = 1460" using True yd by simp
    have "is_leap y"
    proof (cases "c = 24")
      case True
      then have "r1 = 36524" using r1c r2_last by simp
      then have "b = 3" using r1 b by fastforce
      then have "y = 400 * (a + 1)" using True e3 y by simp
      then show ?thesis by (simp add: is_leap_def)
    next
      case False
      have "y = 4 * (100 * a + 25 * b + c + 1)" using e3 y by simp
      moreover have "y mod 100 = 4 * c + 4"
        by (rule int_mod_pos_eq [where q = "4 * a + b"]) (use e3 y False c in \<open>simp_all add: algebra_simps\<close>)
      ultimately show ?thesis using c by (simp add: is_leap_def)
    qed
    then show ?thesis using yd_b by simp
  qed (use yd_b in auto)
qed

lemma month_of_yday_bounds:
  assumes "0 \<le> d" "d < sum_list ls" "month_of_yday ls m d = (m', d')"
  shows "m \<le> m' \<and> m' < m + int (length ls) \<and> 1 \<le> d' \<and> d' \<le> ls ! nat (m' - m) \<and>
    sum_list (take (nat (m' - m)) ls) + (d' - 1) = d"
  using assms
proof (induction ls m d rule: month_of_yday.induct)
  case (2 l ls m d)
  show ?case
  proof (cases "d < l")
    case True
    then show ?thesis using 2 by auto
  next
    case False
    then have IH: "m + 1 \<le> m' \<and> m' < m + 1 + int (length ls) \<and> 1 \<le> d' \<and> d' \<le> ls ! nat (m' - (m + 1)) \<and>
      sum_list (take (nat (m' - (m + 1))) ls) + (d' - 1) = d - l"
      using 2 by auto
    then have "nat (m' - m) = Suc (nat (m' - (m + 1)))" by linarith
    then show ?thesis using IH by simp
  qed
qed simp

lemma month_of_yday_correct:
  assumes "0 \<le> yd" "yd < (if is_leap y then 366 else 365)"
    and "month_of_yday (month_lengths y) 1 yd = (m, d)"
  shows "1 \<le> m" "m \<le> 12" "1 \<le> d" "d \<le> days_in y m" "days_to_month y m + (d - 1) = yd"
proof -
  have "sum_list (month_lengths y) = (if is_leap y then 366 else 365)"
    by (simp add: month_lengths_def)
  moreover have "length (month_lengths y) = 12" by (simp add: month_lengths_def)
  ultimately show "1 \<le> m" "m \<le> 12" "1 \<le> d" "d \<le> days_in y m" "days_to_month y m + (d - 1) = yd"
    using month_of_yday_bounds [OF assms(1) _ assms(3)] assms(2)
    by (auto simp: days_in_def days_to_month_def)
qed

text \<open>The calendar date of a day is a valid date of that very day.\<close>

lemma date_of_days_correct:
  assumes "date_of_days n = (y, m, d)"
  shows "days_of_date y m d = n" "1 \<le> m" "m \<le> 12" "1 \<le> d" "d \<le> days_in y m"
proof -
  obtain y' yd where yyd: "year_of_days (n + 719528 - 366) = (y', yd)" by fastforce
  obtain m' d' where md: "month_of_yday (month_lengths y') 1 yd = (m', d')" by fastforce
  have eq: "y' = y" "m' = m" "d' = d" using assms yyd md by (simp_all add: date_of_days_def)
  note yc = year_of_days_correct [OF yyd] and mc = month_of_yday_correct [OF yc(2,3) md]
  show "days_of_date y m d = n" using yc(1) mc(5) eq by (simp add: days_of_date_def)
  show "1 \<le> m" "m \<le> 12" "1 \<le> d" "d \<le> days_in y m" using mc eq by simp_all
qed

lemma days_in_le_31: "1 \<le> m \<Longrightarrow> m \<le> 12 \<Longrightarrow> days_in y m \<le> 31"
proof -
  assume "1 \<le> m" "m \<le> 12"
  then have "nat (m - 1) < length (month_lengths y)" by (simp add: month_lengths_def)
  then have "days_in y m \<in> set (month_lengths y)" by (simp add: days_in_def)
  then show ?thesis by (auto simp: month_lengths_def)
qed

section \<open>Printing\<close>

definition unix_seconds :: "time \<Rightarrow> int" where
  "unix_seconds t = t div second"

definition date_of :: "time \<Rightarrow> int \<times> int \<times> int" where
  "date_of t = date_of_days (unix_seconds t div 86400)"

definition clock_of :: "time \<Rightarrow> int \<times> int \<times> int" where
  "clock_of t = (let s = unix_seconds t mod 86400 in (s div 3600, s mod 3600 div 60, s mod 60))"

text \<open>\<open>t.UTC().Format("20060102")\<close>.\<close>

definition format_date :: "time \<Rightarrow> string" where
  "format_date t = (case date_of t of (y, m, d) \<Rightarrow> pad_num 4 y @ pad_num 2 m @ pad_num 2 d)"

text \<open>\<open>t.UTC().Format("20060102T150405Z")\<close>.\<close>

definition format_amz :: "time \<Rightarrow> string" where
  "format_amz t = format_date t @ ''T'' @
     (case clock_of t of (h, m, s) \<Rightarrow> pad_num 2 h @ pad_num 2 m @ pad_num 2 s) @ ''Z''"

text \<open>\<open>t.UTC().Format(time.RFC3339)\<close>.\<close>

definition format_rfc3339 :: "time \<Rightarrow> string" where
  "format_rfc3339 t =
     (case date_of t of (y, m, d) \<Rightarrow> pad_num 4 y @ ''-'' @ pad_num 2 m @ ''-'' @ pad_num 2 d) @ ''T'' @
     (case clock_of t of (h, m, s) \<Rightarrow> pad_num 2 h @ '':'' @ pad_num 2 m @ '':'' @ pad_num 2 s) @ ''Z''"

section \<open>Parsing\<close>

text \<open>
  \<open>time.Parse\<close> for the layout \<open>20060102T150405Z\<close>, element by element as the library
  walks the layout. \<open>getnum\<close> reads two digits, or one when \<open>fixed\<close> is false and no second
  digit follows (the hour). After the seconds the library accepts a fraction that the layout
  does not mention.
\<close>

definition getnum :: "bool \<Rightarrow> string \<Rightarrow> (int \<times> string) option" where
  "getnum fixed s = (case s of
     [] \<Rightarrow> None
   | a # r \<Rightarrow>
       if \<not> is_digit a then None
       else (case r of
           b # r' \<Rightarrow> if is_digit b then Some (int (10 * digit_val a + digit_val b), r')
             else if fixed then None else Some (int (digit_val a), r)
         | [] \<Rightarrow> if fixed then None else Some (int (digit_val a), r)))"

definition getyear :: "string \<Rightarrow> (int \<times> string) option" where
  "getyear s = (if length s < 4 \<or> \<not> list_all is_digit (take 4 s) then None
     else Some (int (digits_val (take 4 s)), drop 4 s))"

fun literal :: "char \<Rightarrow> string \<Rightarrow> string option" where
  "literal c [] = None"
| "literal c (x # xs) = (if x = c then Some xs else None)"

text \<open>Nanoseconds of a fraction: at most nine digits count.\<close>

definition fraction :: "string \<Rightarrow> int \<times> string" where
  "fraction s = (case s of
     p # d # r \<Rightarrow>
       if (p = CHR ''.'' \<or> p = CHR '','') \<and> is_digit d then
         (let ds = takeWhile is_digit (d # r); k = take 9 ds
          in (int (digits_val k) * 10 ^ (9 - length k), dropWhile is_digit (d # r)))
       else (0, s)
   | _ \<Rightarrow> (0, s))"

definition guard :: "bool \<Rightarrow> unit option" where
  "guard b = (if b then Some () else None)"

definition parse_amz :: "string \<Rightarrow> time option" where
  "parse_amz s = do {
     (y, s) \<leftarrow> getyear s;
     (m, s) \<leftarrow> getnum True s;
     guard (0 < m \<and> m \<le> 12);
     (d, s) \<leftarrow> getnum True s;
     s \<leftarrow> literal (CHR ''T'') s;
     (h, s) \<leftarrow> getnum False s;
     guard (h < 24);
     (mi, s) \<leftarrow> getnum True s;
     guard (mi < 60);
     (se, s) \<leftarrow> getnum True s;
     guard (se < 60);
     let (ns, s) = fraction s;
     s \<leftarrow> literal (CHR ''Z'') s;
     guard (s = []);
     guard (1 \<le> d \<and> d \<le> days_in y m);
     Some ((((days_of_date y m d * 24 + h) * 60 + mi) * 60 + se) * second + ns)
   }"

lemma guard_simps [simp]: "guard True = Some ()" "guard False = None"
  by (simp_all add: guard_def)

lemma guard_Some [simp]: "guard b = Some u \<longleftrightarrow> b"
  by (simp add: guard_def)

lemma pad_num_2:
  assumes "0 \<le> i" "i < 100"
  obtains a b where "pad_num 2 i = [a, b]" "is_digit a" "is_digit b"
    "int (10 * digit_val a + digit_val b) = i"
proof -
  have "length (pad_num 2 i) = 2" using assms by (intro length_pad_num) auto
  then obtain a b where ab: "pad_num 2 i = [a, b]"
    by (cases "pad_num 2 i"; cases "tl (pad_num 2 i)") auto
  moreover have "digits_val [a, b] = nat i" using digits_val_pad_num [of i 2] ab assms by simp
  moreover have "list_all is_digit [a, b]" using pad_num_digits [of i 2] ab assms by simp
  ultimately show thesis using assms by (intro that) (auto simp: digits_val_def)
qed

lemma getnum_pad_num: "0 \<le> i \<Longrightarrow> i < 100 \<Longrightarrow> getnum f (pad_num 2 i @ r) = Some (i, r)"
  by (rule pad_num_2 [of i]) (simp_all add: getnum_def)

lemma getyear_pad_num: "0 \<le> y \<Longrightarrow> y < 10000 \<Longrightarrow> getyear (pad_num 4 y @ r) = Some (y, r)"
  using length_pad_num [of y 4] pad_num_digits [of y 4] digits_val_pad_num [of y 4]
  by (simp add: getyear_def)

lemma fraction_none [simp]: "fraction ''Z'' = (0, ''Z'')"
  by (simp add: fraction_def)

lemma clock_of_bounds:
  assumes "clock_of t = (h, m, s)"
  shows "0 \<le> h" "h < 24" "0 \<le> m" "m < 60" "0 \<le> s" "s < 60"
    "(h * 60 + m) * 60 + s = unix_seconds t mod 86400"
proof -
  define k where "k = unix_seconds t mod 86400"
  define r where "r = k mod 3600"
  have k: "0 \<le> k" "k < 86400" by (simp_all add: k_def)
  have r: "0 \<le> r" "r < 3600" by (simp_all add: r_def)
  have "k mod 60 = r mod 60" unfolding r_def by (simp add: mod_mod_cancel)
  then have e: "h = k div 3600" "m = r div 60" "s = r mod 60"
    using assms by (simp_all add: clock_of_def k_def r_def Let_def)
  have kh: "k = 3600 * h + r" and rm: "r = 60 * m + s" unfolding e r_def by simp_all
  show s: "0 \<le> s" "s < 60" unfolding e by simp_all
  show "0 \<le> h" "h < 24" using kh k r by linarith+
  show "0 \<le> m" "m < 60" using rm r s by linarith+
  show "(h * 60 + m) * 60 + s = unix_seconds t mod 86400"
    unfolding k_def [symmetric] using kh rm by simp
qed

text \<open>The years that a date of four digits can name.\<close>

definition four_digit_year :: "time \<Rightarrow> bool" where
  "four_digit_year t \<longleftrightarrow> 0 \<le> fst (date_of t) \<and> fst (date_of t) < 10000"

lemma parse_format_amz:
  assumes "four_digit_year t"
  shows "parse_amz (format_amz t) = Some (t - t mod second)"
proof -
  obtain y m d where ymd: "date_of t = (y, m, d)" by (cases "date_of t")
  obtain h mi s where hms: "clock_of t = (h, mi, s)" by (cases "clock_of t")
  note dc = date_of_days_correct [OF ymd [unfolded date_of_def]] and cb = clock_of_bounds [OF hms]
  have y: "0 \<le> y" "y < 10000" using assms ymd by (simp_all add: four_digit_year_def)
  have d31: "d \<le> 31" using days_in_le_31 [of m y] dc by linarith
  have "parse_amz (format_amz t) =
      Some ((((days_of_date y m d * 24 + h) * 60 + mi) * 60 + s) * second + 0)"
    unfolding parse_amz_def format_amz_def format_date_def
    using y dc(2-5) d31 cb(1-6)
    by (simp add: ymd hms getyear_pad_num getnum_pad_num)
  also have "((days_of_date y m d * 24 + h) * 60 + mi) * 60 + s = unix_seconds t"
  proof -
    define q where "q = unix_seconds t div 86400"
    have "unix_seconds t = q * 86400 + unix_seconds t mod 86400" by (simp add: q_def)
    then show ?thesis using cb(7) unfolding dc(1) q_def [symmetric] by (simp add: algebra_simps)
  qed
  also have "unix_seconds t * second + 0 = t - t mod second"
    by (simp add: unix_seconds_def minus_mod_eq_div_mult)
  finally show ?thesis .
qed

text \<open>What is parsed starts with eight digits, so slicing them off never panics.\<close>

lemma getyear_length: "getyear s = Some (y, r) \<Longrightarrow> length s = length r + 4"
  by (auto simp: getyear_def split: if_splits)

lemma getnum_length: "getnum True s = Some (n, r) \<Longrightarrow> length s = length r + 2"
  by (auto simp: getnum_def split: list.splits if_splits)

lemma getnum_length_then:
  "getnum False s = Some (n, r) \<Longrightarrow> getnum True r = Some p \<Longrightarrow> length s = length r + 2"
  by (auto simp: getnum_def split: list.splits if_splits)

lemma literal_length: "literal c s = Some r \<Longrightarrow> length s = length r + 1"
  by (cases s) (auto split: if_splits)

lemma fraction_length: "fraction s = (n, r) \<Longrightarrow> length r \<le> length s"
  by (auto simp: fraction_def Let_def length_dropWhile_le le_SucI split: list.splits if_splits)

lemma parse_amz_length:
  assumes "parse_amz s = Some t"
  shows "16 \<le> length s"
proof -
  from assms obtain y s1 m s2 d s3 s4 h s5 mi s6 se s7 where
    "getyear s = Some (y, s1)" "getnum True s1 = Some (m, s2)" "getnum True s2 = Some (d, s3)"
    "literal (CHR ''T'') s3 = Some s4" "getnum False s4 = Some (h, s5)"
    and mi: "getnum True s5 = Some (mi, s6)" "getnum True s6 = Some (se, s7)"
    and z: "literal (CHR ''Z'') (snd (fraction s7)) = Some []"
    unfolding parse_amz_def Let_def case_prod_unfold
    by (auto simp: bind_eq_Some_conv)
  then have "length s = length s1 + 4" "length s1 = length s2 + 2" "length s2 = length s3 + 2"
    "length s3 = length s4 + 1" "length s4 = length s5 + 2" "length s5 = length s6 + 2"
    "length s6 = length s7 + 2"
    using mi getnum_length_then [OF _ mi(1)]
    by (auto dest!: getyear_length getnum_length literal_length)
  moreover have "1 \<le> length s7"
    using literal_length [OF z] fraction_length [of s7] by (cases "fraction s7") force
  ultimately show ?thesis by linarith
qed

lemma length_format_date: "four_digit_year t \<Longrightarrow> length (format_date t) = 8"
proof -
  assume f: "four_digit_year t"
  obtain y m d where ymd: "date_of t = (y, m, d)" by (cases "date_of t")
  note dc = date_of_days_correct [OF ymd [unfolded date_of_def]]
  have "d \<le> 31" using days_in_le_31 [of m y] dc by linarith
  then show ?thesis
    using f ymd dc by (simp add: format_date_def four_digit_year_def length_pad_num)
qed

lemma take_format_amz: "four_digit_year t \<Longrightarrow> take 8 (format_amz t) = format_date t"
  by (simp add: format_amz_def length_format_date)

end
