(* ===== verification/Sha256.thy ===== *)
theory Sha256
  imports Go_Encoding
begin

text \<open>
  The hash of Go's package \<open>crypto/sha256\<close> (FIPS 180-4) and \<open>crypto/hmac\<close> over it
  (RFC 2104), on bytes. Every addition is on 32-bit words and wraps around.

  The definitions are executable; the facts named \<open>sha_eval\<close> keep the numerals of a kernel
  evaluation reduced to 32 bits.
\<close>

unbundle bit_operations_syntax

type_synonym w32 = "32 word"

named_theorems sha_eval \<open>evaluation of the hash on numerals\<close>

section \<open>The compression function\<close>

definition add32 :: "w32 \<Rightarrow> w32 \<Rightarrow> w32" where
  "add32 x y = x + y"

definition rotr :: "nat \<Rightarrow> w32 \<Rightarrow> w32" where
  "rotr n x = drop_bit n x OR push_bit (32 - n) x"

definition big_sigma0 :: "w32 \<Rightarrow> w32" where
  "big_sigma0 x = rotr 2 x XOR rotr 13 x XOR rotr 22 x"

definition big_sigma1 :: "w32 \<Rightarrow> w32" where
  "big_sigma1 x = rotr 6 x XOR rotr 11 x XOR rotr 25 x"

definition small_sigma0 :: "w32 \<Rightarrow> w32" where
  "small_sigma0 x = rotr 7 x XOR rotr 18 x XOR drop_bit 3 x"

definition small_sigma1 :: "w32 \<Rightarrow> w32" where
  "small_sigma1 x = rotr 17 x XOR rotr 19 x XOR drop_bit 10 x"

definition choice_bits :: "w32 \<Rightarrow> w32 \<Rightarrow> w32 \<Rightarrow> w32" where
  "choice_bits x y z = (x AND y) XOR (NOT x AND z)"

definition majority_bits :: "w32 \<Rightarrow> w32 \<Rightarrow> w32 \<Rightarrow> w32" where
  "majority_bits x y z = (x AND y) XOR (x AND z) XOR (y AND z)"

definition round_constants :: "w32 list" where
  "round_constants = [
     1116352408, 1899447441, 3049323471, 3921009573, 961987163, 1508970993,
     2453635748, 2870763221, 3624381080, 310598401, 607225278, 1426881987,
     1925078388, 2162078206, 2614888103, 3248222580, 3835390401, 4022224774,
     264347078, 604807628, 770255983, 1249150122, 1555081692, 1996064986,
     2554220882, 2821834349, 2952996808, 3210313671, 3336571891, 3584528711,
     113926993, 338241895, 666307205, 773529912, 1294757372, 1396182291,
     1695183700, 1986661051, 2177026350, 2456956037, 2730485921, 2820302411,
     3259730800, 3345764771, 3516065817, 3600352804, 4094571909, 275423344,
     430227734, 506948616, 659060556, 883997877, 958139571, 1322822218,
     1537002063, 1747873779, 1955562222, 2024104815, 2227730452, 2361852424,
     2428436474, 2756734187, 3204031479, 3329325298]"

datatype hash_state = HS w32 w32 w32 w32 w32 w32 w32 w32

definition initial_hash :: hash_state where
  "initial_hash = HS 0x6a09e667 0xbb67ae85 0x3c6ef372 0xa54ff53a 0x510e527f 0x9b05688c 0x1f83d9ab 0x5be0cd19"

fun round_update :: "w32 \<Rightarrow> w32 \<Rightarrow> hash_state \<Rightarrow> hash_state" where
  "round_update t1 t2 (HS a b c d e f g h) = HS (add32 t1 t2) a b c (add32 d t1) e f g"

fun round_t1 :: "w32 \<Rightarrow> w32 \<Rightarrow> hash_state \<Rightarrow> w32" where
  "round_t1 k w (HS a b c d e f g h) =
     add32 (add32 (add32 (add32 h (big_sigma1 e)) (choice_bits e f g)) k) w"

fun round_t2 :: "hash_state \<Rightarrow> w32" where
  "round_t2 (HS a b c d e f g h) = add32 (big_sigma0 a) (majority_bits a b c)"

text \<open>The next word of the message schedule, from the last sixteen.\<close>

definition schedule_word :: "w32 list \<Rightarrow> w32" where
  "schedule_word ws =
     add32 (add32 (add32 (small_sigma1 (ws ! 14)) (ws ! 9)) (small_sigma0 (ws ! 1))) (ws ! 0)"

fun rounds :: "w32 list \<Rightarrow> w32 list \<Rightarrow> hash_state \<Rightarrow> hash_state" where
  "rounds [] ws st = st"
| "rounds (k # ks) ws st =
     rounds ks (tl ws @ [schedule_word ws]) (round_update (round_t1 k (hd ws) st) (round_t2 st) st)"

fun hash_add :: "hash_state \<Rightarrow> hash_state \<Rightarrow> hash_state" where
  "hash_add (HS a b c d e f g h) (HS a' b' c' d' e' f' g' h') =
     HS (add32 a a') (add32 b b') (add32 c c') (add32 d d')
        (add32 e e') (add32 f f') (add32 g g') (add32 h h')"

definition compress :: "w32 list \<Rightarrow> hash_state \<Rightarrow> hash_state" where
  "compress block st = hash_add st (rounds round_constants block st)"

section \<open>Padding and digest\<close>

text \<open>The message, the byte 128, zeros, and the length in bits as eight bytes.\<close>

definition be_bytes :: "nat \<Rightarrow> nat \<Rightarrow> bytes" where
  "be_bytes k n = map (\<lambda>i. char_of (n div 256 ^ i)) (rev [0..<k])"

definition sha_pad :: "bytes \<Rightarrow> bytes" where
  "sha_pad m = m @ char_of (128::nat) # replicate ((119 - length m mod 64) mod 64) (char_of (0::nat)) @
     be_bytes 8 (8 * length m)"

fun be_words :: "bytes \<Rightarrow> w32 list" where
  "be_words (a # b # c # d # s) =
     word_of_nat (((ord a * 256 + ord b) * 256 + ord c) * 256 + ord d) # be_words s"
| "be_words s = []"

function blocks :: "w32 list \<Rightarrow> w32 list list" where
  "blocks ws = (if length ws < 16 then [] else take 16 ws # blocks (drop 16 ws))"
  by pat_completeness auto
termination by (relation "measure length") auto

declare blocks.simps [simp del]

definition word_bytes :: "w32 \<Rightarrow> bytes" where
  "word_bytes w = be_bytes 4 (unat w)"

fun digest :: "hash_state \<Rightarrow> bytes" where
  "digest (HS a b c d e f g h) = concat (map word_bytes [a, b, c, d, e, f, g, h])"

definition sha256 :: "bytes \<Rightarrow> bytes" where
  "sha256 m = digest (fold compress (blocks (be_words (sha_pad m))) initial_hash)"

section \<open>HMAC\<close>

definition xor_byte :: "nat \<Rightarrow> char \<Rightarrow> char" where
  "xor_byte n c = char_of (n XOR ord c)"

definition hmac_key :: "bytes \<Rightarrow> bytes" where
  "hmac_key k =
     (let k' = (if 64 < length k then sha256 k else k)
      in k' @ replicate (64 - length k') (char_of (0::nat)))"

text \<open>\<open>hmac.New(sha256.New, key)\<close>, one \<open>Write\<close>, \<open>Sum(nil)\<close>.\<close>

definition hmac_sha256 :: "bytes \<Rightarrow> bytes \<Rightarrow> bytes" where
  "hmac_sha256 k m =
     (let key = hmac_key k
      in sha256 (map (xor_byte 92) key @ sha256 (map (xor_byte 54) key @ m)))"

lemma length_be_bytes [simp]: "length (be_bytes k n) = k"
  by (simp add: be_bytes_def)

text \<open>A digest has 32 bytes, whatever the input.\<close>

lemma length_sha256 [simp]: "length (sha256 m) = 32"
proof -
  have "length (digest st) = 32" for st
    by (cases st) (simp add: word_bytes_def)
  then show ?thesis by (simp add: sha256_def)
qed

lemma length_hmac_sha256 [simp]: "length (hmac_sha256 k m) = 32"
  by (simp add: hmac_sha256_def Let_def)

text \<open>A padded message is a whole number of 64-byte blocks.\<close>

lemma sha_pad_blocks: "length (sha_pad m) mod 64 = 0"
proof -
  define q r where "q = length m div 64" and "r = length m mod 64"
  have m: "length m = 64 * q + r" and r: "r < 64" by (simp_all add: q_def r_def)
  have "(119 - r) mod 64 = (if r \<le> 55 then 55 - r else 119 - r)"
  proof (cases "r \<le> 55")
    case True
    then have "119 - r = 64 + (55 - r)" by simp
    then have "(119 - r) mod 64 = (55 - r) mod 64" by (simp only: mod_add_self1)
    with True show ?thesis by simp
  qed (use r in simp)
  moreover have "length (sha_pad m) = length m + 9 + (119 - r) mod 64"
    by (simp add: sha_pad_def r_def)
  ultimately have "length (sha_pad m) = 64 * (q + (if r \<le> 55 then 1 else 2))"
    using m r by (simp split: if_splits)
  then show ?thesis by simp
qed

section \<open>Evaluation\<close>

lemma mask32: "(x :: w32) AND 0xFFFFFFFF = x"
proof -
  have "(0xFFFFFFFF :: w32) = - 1" by simp
  then show ?thesis by (simp only: bit.conj_one_right)
qed

lemma add32_eval [sha_eval]:
  "add32 (numeral a) (numeral b) = (numeral a + numeral b) AND 0xFFFFFFFF"
  "add32 0 x = x" "add32 x 0 = x"
  by (simp_all only: add32_def mask32 add_0_left add_0_right)

lemma rotr_eval [sha_eval]:
  "rotr (numeral n) (numeral x) =
     (drop_bit (numeral n) (numeral x) OR push_bit (32 - numeral n) (numeral x)) AND 0xFFFFFFFF"
  "rotr k 0 = 0"
  by (simp_all only: rotr_def mask32 drop_bit_of_0 push_bit_of_0 or.left_neutral)

lemma choice_bits_eval [sha_eval]: "choice_bits x y z = z XOR (x AND (y XOR z))"
  by (rule bit_word_eqI) (auto simp: choice_bits_def bit_simps)

lemmas sha_defs = big_sigma0_def big_sigma1_def small_sigma0_def small_sigma1_def
  majority_bits_def schedule_word_def

lemma blocks_one: "length ws = 16 \<Longrightarrow> blocks ws = [ws]"
  by (simp add: blocks.simps)

lemma be_bytes_zero: "be_bytes k 0 = replicate k (char_of (0::nat))"
  by (simp add: be_bytes_def map_replicate_const)

lemma be_words_zeros: "be_words (replicate (4 * n) (char_of (0::nat))) = replicate n 0"
proof (induction n)
  case (Suc n)
  have "4 * Suc n = Suc (Suc (Suc (Suc (4 * n))))" by simp
  then show ?case using Suc by (simp only: replicate_Suc be_words.simps) simp
qed simp

lemma pad_empty: "be_words (sha_pad []) = [0x80000000, 0, 0, 0, 0, 0, 0, 0, 0, 0, 0, 0, 0, 0, 0, 0]"
proof -
  let ?z = "char_of (0::nat)"
  have "sha_pad [] = char_of (128::nat) # replicate (3 + 4 * 15) ?z"
    unfolding replicate_add by (simp add: sha_pad_def be_bytes_zero flip: replicate_add)
  also have "\<dots> = char_of (128::nat) # ?z # ?z # ?z # replicate (4 * 15) ?z"
    by (simp only: replicate_add) (simp add: numeral_3_eq_3)
  finally have "be_words (sha_pad []) = 0x80000000 # replicate 15 0"
    unfolding be_words_zeros [of 15, symmetric] by (simp add: of_char_of)
  also have "replicate 15 0 = [0, 0, 0, 0, 0, 0, 0, 0, 0, 0, 0, 0, 0, 0, 0 :: w32]"
    by (simp add: numeral_eq_Suc)
  finally show ?thesis .
qed

lemma compress_empty:
  "compress [0x80000000, 0, 0, 0, 0, 0, 0, 0, 0, 0, 0, 0, 0, 0, 0, 0] initial_hash =
    HS 0xe3b0c442 0x98fc1c14 0x9afbf4c8 0x996fb924 0x27ae41e4 0x649b934c 0xa495991b 0x7852b855"
  by (simp add: compress_def sha_eval sha_defs round_constants_def initial_hash_def)

lemma be_bytes_4: "be_bytes 4 n =
  [char_of (n div 16777216), char_of (n div 65536), char_of (n div 256), char_of n]"
  by (simp add: be_bytes_def upt_rec)

lemma digest_empty:
  "hex_encode (digest (HS 0xe3b0c442 0x98fc1c14 0x9afbf4c8 0x996fb924 0x27ae41e4 0x649b934c 0xa495991b 0x7852b855)) =
     ''e3b0c44298fc1c149afbf4c8996fb92427ae41e4649b934ca495991b7852b855''"
  by (simp add: word_bytes_def be_bytes_4 of_char_of hex_lower_def char_of_eq_iff)

text \<open>The digest of the empty message, computed in the kernel.\<close>

lemma sha256_empty:
  "hex_encode (sha256 []) = ''e3b0c44298fc1c149afbf4c8996fb92427ae41e4649b934ca495991b7852b855''"
proof -
  have "fold compress (blocks (be_words (sha_pad []))) initial_hash =
      compress [0x80000000, 0, 0, 0, 0, 0, 0, 0, 0, 0, 0, 0, 0, 0, 0, 0] initial_hash"
    by (simp add: pad_empty blocks_one)
  then show ?thesis
    by (simp only: sha256_def compress_empty digest_empty)
qed

end
