(* ===== verification/Sigv4.thy ===== *)
theory Sigv4
  imports Go_Http Go_Time Sha256
begin

text \<open>
  Package \<open>internal/sigv4\<close>: parsing and verification of Signature Version 4 on incoming
  requests (\<open>sigv4.go\<close>), its query-string form (\<open>presign.go\<close>) and the signer of outgoing
  requests (\<open>sign.go\<close>). Errors keep the kind that callers test with \<open>errors.Is\<close> and the
  operands of the message.
\<close>

section \<open>Data\<close>

definition Algorithm :: string where
  "Algorithm = ''AWS4-HMAC-SHA256''"

definition emptyBodySHA256 :: string where
  "emptyBodySHA256 = ''e3b0c44298fc1c149afbf4c8996fb92427ae41e4649b934ca495991b7852b855''"

definition unsignedPayload :: string where
  "unsignedPayload = ''UNSIGNED-PAYLOAD''"

definition maxPresignExpires :: int where
  "maxPresignExpires = 604800"

datatype sigv4_error =
    ErrMalformed "string list"
  | ErrMissingDate
  | ErrSkew
  | ErrScope "string list"
  | ErrSignatureMismatch
  | ErrPresignExpired

record authorization =
  au_access_key_id :: string
  au_date :: string
  au_region :: string
  au_service :: string
  au_signed_headers :: "string list"
  au_signature :: string

definition empty_authorization :: authorization where
  "empty_authorization = \<lparr>au_access_key_id = [], au_date = [], au_region = [], au_service = [],
     au_signed_headers = [], au_signature = []\<rparr>"

text \<open>The Go struct \<open>Presigned\<close> embeds \<open>Authorization\<close>; the record extends it.\<close>

record presigned = authorization +
  ps_amz_date :: string
  ps_expires :: duration
  ps_security_token :: string

text \<open>\<open>Input\<close> and \<open>PresignInput\<close> differ in the type of the authentication only.\<close>

record 'auth verify_input =
  in_request :: request
  in_auth :: 'auth
  in_secret :: string
  in_region :: string
  in_service :: string
  in_now :: time
  in_clock_skew :: duration

section \<open>Parsing the Authorization header\<close>

definition isSigV4 :: "string \<Rightarrow> bool" where
  "isSigV4 h \<longleftrightarrow> has_prefix (Algorithm @ '' '') h"

definition setCredential ::
  "string \<Rightarrow> 'a authorization_scheme \<Rightarrow> sigv4_error + 'a authorization_scheme" where
  "setCredential v a =
     (let scope = split_on (CHR ''/'') v in
      if length scope \<noteq> 5 \<or> scope ! 4 \<noteq> ''aws4_request'' then Inl (ErrMalformed [''credential scope'', v])
      else
        let a' = a\<lparr>au_access_key_id := scope ! 0, au_date := scope ! 1, au_region := scope ! 2,
                   au_service := scope ! 3\<rparr>
        in if au_access_key_id a' = [] \<or> length (au_date a') \<noteq> 8
           then Inl (ErrMalformed [''credential scope'', v]) else Inr a')"

definition addSignedHeader ::
  "string \<Rightarrow> 'a authorization_scheme \<Rightarrow> sigv4_error + 'a authorization_scheme" where
  "addSignedHeader h a =
     (let h' = to_lower (trim_space h) in
      if h' = [] then Inl (ErrMalformed [''empty signed header name''])
      else Inr (a\<lparr>au_signed_headers := au_signed_headers a @ [h']\<rparr>))"

definition setSignedHeaders ::
  "string \<Rightarrow> 'a authorization_scheme \<Rightarrow> sigv4_error + 'a authorization_scheme" where
  "setSignedHeaders v a = res_fold addSignedHeader (split_on (CHR '';'') v) a"

definition setSignature ::
  "string \<Rightarrow> 'a authorization_scheme \<Rightarrow> sigv4_error + 'a authorization_scheme" where
  "setSignature v a =
     (let sig = to_lower (trim_space v) in
      if length sig \<noteq> 64 then Inl (ErrMalformed [''signature must be 64 hex chars''])
      else if hex_decode sig = None then Inl (ErrMalformed [''signature is not hex''])
      else Inr (a\<lparr>au_signature := sig\<rparr>))"

text \<open>The body of the loop over the comma-separated components.\<close>

definition parseComponent ::
  "string \<Rightarrow> 'a authorization_scheme \<Rightarrow> sigv4_error + 'a authorization_scheme" where
  "parseComponent raw a =
     (let part = trim_space raw in
      if part = [] then Inr a
      else case cut (CHR ''='') part of (key, val, found) \<Rightarrow>
        if \<not> found then Inl (ErrMalformed [''component'', part])
        else if key = ''Credential'' then setCredential val a
        else if key = ''SignedHeaders'' then setSignedHeaders val a
        else if key = ''Signature'' then setSignature val a
        else Inl (ErrMalformed [''unknown component'', key]))"

definition parseAuthorization :: "string \<Rightarrow> sigv4_error + authorization" where
  "parseAuthorization h =
     (case cut_prefix Algorithm h of
        None \<Rightarrow> Inl (ErrMalformed [''unsupported algorithm''])
      | Some rest \<Rightarrow>
          res_bind (res_fold parseComponent (split_on (CHR '','') rest) empty_authorization) (\<lambda>auth.
            if au_access_key_id auth = [] \<or> au_signed_headers auth = [] \<or> au_signature auth = []
            then Inl (ErrMalformed [''missing Credential, SignedHeaders or Signature''])
            else Inr auth))"

section \<open>The canonical request\<close>

definition orSlash :: "string \<Rightarrow> string" where
  "orSlash p = (if p = [] then ''/'' else p)"

definition canonicalURI :: "request \<Rightarrow> string" where
  "canonicalURI r =
     (let uri = r_request_uri r in
      if uri = [] then orSlash (escaped_path (r_url r))
      else
        let plain = orSlash (fst (cut (CHR ''?'') uri)) in
        if has_prefix ''http://'' uri \<or> has_prefix ''https://'' uri then
          (case parse_request_uri uri of
             Some u \<Rightarrow> orSlash (escaped_path u)
           | None \<Rightarrow> plain)
        else plain)"

text \<open>AWS URI encoding.\<close>

definition uriEncodeByte :: "bool \<Rightarrow> char \<Rightarrow> string" where
  "uriEncodeByte encodeSlash c =
     (if is_alnum c \<or> c = CHR ''-'' \<or> c = CHR ''.'' \<or> c = CHR ''_'' \<or> c = CHR ''~'' then [c]
      else if c = CHR ''/'' \<and> \<not> encodeSlash then [c]
      else percent c)"

definition uriEncode :: "string \<Rightarrow> bool \<Rightarrow> string" where
  "uriEncode s encodeSlash = concat (map (uriEncodeByte encodeSlash) s)"

text \<open>One part of the query: \<open>None\<close> when the part is skipped.\<close>

definition canonicalPair :: "string \<Rightarrow> string \<Rightarrow> sigv4_error + (string \<times> string) option" where
  "canonicalPair skipKey part =
     (if part = [] then Inr None
      else case cut (CHR ''='') part of (k, v, _) \<Rightarrow>
        (case path_unescape k of
           None \<Rightarrow> Inl (ErrMalformed [''query key'', k])
         | Some dk \<Rightarrow>
             (case path_unescape v of
                None \<Rightarrow> Inl (ErrMalformed [''query value'', v])
              | Some dv \<Rightarrow>
                  if skipKey \<noteq> [] \<and> dk = skipKey then Inr None
                  else Inr (Some (uriEncode dk True, uriEncode dv True)))))"

fun canonicalPairs :: "string \<Rightarrow> string list \<Rightarrow> sigv4_error + (string \<times> string) list" where
  "canonicalPairs skipKey [] = Inr []"
| "canonicalPairs skipKey (part # parts) =
     res_bind (canonicalPair skipKey part) (\<lambda>p.
       res_bind (canonicalPairs skipKey parts) (\<lambda>ps.
         Inr (case p of None \<Rightarrow> ps | Some x \<Rightarrow> x # ps)))"

text \<open>\<open>sort.Slice\<close> is not stable, but pairs that compare equal are equal, so the sorted
  list is unique.\<close>

definition canonicalQuery :: "string \<Rightarrow> string \<Rightarrow> sigv4_error + string" where
  "canonicalQuery rawQuery skipKey =
     (if rawQuery = [] then Inr []
      else res_bind (canonicalPairs skipKey (split_on (CHR ''&'') rawQuery)) (\<lambda>pairs.
        Inr (join ''&'' (map (\<lambda>(k, v). k @ ''='' @ v) (sort pairs)))))"

definition headerValue :: "request \<Rightarrow> string \<Rightarrow> string" where
  "headerValue r lowerName =
     (let vals =
        (if lowerName = ''host'' then [if r_host r = [] then u_host (r_url r) else r_host r]
         else if lowerName = ''content-length'' then
           (let vs = header_values (r_header r) ''Content-Length'' in
            if vs = [] \<and> 0 \<le> r_content_length r then [itoa (r_content_length r)] else vs)
         else header_values (r_header r) lowerName)
      in join '','' (map (\<lambda>v. join '' '' (str_fields v)) vals))"

definition newline :: string where "newline = [CHR 0x0A]"

definition canonicalHeaders :: "request \<Rightarrow> string list \<Rightarrow> string" where
  "canonicalHeaders r signedHeaders =
     concat (map (\<lambda>name. name @ '':'' @ headerValue r name @ newline) signedHeaders)"

definition buildCanonical ::
  "request \<Rightarrow> string list \<Rightarrow> string \<Rightarrow> string \<Rightarrow> sigv4_error + string" where
  "buildCanonical r signedHeaders skipQueryKey payloadHash =
     res_bind (canonicalQuery (u_raw_query (r_url r)) skipQueryKey) (\<lambda>query.
       Inr (join newline
         [r_method r, canonicalURI r, query, canonicalHeaders r signedHeaders,
          join '';'' signedHeaders, payloadHash]))"

definition canonicalRequest :: "request \<Rightarrow> string list \<Rightarrow> sigv4_error + string" where
  "canonicalRequest r signedHeaders =
     (let declared = req_get r ''X-Amz-Content-Sha256''
      in buildCanonical r signedHeaders [] (if declared = [] then emptyBodySHA256 else declared))"

section \<open>The signature\<close>

definition deriveKey :: "string \<Rightarrow> string \<Rightarrow> string \<Rightarrow> string \<Rightarrow> bytes" where
  "deriveKey secret date region service =
     hmac_sha256 (hmac_sha256 (hmac_sha256 (hmac_sha256 (''AWS4'' @ secret) date) region) service)
       ''aws4_request''"

definition stringToSign :: "string \<Rightarrow> string \<Rightarrow> string \<Rightarrow> string \<Rightarrow> string \<Rightarrow> string" where
  "stringToSign amzDate date region service canonical =
     join newline
       [Algorithm, amzDate, date @ ''/'' @ region @ ''/'' @ service @ ''/aws4_request'',
        hex_encode (sha256 canonical)]"

definition signatureOf ::
  "string \<Rightarrow> string \<Rightarrow> string \<Rightarrow> string \<Rightarrow> string \<Rightarrow> string \<Rightarrow> string" where
  "signatureOf secret amzDate date region service canonical =
     hex_encode (hmac_sha256 (deriveKey secret date region service)
       (stringToSign amzDate date region service canonical))"

section \<open>Verification of header authentication\<close>

definition verify :: "authorization verify_input \<Rightarrow> sigv4_error + unit" where
  "verify inp =
     (let auth = in_auth inp; r = in_request inp in
      if au_service auth \<noteq> in_service inp then Inl (ErrScope [''service'', au_service auth, in_service inp])
      else if au_region auth \<noteq> in_region inp then Inl (ErrScope [''region'', au_region auth, in_region inp])
      else
        let amzDate = req_get r ''X-Amz-Date'' in
        if amzDate = [] then Inl ErrMissingDate
        else case parse_amz amzDate of
          None \<Rightarrow> Inl (ErrMalformed [''X-Amz-Date'', amzDate])
        | Some t \<Rightarrow>
            let d = time_sub (in_now inp) t in
            if in_clock_skew inp < d \<or> d < - in_clock_skew inp then Inl ErrSkew
            else if take 8 amzDate \<noteq> au_date auth then Inl (ErrScope [''date'', au_date auth, amzDate])
            else
              res_bind (canonicalRequest r (au_signed_headers auth)) (\<lambda>canonical.
                if signatureOf (in_secret inp) amzDate (au_date auth) (au_region auth) (au_service auth) canonical
                   = au_signature auth
                then Inr () else Inl ErrSignatureMismatch))"

section \<open>Query authentication\<close>

definition isPresigned :: "request \<Rightarrow> bool" where
  "isPresigned r \<longleftrightarrow>
     (let q = url_query (r_url r) in values_has q ''X-Amz-Algorithm'' \<or> values_has q ''X-Amz-Signature'')"

definition isSigV2Query :: "request \<Rightarrow> bool" where
  "isSigV2Query r \<longleftrightarrow>
     (let q = url_query (r_url r) in values_has q ''AWSAccessKeyId'' \<and> values_has q ''Signature'')"

definition parsePresigned :: "request \<Rightarrow> sigv4_error + presigned" where
  "parsePresigned r =
     (let q = url_query (r_url r); alg = values_get q ''X-Amz-Algorithm'' in
      if alg \<noteq> Algorithm then Inl (ErrMalformed [''X-Amz-Algorithm'', alg])
      else
        let p0 = authorization.extend empty_authorization
          (presigned.fields (values_get q ''X-Amz-Date'') 0 (values_get q ''X-Amz-Security-Token'')) in
        res_bind (setCredential (values_get q ''X-Amz-Credential'') p0) (\<lambda>p1.
        res_bind (setSignedHeaders (values_get q ''X-Amz-SignedHeaders'') p1) (\<lambda>p2.
        res_bind (setSignature (values_get q ''X-Amz-Signature'') p2) (\<lambda>p3.
          if length (ps_amz_date p3) \<noteq> 16 then Inl (ErrMalformed [''X-Amz-Date'', ps_amz_date p3])
          else
            let expires = values_get q ''X-Amz-Expires'' in
            case atoi expires of
              None \<Rightarrow> Inl (ErrMalformed [''X-Amz-Expires'', expires, ''is not a number''])
            | Some n \<Rightarrow>
                if n \<le> 0 then Inl (ErrMalformed [''X-Amz-Expires must be positive''])
                else if maxPresignExpires < n then Inl (ErrMalformed [''X-Amz-Expires must be at most'', itoa maxPresignExpires])
                else Inr (p3\<lparr>ps_expires := seconds n\<rparr>)))))"

definition verifyPresigned :: "presigned verify_input \<Rightarrow> sigv4_error + unit" where
  "verifyPresigned inp =
     (let auth = in_auth inp; r = in_request inp in
      if au_service auth \<noteq> in_service inp then Inl (ErrScope [''service'', au_service auth, in_service inp])
      else if au_region auth \<noteq> in_region inp then Inl (ErrScope [''region'', au_region auth, in_region inp])
      else case parse_amz (ps_amz_date auth) of
        None \<Rightarrow> Inl (ErrMalformed [''X-Amz-Date'', ps_amz_date auth])
      | Some t \<Rightarrow>
          if take 8 (ps_amz_date auth) \<noteq> au_date auth
          then Inl (ErrScope [''date'', au_date auth, ps_amz_date auth])
          else if in_clock_skew inp < time_sub t (in_now inp) then Inl ErrSkew
          else if time_add t (ps_expires auth) < in_now inp then Inl ErrPresignExpired
          else
            res_bind (buildCanonical r (au_signed_headers auth) ''X-Amz-Signature'' unsignedPayload) (\<lambda>canonical.
              if signatureOf (in_secret inp) (ps_amz_date auth) (au_date auth) (au_region auth) (au_service auth) canonical
                 = au_signature auth
              then Inr () else Inl ErrSignatureMismatch))"

section \<open>Signing\<close>

record sign_input =
  si_access_key_id :: string
  si_secret :: string
  si_region :: string
  si_service :: string
  si_host :: string
  si_now :: time

definition signedHeaderNames :: "request \<Rightarrow> string list" where
  "signedHeaderNames r =
     sort (''host'' # filter (has_prefix ''x-amz-'') (map (\<lambda>(k, _). to_lower k) (r_header r)))"

text \<open>The rendering of an Authorization header, the inverse of \<open>parseAuthorization\<close>.\<close>

definition authHeader ::
  "string \<Rightarrow> string \<Rightarrow> string \<Rightarrow> string \<Rightarrow> string \<Rightarrow> string \<Rightarrow> string" where
  "authHeader akid date region service names sig =
     Algorithm @ '' Credential='' @ akid @ ''/'' @ date @ ''/'' @ region @ ''/'' @ service @
     ''/aws4_request, SignedHeaders='' @ names @ '', Signature='' @ sig"

text \<open>\<open>Sign\<close> changes the request in place, also when it then fails: the result is the
  request and the error, if any. The request is an argument of its own here.\<close>

definition sign :: "sign_input \<Rightarrow> request \<Rightarrow> request \<times> sigv4_error option" where
  "sign si r =
     (let r0 = (if si_host si \<noteq> [] then r\<lparr>r_host := si_host si\<rparr> else r);
          amzDate = format_amz (si_now si);
          r1 = req_set r0 ''X-Amz-Date'' amzDate;
          declared = req_get r1 ''X-Amz-Content-Sha256'';
          payloadHash = (if declared = [] then unsignedPayload else declared);
          r2 = (if declared = [] then req_set r1 ''X-Amz-Content-Sha256'' payloadHash else r1);
          signedHeaders = signedHeaderNames r2
      in case buildCanonical r2 signedHeaders [] payloadHash of
           Inl e \<Rightarrow> (r2, Some e)
         | Inr canonical \<Rightarrow>
             let date = take 8 amzDate;
                 sig = signatureOf (si_secret si) amzDate date (si_region si) (si_service si) canonical
             in (req_set r2 ''Authorization''
                   (authHeader (si_access_key_id si) date (si_region si) (si_service si)
                      (join '';'' signedHeaders) sig), None))"

end
