(* ===== verification/Sigv4_Facts.thy ===== *)
theory Sigv4_Facts
  imports Sigv4 "HOL-Library.Multiset"
begin

text \<open>
  Facts about \<^theory_text>\<open>Sigv4\<close>: what the parsers accept, that parsing inverts rendering, that
  the canonical query is a canonical form, and that a request signed by \<open>sign\<close> verifies.
\<close>

section \<open>The Authorization header\<close>

text \<open>Text that can stand between the slashes of a credential scope, and a header name that
  can stand between the semicolons of \<open>SignedHeaders\<close>.\<close>

definition scope_text :: "string \<Rightarrow> bool" where
  "scope_text s \<longleftrightarrow> list_all (\<lambda>c. graphic c \<and> c \<noteq> CHR '','' \<and> c \<noteq> CHR ''/'') s"

definition signable_name :: "string \<Rightarrow> bool" where
  "signable_name n \<longleftrightarrow> n \<noteq> [] \<and>
     list_all (\<lambda>c. graphic c \<and> c \<noteq> CHR '','' \<and> c \<noteq> CHR '';'' \<and> \<not> is_upper c) n"

definition plain_text :: "string \<Rightarrow> bool" where
  "plain_text s \<longleftrightarrow> list_all (\<lambda>c. graphic c \<and> c \<noteq> CHR '','') s"

lemma plain_text_append [simp]: "plain_text (s @ t) \<longleftrightarrow> plain_text s \<and> plain_text t"
  by (simp add: plain_text_def)

lemma plain_text_Cons [simp]:
  "plain_text [] " "plain_text (c # s) \<longleftrightarrow> graphic c \<and> c \<noteq> CHR '','' \<and> plain_text s"
  by (simp_all add: plain_text_def)

lemma scope_text_no_slash: "scope_text s \<Longrightarrow> CHR ''/'' \<notin> set s"
  by (auto simp: scope_text_def list_all_iff)

lemma scope_text_plain: "scope_text s \<Longrightarrow> plain_text s"
  by (simp add: scope_text_def plain_text_def list_all_iff)

lemma plain_text_join:
  "\<forall>n \<in> set names. signable_name n \<Longrightarrow> plain_text (join '';'' names)"
proof -
  assume a: "\<forall>n \<in> set names. signable_name n"
  have "graphic c \<and> c \<noteq> CHR '',''" if c: "c \<in> set (join '';'' names)" for c
  proof -
    consider "c = CHR '';''" | n where "n \<in> set names" "c \<in> set n"
      using c set_join [of "'';''" names] by fastforce
    then show ?thesis using a by cases (auto simp: graphic_def signable_name_def list_all_iff)
  qed
  then show ?thesis by (simp add: plain_text_def list_all_iff)
qed

lemma plain_text_comma_free: "plain_text s \<Longrightarrow> CHR '','' \<notin> set s"
  by (auto simp: plain_text_def list_all_iff)

lemma trim_plain: "plain_text s \<Longrightarrow> s \<noteq> [] \<Longrightarrow> trim_space (CHR '' '' # s) = s"
  by (rule trim_space_space) (auto simp: plain_text_def list_all_iff)

lemma parseComponent_plain:
  assumes "plain_text s" "s = key @ CHR ''='' # val" "CHR ''='' \<notin> set key"
  shows "parseComponent (CHR '' '' # s) a =
    (if key = ''Credential'' then setCredential val a
     else if key = ''SignedHeaders'' then setSignedHeaders val a
     else if key = ''Signature'' then setSignature val a
     else Inl (ErrMalformed [''unknown component'', key]))"
proof -
  have "trim_space (CHR '' '' # s) = s" using assms by (intro trim_plain) auto
  moreover have "s \<noteq> []" using assms by simp
  moreover have "cut (CHR ''='') s = (key, val, True)" using assms cut_append by simp
  ultimately show ?thesis by (simp add: parseComponent_def)
qed

lemma setCredential_split:
  "split_on (CHR ''/'') v = [akid, date, region, service, ''aws4_request''] \<Longrightarrow> akid \<noteq> [] \<Longrightarrow>
   length date = 8 \<Longrightarrow>
   setCredential v a =
     Inr (a\<lparr>au_access_key_id := akid, au_date := date, au_region := region, au_service := service\<rparr>)"
  by (simp add: setCredential_def)

lemma setCredential_scope:
  assumes "scope_text akid" "akid \<noteq> []" "scope_text date" "length date = 8" "scope_text region"
    "scope_text service"
  shows "setCredential (akid @ ''/'' @ date @ ''/'' @ region @ ''/'' @ service @ ''/aws4_request'') a =
    Inr (a\<lparr>au_access_key_id := akid, au_date := date, au_region := region, au_service := service\<rparr>)"
proof (rule setCredential_split)
  have "CHR ''/'' \<notin> set akid" "CHR ''/'' \<notin> set date" "CHR ''/'' \<notin> set region" "CHR ''/'' \<notin> set service"
    using assms by (simp_all add: scope_text_no_slash)
  then show "split_on (CHR ''/'') (akid @ ''/'' @ date @ ''/'' @ region @ ''/'' @ service @ ''/aws4_request'') =
      [akid, date, region, service, ''aws4_request'']"
    by (simp add: split_on_append)
qed (use assms in \<open>simp_all\<close>)

lemma addSignedHeader_name:
  "signable_name n \<Longrightarrow> addSignedHeader n a = Inr (a\<lparr>au_signed_headers := au_signed_headers a @ [n]\<rparr>)"
  by (simp add: addSignedHeader_def signable_name_def list_all_iff trim_space_graphic to_lower_id)

lemma addSignedHeader_names:
  "\<forall>n \<in> set names. signable_name n \<Longrightarrow>
   res_fold addSignedHeader names a = Inr (a\<lparr>au_signed_headers := au_signed_headers a @ names\<rparr>)"
  by (induction names arbitrary: a) (simp_all add: addSignedHeader_name)

lemma setSignedHeaders_join:
  assumes "names \<noteq> []" "\<forall>n \<in> set names. signable_name n"
  shows "setSignedHeaders (join '';'' names) a =
    Inr (a\<lparr>au_signed_headers := au_signed_headers a @ names\<rparr>)"
proof -
  have "split_on (CHR '';'') (join [CHR '';''] names) = names"
    using assms by (intro split_on_join) (auto simp: signable_name_def list_all_iff)
  then show ?thesis using assms by (simp add: setSignedHeaders_def addSignedHeader_names)
qed

text \<open>A signature as \<open>hex.EncodeToString\<close> renders a digest.\<close>

definition hex_signature :: "string \<Rightarrow> bool" where
  "hex_signature s \<longleftrightarrow> (\<exists>d. length d = 32 \<and> s = hex_encode d)"

lemma hex_signature_plain: "hex_signature s \<Longrightarrow> plain_text s \<and> s \<noteq> []"
proof -
  assume "hex_signature s"
  then obtain d where d: "length d = 32" "s = hex_encode d" by (auto simp: hex_signature_def)
  have "graphic c \<and> c \<noteq> CHR '',''" if "c \<in> set s" for c
    using hex_encode_chars [of c d] that d by (auto simp: char_class_defs)
  moreover have "length s = 64" using d by simp
  ultimately show ?thesis by (auto simp: plain_text_def list_all_iff)
qed

lemma setSignature_hex: "hex_signature s \<Longrightarrow> setSignature s a = Inr (a\<lparr>au_signature := s\<rparr>)"
proof -
  assume "hex_signature s"
  then obtain d where d: "length d = 32" "s = hex_encode d" by (auto simp: hex_signature_def)
  have "trim_space s = s" "to_lower s = s"
    using hex_encode_chars d by (auto intro!: trim_space_graphic to_lower_id)
  then show ?thesis using d by (simp add: setSignature_def hex_decode_encode)
qed

theorem parse_authHeader:
  assumes "scope_text akid" "akid \<noteq> []" "scope_text date" "length date = 8" "scope_text region"
    "scope_text service" "names \<noteq> []" "\<forall>n \<in> set names. signable_name n" "hex_signature sig"
  shows "parseAuthorization (authHeader akid date region service (join '';'' names) sig) =
    Inr \<lparr>au_access_key_id = akid, au_date = date, au_region = region, au_service = service,
      au_signed_headers = names, au_signature = sig\<rparr>"
proof -
  let ?scope = "akid @ ''/'' @ date @ ''/'' @ region @ ''/'' @ service @ ''/aws4_request''"
  let ?c = "''Credential'' @ CHR ''='' # ?scope"
  let ?h = "''SignedHeaders'' @ CHR ''='' # join '';'' names"
  let ?s = "''Signature'' @ CHR ''='' # sig"
  have plain: "plain_text ?c" "plain_text ?h" "plain_text ?s"
    using assms scope_text_plain plain_text_join [of names] hex_signature_plain [of sig]
    by (simp_all add: graphic_def)
  let ?parts = "[CHR '' '' # ?c, CHR '' '' # ?h, CHR '' '' # ?s]"
  have "split_on (CHR '','') (join [CHR '',''] ?parts) = ?parts"
    using plain [THEN plain_text_comma_free] by (intro split_on_join) auto
  moreover have "authHeader akid date region service (join '';'' names) sig =
      Algorithm @ join [CHR '',''] ?parts"
    by (simp add: authHeader_def)
  ultimately show ?thesis
    using assms hex_signature_plain [of sig]
    by (simp add: parseAuthorization_def parseComponent_plain [OF plain(1) refl]
        parseComponent_plain [OF plain(2) refl] parseComponent_plain [OF plain(3) refl]
        setCredential_scope setSignedHeaders_join setSignature_hex empty_authorization_def
        del: append_Cons)
qed


section \<open>Signing and verifying\<close>

lemma canonical_key_names [simp]:
  "canonical_key ''X-Amz-Date'' = ''X-Amz-Date''"
  "canonical_key ''X-Amz-Content-Sha256'' = ''X-Amz-Content-Sha256''"
  "canonical_key ''X-Amz-Security-Token'' = ''X-Amz-Security-Token''"
  "canonical_key ''Authorization'' = ''Authorization''"
  "canonical_key ''Connection'' = ''Connection''"
  "canonical_key ''Content-Type'' = ''Content-Type''"
  by code_simp+

lemma canonical_key_amz: "has_prefix ''x-amz-'' n \<Longrightarrow> canonical_key n \<noteq> ''Authorization''"
proof -
  assume "has_prefix ''x-amz-'' n"
  then obtain m where n: "n = CHR ''x'' # m" by (cases n) (auto simp: has_prefix_def)
  have "upper_char (CHR ''x'') = CHR ''X''" by code_simp
  then show ?thesis using n by (auto simp: canonical_key_def)
qed

text \<open>The signed header set of the signer: \<open>host\<close> and names that start with \<open>x-amz-\<close>.\<close>

lemma set_signedHeaderNames:
  "set (signedHeaderNames r) =
     insert ''host'' {n \<in> to_lower ` fst ` set (r_header r). has_prefix ''x-amz-'' n}"
  by (simp only: signedHeaderNames_def set_sort) force

lemma signedHeaderNames_cases:
  "n \<in> set (signedHeaderNames r) \<Longrightarrow> n = ''host'' \<or> has_prefix ''x-amz-'' n"
  by (auto simp: set_signedHeaderNames)

lemma signedHeaderNames_not_Nil [simp]: "signedHeaderNames r \<noteq> []"
  using set_signedHeaderNames [of r] by auto

lemma signable_lower_token:
  assumes "list_all token_char k" "k \<noteq> []"
  shows "signable_name (to_lower k)"
proof -
  have "graphic c \<and> c \<noteq> CHR '','' \<and> c \<noteq> CHR '';'' \<and> \<not> is_upper c" if c: "c \<in> set (to_lower k)" for c
  proof -
    have "token_char c" using assms c list_all_token_lower [of k] by (auto simp: list_all_iff)
    moreover have "\<not> is_upper c" using c by (auto simp: to_lower_def)
    ultimately show ?thesis using token_char_graphic [of c] by auto
  qed
  then show ?thesis using assms by (simp add: signable_name_def list_all_iff)
qed

lemma signedHeaderNames_signable:
  assumes "wf_header (r_header r)" "n \<in> set (signedHeaderNames r)"
  shows "signable_name n"
proof (cases "n = ''host''")
  case True
  then show ?thesis by (simp add: signable_name_def graphic_def is_upper_def)
next
  case False
  then obtain k where "k \<in> fst ` set (r_header r)" "n = to_lower k"
    using assms(2) by (auto simp: set_signedHeaderNames)
  then show ?thesis using assms(1) by (auto simp: wf_header_def wf_key_def intro!: signable_lower_token)
qed

text \<open>Setting the Authorization header changes nothing that the signer signs.\<close>

lemma headerValue_authorization:
  "n = ''host'' \<or> has_prefix ''x-amz-'' n \<Longrightarrow>
   headerValue (req_set r ''Authorization'' v) n = headerValue r n"
  using canonical_key_amz [of n]
  by (auto simp: headerValue_def header_values_set has_prefix_def)

lemma buildCanonical_authorization:
  assumes "\<forall>n \<in> set names. n = ''host'' \<or> has_prefix ''x-amz-'' n"
  shows "buildCanonical (req_set r ''Authorization'' v) names skip ph = buildCanonical r names skip ph"
proof -
  have "canonicalHeaders (req_set r ''Authorization'' v) names = canonicalHeaders r names"
    unfolding canonicalHeaders_def using assms headerValue_authorization
    by (intro arg_cong [where f = concat] map_cong) auto
  moreover have "canonicalURI (req_set r ''Authorization'' v) = canonicalURI r"
    by (simp add: canonicalURI_def Let_def)
  ultimately show ?thesis by (simp add: buildCanonical_def)
qed

text \<open>The request that \<open>sign\<close> has prepared when it computes the signature.\<close>

definition sign_prepared :: "sign_input \<Rightarrow> request \<Rightarrow> request" where
  "sign_prepared si r =
     (let r0 = (if si_host si \<noteq> [] then r\<lparr>r_host := si_host si\<rparr> else r);
          r1 = req_set r0 ''X-Amz-Date'' (format_amz (si_now si))
      in if req_get r1 ''X-Amz-Content-Sha256'' = []
         then req_set r1 ''X-Amz-Content-Sha256'' unsignedPayload else r1)"

lemma unsignedPayload_not_Nil [simp]: "unsignedPayload \<noteq> []"
  by (simp add: unsignedPayload_def)

lemma sign_prepared_headers:
  "req_get (sign_prepared si r) ''X-Amz-Date'' = format_amz (si_now si)"
  "req_get (sign_prepared si r) ''X-Amz-Content-Sha256'' \<noteq> []"
  by (simp_all add: sign_prepared_def Let_def hdr_simps)

lemma sign_unfold:
  "sign si r =
    (let r2 = sign_prepared si r; names = signedHeaderNames r2 in
     case buildCanonical r2 names [] (req_get r2 ''X-Amz-Content-Sha256'') of
       Inl e \<Rightarrow> (r2, Some e)
     | Inr canonical \<Rightarrow>
         let date = take 8 (format_amz (si_now si)) in
         (req_set r2 ''Authorization''
            (authHeader (si_access_key_id si) date (si_region si) (si_service si) (join '';'' names)
               (signatureOf (si_secret si) (format_amz (si_now si)) date (si_region si) (si_service si) canonical)),
          None))"
  unfolding sign_def sign_prepared_def Let_def by (simp add: hdr_simps)

lemma hex_signature_signatureOf: "hex_signature (signatureOf s a d r v c)"
  unfolding hex_signature_def signatureOf_def by (metis length_hmac_sha256)

lemma digits_scope_text: "list_all is_digit s \<Longrightarrow> scope_text s"
  by (auto simp: list_all_iff scope_text_def is_digit_def graphic_def)

lemma format_date_digits: "four_digit_year t \<Longrightarrow> list_all is_digit (format_date t)"
proof -
  assume f: "four_digit_year t"
  obtain y m d where ymd: "date_of t = (y, m, d)" by (cases "date_of t")
  note dc = date_of_days_correct [OF ymd [unfolded date_of_def]]
  show ?thesis using f ymd dc by (simp add: format_date_def four_digit_year_def pad_num_digits)
qed

lemma wf_sign_prepared: "wf_header (r_header r) \<Longrightarrow> wf_header (r_header (sign_prepared si r))"
proof -
  have "list_all token_char ''X-Amz-Date''" "list_all token_char ''X-Amz-Content-Sha256''"
    by code_simp+
  then show "wf_header (r_header r) \<Longrightarrow> ?thesis"
    by (simp add: sign_prepared_def Let_def wf_header_set)
qed

text \<open>What the signer writes into the Authorization header is what the parser reads.\<close>

lemma sign_header_parses:
  assumes "sign si r = (r', None)" "wf_header (r_header r)" "four_digit_year (si_now si)"
    "scope_text (si_access_key_id si)" "si_access_key_id si \<noteq> []" "scope_text (si_region si)"
    "scope_text (si_service si)"
  obtains canonical where
    "buildCanonical (sign_prepared si r) (signedHeaderNames (sign_prepared si r)) []
       (req_get (sign_prepared si r) ''X-Amz-Content-Sha256'') = Inr canonical"
    "parseAuthorization (req_get r' ''Authorization'') =
       Inr \<lparr>au_access_key_id = si_access_key_id si, au_date = format_date (si_now si),
         au_region = si_region si, au_service = si_service si,
         au_signed_headers = signedHeaderNames (sign_prepared si r),
         au_signature = signatureOf (si_secret si) (format_amz (si_now si)) (format_date (si_now si))
           (si_region si) (si_service si) canonical\<rparr>"
    "r' = req_set (sign_prepared si r) ''Authorization'' (req_get r' ''Authorization'')"
proof -
  let ?p = "sign_prepared si r" and ?names = "signedHeaderNames (sign_prepared si r)"
  obtain canonical where c: "buildCanonical ?p ?names [] (req_get ?p ''X-Amz-Content-Sha256'') = Inr canonical"
    using assms(1) by (auto simp: sign_unfold Let_def split: sum.splits)
  let ?h = "authHeader (si_access_key_id si) (format_date (si_now si)) (si_region si) (si_service si)
    (join '';'' ?names) (signatureOf (si_secret si) (format_amz (si_now si)) (format_date (si_now si))
      (si_region si) (si_service si) canonical)"
  have r': "r' = req_set ?p ''Authorization'' ?h"
    using assms(1,3) c by (simp add: sign_unfold Let_def take_format_amz)
  then have h: "req_get r' ''Authorization'' = ?h" by (simp add: hdr_simps)
  have "parseAuthorization ?h =
       Inr \<lparr>au_access_key_id = si_access_key_id si, au_date = format_date (si_now si),
         au_region = si_region si, au_service = si_service si, au_signed_headers = ?names,
         au_signature = signatureOf (si_secret si) (format_amz (si_now si)) (format_date (si_now si))
           (si_region si) (si_service si) canonical\<rparr>"
    using assms wf_sign_prepared [of r si] signedHeaderNames_signable [of ?p]
    by (intro parse_authHeader)
      (simp_all add: digits_scope_text format_date_digits length_format_date hex_signature_signatureOf)
  with that [OF c] h r' show thesis by simp
qed


lemma verify_iff:
  "verify inp = Inr () \<longleftrightarrow>
     au_service (in_auth inp) = in_service inp \<and> au_region (in_auth inp) = in_region inp \<and>
     (\<exists>t canonical.
        req_get (in_request inp) ''X-Amz-Date'' \<noteq> [] \<and>
        parse_amz (req_get (in_request inp) ''X-Amz-Date'') = Some t \<and>
        - in_clock_skew inp \<le> time_sub (in_now inp) t \<and> time_sub (in_now inp) t \<le> in_clock_skew inp \<and>
        take 8 (req_get (in_request inp) ''X-Amz-Date'') = au_date (in_auth inp) \<and>
        canonicalRequest (in_request inp) (au_signed_headers (in_auth inp)) = Inr canonical \<and>
        signatureOf (in_secret inp) (req_get (in_request inp) ''X-Amz-Date'') (au_date (in_auth inp))
          (au_region (in_auth inp)) (au_service (in_auth inp)) canonical = au_signature (in_auth inp))"
  unfolding verify_def Let_def
  by (auto simp: res_iff not_less split: option.splits if_splits)

lemma verifyPresigned_iff:
  "verifyPresigned inp = Inr () \<longleftrightarrow>
     au_service (in_auth inp) = in_service inp \<and> au_region (in_auth inp) = in_region inp \<and>
     (\<exists>t canonical.
        parse_amz (ps_amz_date (in_auth inp)) = Some t \<and>
        take 8 (ps_amz_date (in_auth inp)) = au_date (in_auth inp) \<and>
        time_sub t (in_now inp) \<le> in_clock_skew inp \<and>
        in_now inp \<le> time_add t (ps_expires (in_auth inp)) \<and>
        buildCanonical (in_request inp) (au_signed_headers (in_auth inp)) ''X-Amz-Signature''
          unsignedPayload = Inr canonical \<and>
        signatureOf (in_secret inp) (ps_amz_date (in_auth inp)) (au_date (in_auth inp))
          (au_region (in_auth inp)) (au_service (in_auth inp)) canonical = au_signature (in_auth inp))"
  unfolding verifyPresigned_def Let_def
  by (auto simp: res_iff not_less split: option.splits if_splits)

lemma buildCanonical_Inr_iff:
  "(\<exists>c. buildCanonical r names skip ph = Inr c) \<longleftrightarrow>
   (\<exists>q. canonicalQuery (u_raw_query (r_url r)) skip = Inr q)"
  by (auto simp: buildCanonical_def res_iff)

text \<open>Signing fails only on a query that does not decode.\<close>

lemma sign_prepared_url [simp]: "r_url (sign_prepared si r) = r_url r"
  by (simp add: sign_prepared_def Let_def)

lemma sign_succeeds_iff:
  "snd (sign si r) = None \<longleftrightarrow> (\<exists>q. canonicalQuery (u_raw_query (r_url r)) [] = Inr q)"
proof -
  let ?b = "buildCanonical (sign_prepared si r) (signedHeaderNames (sign_prepared si r)) []
    (req_get (sign_prepared si r) ''X-Amz-Content-Sha256'')"
  have "snd (sign si r) = None \<longleftrightarrow> (\<exists>c. ?b = Inr c)"
    by (cases ?b) (simp_all add: sign_unfold Let_def)
  then show ?thesis by (simp add: buildCanonical_Inr_iff)
qed

text \<open>A request signed by \<open>sign\<close> verifies under the same secret, region and service while the
  clock is within the skew of the signing time, which the header carries to the second.\<close>

lemma sign_verifies:
  assumes "sign si r = (r', None)" "wf_header (r_header r)" "four_digit_year (si_now si)"
    "scope_text (si_access_key_id si)" "si_access_key_id si \<noteq> []" "scope_text (si_region si)"
    "scope_text (si_service si)" "parseAuthorization (req_get r' ''Authorization'') = Inr auth"
    and window: "- skew \<le> time_sub now (si_now si - si_now si mod second)"
      "time_sub now (si_now si - si_now si mod second) \<le> skew"
  shows "au_access_key_id auth = si_access_key_id si \<and>
    verify \<lparr>in_request = r', in_auth = auth, in_secret = si_secret si, in_region = si_region si,
      in_service = si_service si, in_now = now, in_clock_skew = skew\<rparr> = Inr ()"
proof -
  obtain c where c: "buildCanonical (sign_prepared si r) (signedHeaderNames (sign_prepared si r)) []
       (req_get (sign_prepared si r) ''X-Amz-Content-Sha256'') = Inr c"
    and auth: "auth = \<lparr>au_access_key_id = si_access_key_id si, au_date = format_date (si_now si),
         au_region = si_region si, au_service = si_service si,
         au_signed_headers = signedHeaderNames (sign_prepared si r),
         au_signature = signatureOf (si_secret si) (format_amz (si_now si)) (format_date (si_now si))
           (si_region si) (si_service si) c\<rparr>"
    and r': "r' = req_set (sign_prepared si r) ''Authorization'' (req_get r' ''Authorization'')"
    using assms(8) by (auto intro: sign_header_parses [OF assms(1-7)])
  let ?v = "req_get r' ''Authorization''"
  have keep: "req_get r' ''X-Amz-Date'' = format_amz (si_now si)"
    "req_get r' ''X-Amz-Content-Sha256'' = req_get (sign_prepared si r) ''X-Amz-Content-Sha256''"
    by (subst r', simp add: req_get_set sign_prepared_headers)+
  have "canonicalRequest r' (signedHeaderNames (sign_prepared si r)) = Inr c"
    unfolding canonicalRequest_def keep using sign_prepared_headers(2) [of si r] c signedHeaderNames_cases
    by (subst r') (auto simp: Let_def buildCanonical_authorization)
  moreover have "format_amz (si_now si) \<noteq> []"
    using parse_amz_length [OF parse_format_amz [OF assms(3)]] by auto
  ultimately show ?thesis
    using assms(3) window by (simp add: auth verify_iff keep parse_format_amz take_format_amz)
qed

section \<open>The canonical query\<close>

text \<open>The canonical query string is compared through a reference: the multiset of decoded
  key-value pairs of the query, without the skipped key.\<close>

definition decoded_pair :: "string \<Rightarrow> (string \<times> string) option" where
  "decoded_pair part = (case cut (CHR ''='') part of (k, v, _) \<Rightarrow>
     (case (path_unescape k, path_unescape v) of (Some k', Some v') \<Rightarrow> Some (k', v') | _ \<Rightarrow> None))"

definition decoded_query :: "string \<Rightarrow> string \<Rightarrow> (string \<times> string) list" where
  "decoded_query q skip =
     filter (\<lambda>(k, _). skip = [] \<or> k \<noteq> skip) (List.map_filter decoded_pair (query_parts q))"

definition encode_pair :: "string \<times> string \<Rightarrow> string \<times> string" where
  "encode_pair = (\<lambda>(k, v). (uriEncode k True, uriEncode v True))"

definition render_pair :: "string \<times> string \<Rightarrow> string" where
  "render_pair = (\<lambda>(k, v). k @ ''='' @ v)"

lemma canonicalPair_decoded:
  "canonicalPair skip part = Inr x \<Longrightarrow>
   x = (if part = [] then None else case decoded_pair part of
          None \<Rightarrow> None | Some p \<Rightarrow> if skip = [] \<or> fst p \<noteq> skip then Some (encode_pair p) else None)"
  by (auto simp: canonicalPair_def decoded_pair_def encode_pair_def split: if_splits option.splits prod.splits)

lemma canonicalPair_ok_iff:
  "(\<exists>x. canonicalPair skip part = Inr x) \<longleftrightarrow> part = [] \<or> decoded_pair part \<noteq> None"
  by (auto simp: canonicalPair_def decoded_pair_def split: if_splits option.splits prod.splits)

lemma map_filter_Cons:
  "List.map_filter f (x # xs) = (case f x of None \<Rightarrow> List.map_filter f xs | Some y \<Rightarrow> y # List.map_filter f xs)"
  by (simp add: List.map_filter_def split: option.split)

lemma map_filter_Nil: "List.map_filter f [] = []"
  by (simp add: List.map_filter_def)

lemma canonicalPairs_decoded:
  "canonicalPairs skip parts = Inr ps \<longleftrightarrow>
   (\<forall>p \<in> set parts. p = [] \<or> decoded_pair p \<noteq> None) \<and>
   ps = map encode_pair (filter (\<lambda>(k, _). skip = [] \<or> k \<noteq> skip)
     (List.map_filter decoded_pair (filter (\<lambda>p. p \<noteq> []) parts)))"
proof (induction parts arbitrary: ps)
  case (Cons part parts)
  show ?case
  proof (cases "\<exists>x. canonicalPair skip part = Inr x")
    case True
    then obtain x where x: "canonicalPair skip part = Inr x" by blast
    then show ?thesis
      using Cons canonicalPair_decoded [OF x] canonicalPair_ok_iff [of skip part]
      by (cases "part = []"; cases "decoded_pair part")
        (auto simp: res_iff map_filter_Cons split: option.splits)
  next
    case False
    then show ?thesis using canonicalPair_ok_iff [of skip part] by (auto simp: res_iff)
  qed
qed (auto simp: map_filter_Nil)

lemma canonicalQuery_decoded:
  "canonicalQuery q skip = Inr c \<longleftrightarrow>
   (\<forall>p \<in> set (query_parts q). decoded_pair p \<noteq> None) \<and>
   c = join ''&'' (map render_pair (sort (map encode_pair (decoded_query q skip))))"
proof (cases "q = []")
  case True
  then show ?thesis
    by (auto simp: canonicalQuery_def query_parts_def decoded_query_def map_filter_Nil)
next
  case False
  then show ?thesis
    by (auto simp: canonicalQuery_def res_iff canonicalPairs_decoded decoded_query_def query_parts_def
        render_pair_def)
qed

subsection \<open>AWS URI encoding is invertible\<close>

lemma url_unescape_percent:
  "url_unescape sp (percent c @ s) = map_option (\<lambda>r. c # r) (url_unescape sp s)"
proof -
  have "char_of (16 * (ord c div 16) + ord c mod 16) = c" by (rule byte_nibbles)
  then show ?thesis by (simp add: percent_def unhex_hex_upper nibble_bounds)
qed

lemma uriEncode_Cons: "uriEncode (c # s) b = uriEncodeByte b c @ uriEncode s b"
  by (simp add: uriEncode_def)

lemma url_unescape_uriEncode: "url_unescape sp (uriEncode s b) = Some s"
proof (induction s)
  case (Cons c s)
  have "url_unescape sp (uriEncodeByte b c @ t) = map_option (\<lambda>r. c # r) (url_unescape sp t)" for t
    by (auto simp: uriEncodeByte_def url_unescape_percent is_alnum_def is_upper_def is_lower_def is_digit_def)
  with Cons show ?case by (simp add: uriEncode_Cons)
qed (simp add: uriEncode_def)

lemma hex_upper_alnum: "n < 16 \<Longrightarrow> is_alnum (hex_upper n)"
  by (auto simp: is_alnum_def is_upper_def is_digit_def ord_hex_upper)

lemma uriEncode_chars:
  assumes "c \<in> set (uriEncode s True)"
  shows "is_alnum c \<or> c \<in> set ''-._~%''"
proof -
  obtain d where "c \<in> set (uriEncodeByte True d)" using assms by (auto simp: uriEncode_def)
  then show ?thesis
    using hex_upper_alnum nibble_bounds [of d]
    by (auto simp: uriEncodeByte_def percent_def split: if_splits)
qed

lemma uriEncode_separators: "CHR ''&'' \<notin> set (uriEncode s True)" "CHR ''='' \<notin> set (uriEncode s True)"
  using uriEncode_chars [of _ s] by (fastforce simp: char_class_defs)+

lemma uriEncode_inj: "uriEncode s b = uriEncode t b \<longleftrightarrow> s = t"
  by (metis option.inject url_unescape_uriEncode)

subsection \<open>The canonical form\<close>

lemma inj_encode_pair: "inj encode_pair"
  by (auto simp: inj_on_def encode_pair_def uriEncode_inj)

lemma render_encode_free: "CHR ''&'' \<notin> set (render_pair (encode_pair p))"
  using uriEncode_separators by (auto simp: render_pair_def encode_pair_def split: prod.splits)

lemma cut_render_encode:
  "cut (CHR ''='') (render_pair (encode_pair p)) = (fst (encode_pair p), snd (encode_pair p), True)"
  using uriEncode_separators cut_append [of "CHR ''=''"]
  by (auto simp: render_pair_def encode_pair_def split: prod.splits)

lemma decoded_render_encode: "decoded_pair (render_pair (encode_pair p)) = Some p"
  unfolding decoded_pair_def cut_render_encode
  by (simp add: encode_pair_def url_unescape_uriEncode split: prod.splits)

lemma render_pair_not_Nil [simp]: "render_pair p \<noteq> []"
  by (simp add: render_pair_def split: prod.splits)

lemma render_encode_inj: "map (render_pair \<circ> encode_pair) ps = map (render_pair \<circ> encode_pair) qs \<Longrightarrow> ps = qs"
proof (rule map_injective)
  show "inj (render_pair \<circ> encode_pair)"
    using decoded_render_encode by (metis comp_apply injI option.inject)
qed simp

text \<open>Sorting the encoded pairs is sorting the decoded ones by their encoding.\<close>

lemma sort_encode: "sort (map encode_pair ps) = map encode_pair (sort_key encode_pair ps)"
  by (rule properties_for_sort) (simp_all)

lemma query_parts_join:
  assumes "\<forall>p \<in> set ps. CHR ''&'' \<notin> set p \<and> p \<noteq> []"
  shows "query_parts (join ''&'' ps) = ps"
proof (cases "ps = []")
  case False
  then have "split_on (CHR ''&'') (join [CHR ''&''] ps) = ps"
    using assms by (intro split_on_join) auto
  then show ?thesis using assms by (auto simp: query_parts_def filter_id_conv)
qed (simp add: query_parts_def)

lemma map_filter_map_Some:
  "\<forall>x \<in> set xs. f (g x) = Some x \<Longrightarrow> List.map_filter f (map g xs) = xs"
  by (induction xs) (simp_all add: map_filter_Cons map_filter_Nil)

lemma decoded_query_render:
  assumes "\<forall>p \<in> set ps. skip = [] \<or> fst p \<noteq> skip"
  shows "decoded_query (join ''&'' (map (render_pair \<circ> encode_pair) ps)) skip = ps"
  using assms render_encode_free decoded_render_encode
  by (simp add: decoded_query_def query_parts_join map_filter_map_Some split_def)

lemma query_parts_render:
  "query_parts (join ''&'' (map (render_pair \<circ> encode_pair) ps)) = map (render_pair \<circ> encode_pair) ps"
  using render_encode_free by (simp add: query_parts_join)

lemma canonicalQuery_sorted:
  "canonicalQuery q skip = Inr c \<Longrightarrow>
   c = join ''&'' (map (render_pair \<circ> encode_pair) (sort_key encode_pair (decoded_query q skip)))"
  by (simp add: canonicalQuery_decoded sort_encode)

lemma decoded_query_skip: "p \<in> set (decoded_query q skip) \<Longrightarrow> skip = [] \<or> fst p \<noteq> skip"
  by (auto simp: decoded_query_def)

section \<open>The canonical request is unambiguous\<close>

lemma join_char_free: "c \<notin> set sep \<Longrightarrow> \<forall>x \<in> set xs. c \<notin> set x \<Longrightarrow> c \<notin> set (join sep xs)"
  using set_join [of sep xs] by auto

lemma headerValue_no_newline: "CHR 0x0A \<notin> set (headerValue r n)"
proof -
  have "CHR 0x0A \<notin> set (join '' '' (str_fields v))" for v
    using str_fields_no_newline [of _ v] by (intro join_char_free) auto
  then show ?thesis unfolding headerValue_def Let_def by (intro join_char_free ballI) auto
qed

lemma not_graphic_newline: "\<not> graphic (CHR 0x0A)"
  by (simp add: graphic_def)

lemma signable_name_free: "signable_name n \<Longrightarrow> CHR 0x0A \<notin> set n"
  using not_graphic_newline by (auto simp: signable_name_def list_all_iff)

lemma canonicalQuery_no_newline: "canonicalQuery q skip = Inr c \<Longrightarrow> CHR 0x0A \<notin> set c"
proof -
  assume "canonicalQuery q skip = Inr c"
  note c = canonicalQuery_sorted [OF this]
  have "CHR 0x0A \<notin> set (uriEncode s True)" for s
    using uriEncode_chars [of "CHR 0x0A" s] by (auto simp: char_class_defs)
  then show ?thesis unfolding c
    by (intro join_char_free ballI) (auto simp: render_pair_def encode_pair_def)
qed

definition header_line :: "request \<Rightarrow> string \<Rightarrow> string" where
  "header_line r n = n @ '':'' @ headerValue r n"

lemma canonical_lines:
  assumes b: "buildCanonical r names skip ph = Inr c"
    and q: "canonicalQuery (u_raw_query (r_url r)) skip = Inr query"
    and free: "CHR 0x0A \<notin> set (r_method r)" "CHR 0x0A \<notin> set (canonicalURI r)" "CHR 0x0A \<notin> set ph"
    and names: "\<forall>n \<in> set names. signable_name n"
  shows "split_on (CHR 0x0A) c =
    [r_method r, canonicalURI r, query] @ map (header_line r) names @ [[], join '';'' names, ph]"
proof -
  have line: "\<forall>n \<in> set names. CHR 0x0A \<notin> set (header_line r n)"
    using names signable_name_free headerValue_no_newline by (auto simp: header_line_def)
  have jn: "CHR 0x0A \<notin> set (join '';'' names)"
    using names signable_name_free by (intro join_char_free) auto
  have "c = r_method r @ CHR 0x0A # canonicalURI r @ CHR 0x0A # query @ CHR 0x0A #
      concat (map (\<lambda>n. header_line r n @ [CHR 0x0A]) names) @
      [] @ CHR 0x0A # join '';'' names @ CHR 0x0A # ph"
    using b q by (simp add: buildCanonical_def canonicalHeaders_def newline_def header_line_def)
  then show ?thesis
    using free jn line canonicalQuery_no_newline [OF q]
    by (simp add: split_on_append split_on_lines split_on_free)
qed

lemma header_line_eq:
  assumes "header_line r n = header_line r' n'" "CHR '':'' \<notin> set n" "CHR '':'' \<notin> set n'"
  shows "n = n' \<and> headerValue r n = headerValue r' n'"
  using assms cut_append [of "CHR '':''" n "headerValue r n"]
    cut_append [of "CHR '':''" n' "headerValue r' n'"]
  by (auto simp: header_line_def)

lemma header_lines_eq:
  assumes "map (header_line r) ns = map (header_line r') ns'"
    "\<forall>n \<in> set ns \<union> set ns'. CHR '':'' \<notin> set n"
  shows "ns = ns' \<and> (\<forall>n \<in> set ns. headerValue r n = headerValue r' n)"
  using assms
proof (induction ns arbitrary: ns')
  case (Cons n ns)
  then obtain m ms where ms: "ns' = m # ms" "map (header_line r) ns = map (header_line r') ms"
    "header_line r n = header_line r' m" by (cases ns') auto
  then show ?case using Cons header_line_eq [of r n r' m] by auto
qed auto

section \<open>Presigned URLs\<close>

text \<open>What a client does to presign a URL: the query parameters of the authentication, the
  other parameters of the request after them (the session token among them), and the signature over this query last. \<open>p\<close> is
  the escaped path of the request target.\<close>

definition with_query :: "string \<Rightarrow> string \<Rightarrow> request \<Rightarrow> request" where
  "with_query p q r = r\<lparr>r_url := (r_url r)\<lparr>u_raw_query := q\<rparr>, r_request_uri := p @ ''?'' @ q\<rparr>"

definition render_query :: "(string \<times> string) list \<Rightarrow> string" where
  "render_query ps = join ''&'' (map (render_pair \<circ> encode_pair) ps)"

definition presign_pairs ::
  "sign_input \<Rightarrow> int \<Rightarrow> string list \<Rightarrow> (string \<times> string) list \<Rightarrow> (string \<times> string) list" where
  "presign_pairs si expires names extra =
     [(''X-Amz-Algorithm'', Algorithm),
      (''X-Amz-Credential'', si_access_key_id si @ ''/'' @ format_date (si_now si) @ ''/'' @
         si_region si @ ''/'' @ si_service si @ ''/aws4_request''),
      (''X-Amz-Date'', format_amz (si_now si)), (''X-Amz-Expires'', itoa expires),
      (''X-Amz-SignedHeaders'', join '';'' names)] @ extra"

definition presign_signature ::
  "sign_input \<Rightarrow> string \<Rightarrow> int \<Rightarrow> string list \<Rightarrow> (string \<times> string) list \<Rightarrow> request \<Rightarrow> string" where
  "presign_signature si p expires names extra r =
     (case buildCanonical (with_query p (render_query (presign_pairs si expires names extra)) r)
        names [] unsignedPayload of
        Inr c \<Rightarrow> signatureOf (si_secret si) (format_amz (si_now si)) (format_date (si_now si))
          (si_region si) (si_service si) c
      | Inl _ \<Rightarrow> [])"

definition presign ::
  "sign_input \<Rightarrow> string \<Rightarrow> int \<Rightarrow> string list \<Rightarrow> (string \<times> string) list \<Rightarrow> request \<Rightarrow> request" where
  "presign si p expires names extra r =
     with_query p (render_query (presign_pairs si expires names extra @
       [(''X-Amz-Signature'', presign_signature si p expires names extra r)])) r"

lemma query_part_render: "query_part (render_pair (encode_pair p)) = Some p"
proof -
  have "CHR '';'' \<notin> set (uriEncode s True)" for s
    using uriEncode_chars [of "CHR '';''" s] by (auto simp: char_class_defs)
  then have "CHR '';'' \<notin> set (render_pair (encode_pair p))"
    by (auto simp: render_pair_def encode_pair_def split: prod.splits)
  then show ?thesis unfolding query_part_def cut_render_encode
    by (simp add: encode_pair_def url_unescape_uriEncode split: prod.splits)
qed

lemma url_query_with_query: "url_query (r_url (with_query p (render_query ps) r)) = ps"
  unfolding url_query_def parse_query_def render_query_def with_query_def
  by (simp add: query_parts_render [unfolded comp_def] comp_def query_part_render map_filter_map_Some)

lemma canonicalQuery_render:
  "canonicalQuery (render_query ps) skip =
   Inr (render_query (sort_key encode_pair (filter (\<lambda>(k, _). skip = [] \<or> k \<noteq> skip) ps)))"
proof -
  have "decoded_query (render_query ps) skip = filter (\<lambda>(k, _). skip = [] \<or> k \<noteq> skip) ps"
    unfolding decoded_query_def render_query_def query_parts_render
    by (simp add: map_filter_map_Some decoded_render_encode comp_def)
  moreover have "\<forall>p \<in> set (query_parts (render_query ps)). decoded_pair p \<noteq> None"
    unfolding render_query_def query_parts_render using decoded_render_encode by auto
  ultimately show ?thesis by (simp add: canonicalQuery_decoded sort_encode render_query_def)
qed

lemma canonicalURI_with_query:
  assumes "has_prefix ''/'' p" "CHR ''?'' \<notin> set p"
  shows "canonicalURI (with_query p q r) = p"
proof -
  have "cut (CHR ''?'') (p @ ''?'' @ q) = (p, q, True)" using assms cut_append by simp
  moreover have "\<not> has_prefix ''http://'' (p @ s)" "\<not> has_prefix ''https://'' (p @ s)" "p \<noteq> []" for s
    using assms(1) by (cases p; simp add: has_prefix_def)+
  ultimately show ?thesis by (simp add: canonicalURI_def with_query_def orSlash_def)
qed

lemma headerValue_with_query [simp]: "headerValue (with_query p q r) n = headerValue r n"
  by (simp add: headerValue_def with_query_def Let_def)

lemma buildCanonical_presigned:
  assumes "has_prefix ''/'' p" "CHR ''?'' \<notin> set p" "\<forall>(k, v) \<in> set ps. k \<noteq> skip" "skip \<noteq> []"
  shows "buildCanonical (with_query p (render_query (ps @ [(skip, sig)])) r) names skip ph =
    buildCanonical (with_query p (render_query ps) r) names [] ph"
proof -
  have "filter (\<lambda>(k, _). k \<noteq> skip) ps = ps" using assms(3) by (auto simp: filter_id_conv)
  then have "canonicalQuery (render_query (ps @ [(skip, sig)])) skip = canonicalQuery (render_query ps) []"
    using assms(4) by (simp add: canonicalQuery_render)
  then show ?thesis
    using assms(1,2) by (simp add: buildCanonical_def canonicalURI_with_query canonicalHeaders_def)
      (simp add: with_query_def)
qed

definition presign_params :: "string set" where
  "presign_params = {''X-Amz-Algorithm'', ''X-Amz-Credential'', ''X-Amz-Date'', ''X-Amz-Expires'',
     ''X-Amz-SignedHeaders'', ''X-Amz-Signature''}"

text \<open>The parameters a presigned URL can be made of.\<close>

definition presignable ::
  "sign_input \<Rightarrow> string \<Rightarrow> int \<Rightarrow> string list \<Rightarrow> (string \<times> string) list \<Rightarrow> bool" where
  "presignable si p expires names extra \<longleftrightarrow>
     scope_text (si_access_key_id si) \<and> si_access_key_id si \<noteq> [] \<and> scope_text (si_region si) \<and>
     scope_text (si_service si) \<and> four_digit_year (si_now si) \<and> has_prefix ''/'' p \<and>
     CHR ''?'' \<notin> set p \<and> 0 < expires \<and> expires \<le> maxPresignExpires \<and> names \<noteq> [] \<and>
     (\<forall>n \<in> set names. signable_name n) \<and> fst ` set extra \<inter> presign_params = {}"

lemma presign_canonical:
  assumes "presignable si p expires names extra"
  obtains c where
    "buildCanonical (presign si p expires names extra r) names ''X-Amz-Signature'' unsignedPayload = Inr c"
    "presign_signature si p expires names extra r =
       signatureOf (si_secret si) (format_amz (si_now si)) (format_date (si_now si))
          (si_region si) (si_service si) c"
proof -
  let ?ps = "presign_pairs si expires names extra"
  let ?b = "buildCanonical (with_query p (render_query ?ps) r) names [] unsignedPayload"
  obtain c where c: "?b = Inr c"
    using buildCanonical_Inr_iff [of "with_query p (render_query ?ps) r" names "[]" unsignedPayload]
    by (auto simp: with_query_def canonicalQuery_render)
  have "''X-Amz-Signature'' \<notin> fst ` set extra"
    using assms by (auto simp: presignable_def presign_params_def)
  then have "\<forall>(k, v) \<in> set ?ps. k \<noteq> ''X-Amz-Signature''" by (force simp: presign_pairs_def)
  then have "buildCanonical (presign si p expires names extra r) names ''X-Amz-Signature'' unsignedPayload = ?b"
    unfolding presign_def using assms by (intro buildCanonical_presigned) (simp_all add: presignable_def)
  with c that show thesis by (simp add: presign_signature_def)
qed

lemma length_format_amz: "four_digit_year t \<Longrightarrow> length (format_amz t) = 16"
proof -
  assume f: "four_digit_year t"
  obtain h mi s where hms: "clock_of t = (h, mi, s)" by (cases "clock_of t")
  show ?thesis using clock_of_bounds [OF hms] f hms
    by (simp add: format_amz_def length_format_date length_pad_num)
qed

lemma map_of_extra:
  "fst ` set extra \<inter> presign_params = {} \<Longrightarrow> k \<in> presign_params \<Longrightarrow> map_of extra k = None"
  by (auto simp: map_of_eq_None_iff)

lemma presign_values:
  assumes "presignable si p expires names extra"
  shows "values_get (presign_pairs si expires names extra @ [(''X-Amz-Signature'', sig)]) ''X-Amz-Signature'' = sig"
    "values_get (presign_pairs si expires names extra @ [(''X-Amz-Signature'', sig)]) ''X-Amz-Security-Token'' =
       values_get extra ''X-Amz-Security-Token''"
proof -
  have "''X-Amz-Signature'' \<in> presign_params" by (simp add: presign_params_def)
  then have "map_of extra ''X-Amz-Signature'' = None"
    using assms by (simp add: map_of_extra presignable_def)
  then show "values_get (presign_pairs si expires names extra @ [(''X-Amz-Signature'', sig)]) ''X-Amz-Signature'' = sig"
    "values_get (presign_pairs si expires names extra @ [(''X-Amz-Signature'', sig)]) ''X-Amz-Security-Token'' =
       values_get extra ''X-Amz-Security-Token''"
    by (simp_all add: values_get_def presign_pairs_def map_add_def split: option.split)
qed

lemma presign_parses:
  assumes ok: "presignable si p expires names extra"
  shows "parsePresigned (presign si p expires names extra r) =
    Inr \<lparr>au_access_key_id = si_access_key_id si, au_date = format_date (si_now si),
      au_region = si_region si, au_service = si_service si, au_signed_headers = names,
      au_signature = presign_signature si p expires names extra r,
      ps_amz_date = format_amz (si_now si), ps_expires = expires * second,
      ps_security_token = values_get extra ''X-Amz-Security-Token''\<rparr>"
proof -
  let ?sig = "presign_signature si p expires names extra r"
  let ?q = "presign_pairs si expires names extra @ [(''X-Amz-Signature'', ?sig)]"
  have q: "url_query (r_url (presign si p expires names extra r)) = ?q"
    unfolding presign_def by (rule url_query_with_query)
  have hex: "hex_signature ?sig"
    using presign_canonical [OF ok, of r] hex_signature_signatureOf by metis
  have "min_int64 \<le> expires" "expires \<le> max_int64" "expires \<le> 9223372036"
    using ok by (simp_all add: presignable_def maxPresignExpires_def min_int64_def max_int64_def)
  then have e: "atoi (itoa expires) = Some expires" "seconds expires = expires * second"
    using ok by (simp_all add: atoi_itoa seconds_id presignable_def)
  have vals: "values_get ?q ''X-Amz-Algorithm'' = Algorithm"
    "values_get ?q ''X-Amz-Credential'' = si_access_key_id si @ ''/'' @ format_date (si_now si) @ ''/'' @
         si_region si @ ''/'' @ si_service si @ ''/aws4_request''"
    "values_get ?q ''X-Amz-Date'' = format_amz (si_now si)"
    "values_get ?q ''X-Amz-Expires'' = itoa expires"
    "values_get ?q ''X-Amz-SignedHeaders'' = join '';'' names"
    by (simp_all add: values_get_def presign_pairs_def)
  have cred: "setCredential (si_access_key_id si @ ''/'' @ format_date (si_now si) @ ''/'' @
      si_region si @ ''/'' @ si_service si @ ''/aws4_request'') a =
    Inr (a\<lparr>au_access_key_id := si_access_key_id si, au_date := format_date (si_now si),
      au_region := si_region si, au_service := si_service si\<rparr>)" for a :: presigned
    using ok by (intro setCredential_scope)
      (simp_all add: presignable_def digits_scope_text format_date_digits length_format_date)
  show ?thesis
    unfolding parsePresigned_def q Let_def vals presign_values [OF ok] cred
    using ok e
    by (simp add: presignable_def setSignedHeaders_join setSignature_hex [OF hex] length_format_amz
        authorization.defs presigned.defs empty_authorization_def)
qed

lemma presign_accepted_iff:
  assumes ok: "presignable si p expires names extra"
    and auth: "parsePresigned (presign si p expires names extra r) = Inr auth"
  shows "verifyPresigned \<lparr>in_request = presign si p expires names extra r, in_auth = auth,
      in_secret = si_secret si, in_region = si_region si, in_service = si_service si, in_now = now,
      in_clock_skew = skew\<rparr> = Inr () \<longleftrightarrow>
    time_sub (si_now si - si_now si mod second) now \<le> skew \<and>
    now \<le> si_now si - si_now si mod second + expires * second"
proof -
  obtain c where
    "buildCanonical (presign si p expires names extra r) names ''X-Amz-Signature'' unsignedPayload = Inr c"
    "presign_signature si p expires names extra r =
       signatureOf (si_secret si) (format_amz (si_now si)) (format_date (si_now si))
          (si_region si) (si_service si) c"
    using presign_canonical [OF ok] by blast
  then show ?thesis
    using ok auth presign_parses [OF ok, of r]
    by (auto simp: verifyPresigned_iff presignable_def parse_format_amz take_format_amz time_add_def)
qed

lemma setCredential_Inr:
  "setCredential v a = Inr a' \<Longrightarrow> \<exists>akid date region service.
     a' = a\<lparr>au_access_key_id := akid, au_date := date, au_region := region, au_service := service\<rparr> \<and>
     akid \<noteq> [] \<and> length date = 8"
  unfolding setCredential_def Let_def by (auto split: if_splits)

lemma setSignedHeaders_Inr:
  "setSignedHeaders v a = Inr a' \<Longrightarrow> \<exists>names. a' = a\<lparr>au_signed_headers := names\<rparr>"
  unfolding setSignedHeaders_def
  by (rule res_fold_invariant [where P = "\<lambda>b. \<exists>names. b = a\<lparr>au_signed_headers := names\<rparr>"])
    (auto simp: addSignedHeader_def Let_def split: if_splits intro: exI [of _ "au_signed_headers a"])

lemma setSignature_Inr:
  "setSignature v a = Inr a' \<Longrightarrow> \<exists>sig. a' = a\<lparr>au_signature := sig\<rparr> \<and> length sig = 64"
  unfolding setSignature_def Let_def by (auto split: if_splits)

lemma parsePresigned_Inr:
  assumes "parsePresigned r = Inr a"
  shows "\<exists>n. 0 < n \<and> n \<le> maxPresignExpires \<and> ps_expires a = n * second \<and>
    length (ps_amz_date a) = 16 \<and> au_access_key_id a \<noteq> [] \<and> length (au_date a) = 8 \<and>
    length (au_signature a) = 64 \<and>
    ps_security_token a = values_get (url_query (r_url r)) ''X-Amz-Security-Token''"
proof -
  let ?q = "url_query (r_url r)"
  let ?p0 = "authorization.extend empty_authorization
     (presigned.fields (values_get ?q ''X-Amz-Date'') 0 (values_get ?q ''X-Amz-Security-Token''))"
  from assms obtain p1 p2 p3 n where
    "setCredential (values_get ?q ''X-Amz-Credential'') ?p0 = Inr p1"
    "setSignedHeaders (values_get ?q ''X-Amz-SignedHeaders'') p1 = Inr p2"
    "setSignature (values_get ?q ''X-Amz-Signature'') p2 = Inr p3"
    and n: "length (ps_amz_date p3) = 16" "0 < n" "n \<le> maxPresignExpires"
      "a = p3\<lparr>ps_expires := seconds n\<rparr>"
    unfolding parsePresigned_def Let_def
    by (auto simp: res_iff not_le not_less split: if_splits option.splits)
  then obtain akid date region service names sig where p3:
    "p3 = ?p0\<lparr>au_access_key_id := akid, au_date := date, au_region := region, au_service := service,
      au_signed_headers := names, au_signature := sig\<rparr>" "akid \<noteq> []" "length date = 8" "length sig = 64"
    by (auto dest!: setCredential_Inr setSignedHeaders_Inr setSignature_Inr)
  then show ?thesis
    using n by (intro exI [of _ n]) (simp add: seconds_id maxPresignExpires_def authorization.defs presigned.defs)
qed

end
