(* ===== verification/Go_Utf8.thy ===== *)
theory Go_Utf8
  imports Go_Strings
begin

text \<open>
  UTF-8 as Go's package \<open>unicode/utf8\<close> sees it: the length of the encoded rune at the head of a
  string, the encoding of a rune, and the strings that are a sequence of encoded runes.
\<close>

definition is_cont :: "char \<Rightarrow> bool" where
  "is_cont c \<longleftrightarrow> 128 \<le> ord c \<and> ord c \<le> 191"

text \<open>The number of bytes of the encoded rune at the head of a string, 0 when the head is not
  the encoding of a rune: overlong forms, surrogates and values above U+10FFFF are refused.\<close>

fun utf8_len :: "string \<Rightarrow> nat" where
  "utf8_len [] = 0"
| "utf8_len (a # s) =
     (if ord a < 128 then 1
      else if 194 \<le> ord a \<and> ord a \<le> 223 then
        (case s of b # _ \<Rightarrow> if is_cont b then 2 else 0 | _ \<Rightarrow> 0)
      else if 224 \<le> ord a \<and> ord a \<le> 239 then
        (case s of b # c # _ \<Rightarrow>
           if is_cont b \<and> is_cont c \<and> (ord a = 224 \<longrightarrow> 160 \<le> ord b) \<and> (ord a = 237 \<longrightarrow> ord b \<le> 159)
           then 3 else 0
         | _ \<Rightarrow> 0)
      else if 240 \<le> ord a \<and> ord a \<le> 244 then
        (case s of b # c # d # _ \<Rightarrow>
           if is_cont b \<and> is_cont c \<and> is_cont d \<and> (ord a = 240 \<longrightarrow> 144 \<le> ord b) \<and> (ord a = 244 \<longrightarrow> ord b \<le> 143)
           then 4 else 0
         | _ \<Rightarrow> 0)
      else 0)"

text \<open>\<open>utf8.EncodeRune\<close>.\<close>

definition utf8_encode :: "nat \<Rightarrow> string" where
  "utf8_encode r =
     (if r < 128 then [char_of r]
      else if r < 2048 then [char_of (192 + r div 64), char_of (128 + r mod 64)]
      else if r < 65536 then
        [char_of (224 + r div 4096), char_of (128 + r div 64 mod 64), char_of (128 + r mod 64)]
      else [char_of (240 + r div 262144), char_of (128 + r div 4096 mod 64),
            char_of (128 + r div 64 mod 64), char_of (128 + r mod 64)])"

definition replacement_char :: string where
  "replacement_char = [CHR 0xEF, CHR 0xBF, CHR 0xBD]"

lemma utf8_len_le: "utf8_len s \<le> length s"
  by (cases s) (auto split: list.splits)

lemma utf8_len_bound: "utf8_len s \<le> 4"
  by (cases s) (auto split: list.splits)

function utf8_valid :: "string \<Rightarrow> bool" where
  "utf8_valid s = (if utf8_len s = 0 then s = [] else utf8_valid (drop (utf8_len s) s))"
  by pat_completeness auto
termination
proof (relation "measure length")
  fix s assume "utf8_len s \<noteq> 0"
  then show "(drop (utf8_len s) s, s) \<in> measure length" using utf8_len_le [of s] by simp
qed simp

declare utf8_valid.simps [simp del]

lemma utf8_valid_Nil [simp]: "utf8_valid []"
  by (simp add: utf8_valid.simps)

text \<open>Whether the head is an encoded rune depends on its own bytes alone.\<close>

lemma utf8_len_take:
  assumes "0 < utf8_len s"
  shows "utf8_len (take (utf8_len s) s @ t) = utf8_len s"
  using assms by (cases s) (auto split: list.splits if_splits)

lemma utf8_len_ascii: "ord c < 128 \<Longrightarrow> utf8_len (c # s) = 1"
  by simp

lemma utf8_len_high: "128 \<le> ord c \<Longrightarrow> 0 < utf8_len (c # s) \<Longrightarrow> 2 \<le> utf8_len (c # s)"
  by (auto split: list.splits if_splits)

lemma utf8_valid_ascii: "\<forall>c \<in> set s. ord c < 128 \<Longrightarrow> utf8_valid s"
proof (induction s)
  case (Cons c s)
  then show ?case by (subst utf8_valid.simps) simp
qed simp

lemma utf8_head_high: "128 \<le> ord c \<Longrightarrow> x \<in> set (take (utf8_len (c # s)) (c # s)) \<Longrightarrow> 128 \<le> ord x"
  by (auto simp: is_cont_def split: list.splits if_splits)

end
