(* ===== verification/Go_Xml.thy ===== *)
theory Go_Xml
  imports Go_Http Go_Utf8
begin

text \<open>
  The response writer and Go's package \<open>encoding/xml\<close> as the program uses them: documents of
  elements that hold either text or child elements, indented by two blanks per level.
\<close>

section \<open>Responses\<close>

record response =
  rp_status :: int
  rp_header :: header
  rp_body :: string

text \<open>\<open>http.Error\<close>.\<close>

definition http_error :: "string \<Rightarrow> int \<Rightarrow> response" where
  "http_error msg status = \<lparr>rp_status = status,
     rp_header = [(''Content-Type'', [''text/plain; charset=utf-8'']), (''X-Content-Type-Options'', [''nosniff''])],
     rp_body = msg @ [CHR 0x0A]\<rparr>"

section \<open>Escaping\<close>

text \<open>The escape of one byte below 128. Control characters other than tab, line feed and
  carriage return are not in the character range of XML.\<close>

definition xml_escape_ascii :: "char \<Rightarrow> string" where
  "xml_escape_ascii c =
     (if ord c = 34 then ''&#34;'' else if ord c = 39 then ''&#39;''
      else if c = CHR ''&'' then ''&amp;'' else if c = CHR ''<'' then ''&lt;''
      else if c = CHR ''>'' then ''&gt;'' else if ord c = 9 then ''&#x9;''
      else if ord c = 10 then ''&#xA;'' else if ord c = 13 then ''&#xD;''
      else if ord c < 32 then replacement_char else [c])"

text \<open>\<open>xml.EscapeText\<close>. The sequences of U+FFFE and U+FFFF are outside the range too.\<close>

function xml_escape :: "string \<Rightarrow> string" where
  "xml_escape [] = []"
| "xml_escape (a # s) =
     (let n = utf8_len (a # s) in
      if ord a < 128 then xml_escape_ascii a @ xml_escape s
      else if n = 0 then replacement_char @ xml_escape s
      else if take 3 (a # s) \<in> {[CHR 0xEF, CHR 0xBF, CHR 0xBE], [CHR 0xEF, CHR 0xBF, CHR 0xBF]}
        then replacement_char @ xml_escape (drop (n - 1) s)
      else take n (a # s) @ xml_escape (drop (n - 1) s))"
  by pat_completeness auto
termination
  by (relation "measure length") auto

section \<open>Documents\<close>

datatype xml =
    XText string string
  | XElem string "(string \<times> string) list" "xml list"

definition xml_attr :: "string \<times> string \<Rightarrow> string" where
  "xml_attr = (\<lambda>(k, v). '' '' @ k @ ''='' @ [CHR 34] @ xml_escape v @ [CHR 34])"

definition xml_indent :: "nat \<Rightarrow> string" where
  "xml_indent d = CHR 0x0A # replicate (2 * d) (CHR '' '')"

fun xml_render :: "nat \<Rightarrow> xml \<Rightarrow> string" where
  "xml_render d (XText n t) = ''<'' @ n @ ''>'' @ xml_escape t @ ''</'' @ n @ ''>''"
| "xml_render d (XElem n as cs) =
     ''<'' @ n @ concat (map xml_attr as) @ ''>'' @
     concat (map (\<lambda>c. xml_indent (Suc d) @ xml_render (Suc d) c) cs) @
     (if cs = [] then [] else xml_indent d) @ ''</'' @ n @ ''>''"

definition xml_header :: string where
  "xml_header = ''<?xml version='' @ [CHR 34] @ ''1.0'' @ [CHR 34] @ '' encoding='' @ [CHR 34] @
     ''UTF-8'' @ [CHR 34] @ ''?>'' @ [CHR 0x0A]"

definition xml_document :: "xml \<Rightarrow> string" where
  "xml_document x = xml_header @ xml_render 0 x @ [CHR 0x0A]"

section \<open>Escaped text holds no markup\<close>

lemma xml_escape_ascii_safe: "c \<in> set (xml_escape_ascii a) \<Longrightarrow> c \<notin> {CHR ''<'', CHR ''>'', CHR 34, CHR 39, CHR 0x0A}"
  by (auto simp: xml_escape_ascii_def replacement_char_def split: if_splits)

lemma xml_escape_safe: "c \<in> set (xml_escape s) \<Longrightarrow> c \<notin> {CHR ''<'', CHR ''>'', CHR 34, CHR 39, CHR 0x0A}"
proof (induction s rule: xml_escape.induct)
  case (2 a s)
  let ?bad = "{CHR ''<'', CHR ''>'', CHR 34, CHR 39, CHR 0x0A}"
  have repl: "set replacement_char \<inter> ?bad = {}" by (simp add: replacement_char_def)
  have high: "128 \<le> ord d \<Longrightarrow> d \<notin> ?bad" for d by auto
  show ?case
  proof (cases "ord a < 128")
    case True
    then show ?thesis using 2 xml_escape_ascii_safe [of c a] by (auto simp: Let_def)
  next
    case False
    then show ?thesis
      using 2 repl high utf8_head_high [of a c s] False by (auto simp: Let_def simp del: utf8_len.simps split: if_splits)
  qed
qed simp

end
