(* ===== verification/S3err.thy ===== *)
theory S3err
  imports Go_Xml
begin

text \<open>Package \<open>internal/s3err\<close>: the S3 error codes of the proxy and the error document.\<close>

definition CodeAccessDenied :: string where "CodeAccessDenied = ''AccessDenied''"

definition CodeInvalidAccessKeyID :: string where "CodeInvalidAccessKeyID = ''InvalidAccessKeyId''"

definition CodeExpiredToken :: string where "CodeExpiredToken = ''ExpiredToken''"

definition CodeInvalidToken :: string where "CodeInvalidToken = ''InvalidToken''"

definition CodeSignatureDoesNotMatch :: string where
  "CodeSignatureDoesNotMatch = ''SignatureDoesNotMatch''"

definition CodeRequestTimeTooSkewed :: string where
  "CodeRequestTimeTooSkewed = ''RequestTimeTooSkewed''"

definition CodeAuthorizationHeaderMalformed :: string where
  "CodeAuthorizationHeaderMalformed = ''AuthorizationHeaderMalformed''"

definition CodeAuthorizationQueryParametersError :: string where
  "CodeAuthorizationQueryParametersError = ''AuthorizationQueryParametersError''"

definition CodeInvalidRequest :: string where "CodeInvalidRequest = ''InvalidRequest''"

definition CodeMissingSecurityHeader :: string where
  "CodeMissingSecurityHeader = ''MissingSecurityHeader''"

definition CodeInternalError :: string where "CodeInternalError = ''InternalError''"

definition CodeServiceUnavailable :: string where "CodeServiceUnavailable = ''ServiceUnavailable''"

text \<open>The document; \<open>Resource\<close> is left out when it is empty.\<close>

definition errorXML :: "string \<Rightarrow> string \<Rightarrow> string \<Rightarrow> string \<Rightarrow> xml" where
  "errorXML code message resource requestID =
     XElem ''Error'' []
       ([XText ''Code'' code, XText ''Message'' message] @
        (if resource = [] then [] else [XText ''Resource'' resource]) @
        [XText ''RequestId'' requestID])"

definition s3err_write :: "int \<Rightarrow> string \<Rightarrow> string \<Rightarrow> string \<Rightarrow> string \<Rightarrow> response" where
  "s3err_write status code message resource requestID =
     \<lparr>rp_status = status, rp_header = [(''Content-Type'', [''application/xml''])],
      rp_body = xml_document (errorXML code message resource requestID)\<rparr>"

lemma count_escape: "count_list (xml_escape s) (CHR ''<'') = 0"
  using xml_escape_safe [of "CHR ''<''" s] by (auto simp: count_list_0_iff)

lemma s3err_write_status [simp]: "rp_status (s3err_write st c m r i) = st"
  by (simp add: s3err_write_def)

text \<open>The error document has a fixed structure. Whatever code, message, resource path and
  request ID it reports, the document holds eleven tags, nine without a resource:
  a request cannot inject markup through its path.\<close>

theorem s3err_no_markup_injection:
  "count_list (rp_body (s3err_write status code message resource requestID)) (CHR ''<'') =
     (if resource = [] then 9 else 11)"
  by (simp add: s3err_write_def errorXML_def xml_document_def xml_header_def xml_indent_def
      count_escape count_list_append replicate_Suc)

end
