(* ===== verification/Forward.thy ===== *)
theory Forward
  imports Sigv4_Facts S3err
begin

text \<open>
  Package \<open>internal/forward\<close>: the injection of the authenticated username into the outbound
  request, the removal of query authentication, and the reverse proxy: what
  \<open>httputil.ReverseProxy\<close> does with the request before it is sent, with the hooks that
  \<open>NewReverseProxy\<close> installs.
\<close>

section \<open>Identity injection\<close>

definition junkSignature :: string where "junkSignature = replicate 64 (CHR ''0'')"

definition ApplySynthetic :: "request \<Rightarrow> string \<Rightarrow> string \<Rightarrow> time \<Rightarrow> request" where
  "ApplySynthetic r username region now =
     (let r1 = req_set r ''Authorization''
            (authHeader username (format_date now) region ''s3'' ''host;x-amz-date'' junkSignature);
          r2 = req_set r1 ''X-Amz-Date'' (format_amz now);
          r3 = req_set r2 ''X-Amz-Content-Sha256'' unsignedPayload
      in req_del r3 ''X-Amz-Security-Token'')"

definition ResignSecret :: string where "ResignSecret = ''ozone-oidc-proxy-resign''"

definition ApplyResign ::
  "request \<Rightarrow> string \<Rightarrow> string \<Rightarrow> string \<Rightarrow> time \<Rightarrow> request \<times> sigv4_error option" where
  "ApplyResign r username upstreamHost region now =
     sign \<lparr>si_access_key_id = username, si_secret = ResignSecret, si_region = region,
           si_service = ''s3'', si_host = upstreamHost, si_now = now\<rparr>
       (req_del r ''X-Amz-Security-Token'')"

definition RewriteAccessKeyID :: "request \<Rightarrow> 'a authorization_scheme \<Rightarrow> string \<Rightarrow> request" where
  "RewriteAccessKeyID r auth username =
     (let signed = filter (\<lambda>h. h \<noteq> ''x-amz-security-token'') (au_signed_headers auth);
          r1 = req_set r ''Authorization''
            (authHeader username (au_date auth) (au_region auth) (au_service auth) (join '';'' signed)
               (au_signature auth))
      in req_del r1 ''X-Amz-Security-Token'')"

definition presignedAuthParams :: "string list" where
  "presignedAuthParams = [''X-Amz-Algorithm'', ''X-Amz-Credential'', ''X-Amz-Date'', ''X-Amz-Expires'',
     ''X-Amz-SignedHeaders'', ''X-Amz-Signature'', ''X-Amz-Security-Token'']"

text \<open>Whether the loop of \<open>StripPresignedQuery\<close> keeps a part of the query.\<close>

definition keep_part :: "string \<Rightarrow> bool" where
  "keep_part part \<longleftrightarrow>
     part \<noteq> [] \<and>
     (case query_unescape (fst (cut (CHR ''='') part)) of
        Some decoded \<Rightarrow> decoded \<notin> set presignedAuthParams
      | None \<Rightarrow> True)"

definition StripPresignedQuery :: "request \<Rightarrow> request" where
  "StripPresignedQuery r =
     (let q = u_raw_query (r_url r) in
      if q = [] then r
      else r\<lparr>r_url := (r_url r)\<lparr>u_raw_query := join ''&'' (filter keep_part (split_on (CHR ''&'') q))\<rparr>\<rparr>)"

section \<open>The reverse proxy\<close>

subsection \<open>Hop-by-hop headers\<close>

definition ows :: "char \<Rightarrow> bool" where
  "ows c \<longleftrightarrow> c = CHR '' '' \<or> ord c = 9"

definition trim_ows :: "string \<Rightarrow> string" where
  "trim_ows s = rev (dropWhile ows (rev (dropWhile ows s)))"

text \<open>\<open>textproto.TrimString\<close>.\<close>

definition trim_ascii :: "string \<Rightarrow> string" where
  "trim_ascii s =
     (let sp = (\<lambda>c. ord c \<in> {9, 10, 13, 32}) in rev (dropWhile sp (rev (dropWhile sp s))))"

definition token_equal :: "string \<Rightarrow> string \<Rightarrow> bool" where
  "token_equal a b \<longleftrightarrow> list_all (\<lambda>c. ord c < 128) a \<and> to_lower a = to_lower b"

text \<open>\<open>httpguts.HeaderValuesContainsToken\<close>.\<close>

definition contains_token :: "string list \<Rightarrow> string \<Rightarrow> bool" where
  "contains_token vs tok \<longleftrightarrow>
     list_ex (\<lambda>v. list_ex (\<lambda>part. token_equal (trim_ows part) tok) (split_on (CHR '','') v)) vs"

definition upgrade_type :: "header \<Rightarrow> string" where
  "upgrade_type h =
     (if contains_token (header_values h ''Connection'') ''Upgrade'' then header_get h ''Upgrade'' else [])"

definition hop_headers :: "string list" where
  "hop_headers = [''Connection'', ''Proxy-Connection'', ''Keep-Alive'', ''Proxy-Authenticate'',
     ''Proxy-Authorization'', ''Te'', ''Trailer'', ''Transfer-Encoding'', ''Upgrade'']"

text \<open>The header names that the client's Connection headers list.\<close>

definition connection_options :: "header \<Rightarrow> string list" where
  "connection_options h =
     filter (\<lambda>s. s \<noteq> [])
       (map trim_ascii (concat (map (split_on (CHR '','')) (header_values h ''Connection''))))"

definition removeHopByHopHeaders :: "header \<Rightarrow> header" where
  "removeHopByHopHeaders h = fold (\<lambda>k h. header_del h k) (connection_options h @ hop_headers) h"

subsection \<open>The query\<close>

text \<open>Whether \<open>cleanQueryParams\<close> leaves the query as it is: no semicolon, and every percent
  sign starts an escape.\<close>

fun query_clean :: "string \<Rightarrow> bool" where
  "query_clean [] = True"
| "query_clean (c # s) =
     (if c = CHR '';'' then False
      else if c = CHR ''%'' then
        (case s of a # b # s' \<Rightarrow> unhex a \<noteq> None \<and> unhex b \<noteq> None \<and> query_clean s' | _ \<Rightarrow> False)
      else query_clean s)"

definition cleanQueryParams :: "string \<Rightarrow> string" where
  "cleanQueryParams s = (if query_clean s then s else values_encode (fst (parse_query s)))"

subsection \<open>The target\<close>

definition singleJoiningSlash :: "string \<Rightarrow> string \<Rightarrow> string" where
  "singleJoiningSlash a b =
     (if has_suffix ''/'' a \<and> has_prefix ''/'' b then a @ tl b
      else if \<not> has_suffix ''/'' a \<and> \<not> has_prefix ''/'' b then a @ ''/'' @ b
      else a @ b)"

definition joinURLPath :: "url \<Rightarrow> url \<Rightarrow> string \<times> string" where
  "joinURLPath a b =
     (if u_raw_path a = [] \<and> u_raw_path b = [] then (singleJoiningSlash (u_path a) (u_path b), [])
      else
        let apath = escaped_path a; bpath = escaped_path b;
            aslash = has_suffix ''/'' apath; bslash = has_prefix ''/'' bpath
        in if aslash \<and> bslash then (u_path a @ tl (u_path b), apath @ tl bpath)
           else if \<not> aslash \<and> \<not> bslash then (u_path a @ ''/'' @ u_path b, apath @ ''/'' @ bpath)
           else (u_path a @ u_path b, apath @ bpath))"

definition rewriteRequestURL :: "url \<Rightarrow> url \<Rightarrow> url" where
  "rewriteRequestURL target u =
     (case joinURLPath target u of (p, rp) \<Rightarrow>
        u\<lparr>u_scheme := u_scheme target, u_host := u_host target, u_path := p, u_raw_path := rp,
          u_raw_query :=
            (if u_raw_query target = [] \<or> u_raw_query u = [] then u_raw_query target @ u_raw_query u
             else u_raw_query target @ ''&'' @ u_raw_query u)\<rparr>)"

definition SetXForwarded :: "request \<Rightarrow> request \<Rightarrow> request" where
  "SetXForwarded in_req out =
     (let out1 = (case r_client_ip in_req of
            Some ip \<Rightarrow>
              let prior = header_values (r_header out) ''X-Forwarded-For''
              in req_set out ''X-Forwarded-For'' (if prior = [] then ip else join '', '' prior @ '', '' @ ip)
          | None \<Rightarrow> req_del out ''X-Forwarded-For'');
          out2 = req_set out1 ''X-Forwarded-Host'' (r_host in_req)
      in req_set out2 ''X-Forwarded-Proto'' (if r_tls in_req then ''https'' else ''http''))"

text \<open>The \<open>Rewrite\<close> hook of \<open>NewReverseProxy\<close>.\<close>

definition proxy_rewrite :: "url \<Rightarrow> request \<Rightarrow> request \<Rightarrow> request" where
  "proxy_rewrite target in_req out =
     (let out1 = out\<lparr>r_url := rewriteRequestURL target (r_url out), r_host := []\<rparr>;
          out2 = SetXForwarded in_req out1
      in out2\<lparr>r_host := u_host target\<rparr>)"

text \<open>\<open>ReverseProxy.ServeHTTP\<close> up to the round trip: the outbound request, or \<open>None\<close> when the
  client asks for an upgrade to a protocol name that is not printable.\<close>

definition printable :: "string \<Rightarrow> bool" where
  "printable s \<longleftrightarrow> list_all (\<lambda>c. 32 \<le> ord c \<and> ord c \<le> 126) s"

definition strip_forwarded :: "header \<Rightarrow> header" where
  "strip_forwarded h = fold (\<lambda>k h. header_del h k)
     [''Forwarded'', ''X-Forwarded-For'', ''X-Forwarded-Host'', ''X-Forwarded-Proto''] h"

text \<open>The headers of the outbound request before the \<open>Rewrite\<close> hook runs.\<close>

definition outbound_header :: "header \<Rightarrow> header" where
  "outbound_header h =
     (let up = upgrade_type h;
          h1 = removeHopByHopHeaders h;
          h2 = (if contains_token (header_values h ''Te'') ''trailers'' then header_set h1 ''Te'' ''trailers'' else h1);
          h3 = (if up \<noteq> [] then header_set (header_set h2 ''Connection'' ''Upgrade'') ''Upgrade'' up else h2)
      in strip_forwarded h3)"

definition proxy_outbound :: "url \<Rightarrow> request \<Rightarrow> request option" where
  "proxy_outbound target r =
     (if \<not> printable (upgrade_type (r_header r)) then None
      else
        let out0 = r\<lparr>r_header := outbound_header (r_header r),
                     r_body := (if r_content_length r = 0 then Some [] else r_body r),
                     r_url := (r_url r)\<lparr>u_raw_query := cleanQueryParams (u_raw_query (r_url r))\<rparr>\<rparr>;
            out1 = proxy_rewrite target r out0
        in Some (if map_of (r_header out1) ''User-Agent'' = None
                 then req_set out1 ''User-Agent'' [] else out1))"

text \<open>The outcome of the round trip: a status code and the rest of the response, or an error,
  which may be the cancellation of the request by the client.\<close>

datatype upstream_result =
    UpResponse response
  | UpError bool

text \<open>What the client of the proxy gets, and what was sent upstream on the way.\<close>

datatype reply =
    Answered response
  | Relayed request response
  | Unanswered request response

text \<open>The \<open>ErrorHandler\<close> hook.\<close>

definition upstream_error_reply :: "request \<Rightarrow> response" where
  "upstream_error_reply r =
     s3err_write 502 CodeInternalError ''upstream S3 gateway unreachable'' (u_path (r_url r)) []"

end
