(* ===== verification/Config.thy ===== *)
theory Config
  imports Go_Url Go_Time
begin

text \<open>
  Package \<open>internal/config\<close>: the configuration record, the environment overrides, the defaults
  and the validation that runs before the proxy starts. The YAML decoder is a parameter, and so
  is the regular expression compiler: \<open>compile p\<close> is the matcher of the pattern \<open>p\<close>, or \<open>None\<close>
  when the pattern does not compile. \<open>env\<close> is the environment; an unset variable reads as the
  empty string, as with \<open>os.Getenv\<close>. Errors are the operands of the message.
\<close>

definition ForwardModeRewrite :: string where "ForwardModeRewrite = ''rewrite''"

definition ForwardModeResign :: string where "ForwardModeResign = ''resign''"

definition StoreMemory :: string where "StoreMemory = ''memory''"

definition StoreValkey :: string where "StoreValkey = ''valkey''"

definition supportedSigningAlgs :: "string list" where
  "supportedSigningAlgs = [''RS256'', ''RS384'', ''RS512'', ''PS256'', ''PS384'', ''PS512'',
     ''ES256'', ''ES384'', ''ES512'']"

record upstream_cfg =
  uc_s3_endpoint :: string
  uc_forward_mode :: string

text \<open>The two switches are pointers in Go; \<open>None\<close> is the key that the file leaves out.\<close>

record data_path =
  dp_accept_bearer :: "bool option"
  dp_strict :: "bool option"

definition BearerEnabled :: "data_path \<Rightarrow> bool" where
  "BearerEnabled d \<longleftrightarrow> (case dp_accept_bearer d of None \<Rightarrow> True | Some b \<Rightarrow> b)"

definition StrictEnabled :: "data_path \<Rightarrow> bool" where
  "StrictEnabled d \<longleftrightarrow> (case dp_strict d of None \<Rightarrow> True | Some b \<Rightarrow> b)"

record issuer =
  is_name :: string
  is_issuer :: string
  is_jwks_uri :: string
  is_audiences :: "string list"
  is_username_claim :: string

record sts_cfg =
  sc_max_duration :: int
  sc_role_arn_allowlist :: "string list"

record credential_store_cfg =
  cs_type :: string
  cs_valkey_addr :: string
  cs_valkey_key_env :: string

record security =
  se_clock_skew :: duration
  se_allowed_signing_algs :: "string list"
  se_region :: string

record username_policy =
  up_pattern :: string
  up_regex :: "(string \<Rightarrow> bool) option"

definition policy_validate :: "username_policy \<Rightarrow> string \<Rightarrow> bool" where
  "policy_validate p username \<longleftrightarrow> (case up_regex p of None \<Rightarrow> False | Some re \<Rightarrow> re username)"

record config =
  cf_listen :: string
  cf_admin_listen :: string
  cf_upstream :: upstream_cfg
  cf_data_path :: data_path
  cf_issuers :: "issuer list"
  cf_sts :: sts_cfg
  cf_credential_store :: credential_store_cfg
  cf_security :: security
  cf_username_policy :: username_policy

section \<open>Environment overrides and defaults\<close>

definition env_bool :: "string \<Rightarrow> bool option \<Rightarrow> bool option" where
  "env_bool v old = (if v \<noteq> [] \<and> parse_bool v \<noteq> None then parse_bool v else old)"

definition env_string :: "string \<Rightarrow> string \<Rightarrow> string" where
  "env_string v old = (if v \<noteq> [] then v else old)"

definition applyEnv :: "(string \<Rightarrow> string) \<Rightarrow> config \<Rightarrow> config" where
  "applyEnv env c =
     c\<lparr>cf_listen := env_string (env ''OZPX_LISTEN'') (cf_listen c),
       cf_admin_listen := env_string (env ''OZPX_ADMIN_LISTEN'') (cf_admin_listen c),
       cf_upstream := (cf_upstream c)\<lparr>uc_s3_endpoint :=
         env_string (env ''OZPX_UPSTREAM_S3_ENDPOINT'') (uc_s3_endpoint (cf_upstream c))\<rparr>,
       cf_data_path := (cf_data_path c)\<lparr>
         dp_strict := env_bool (env ''OZPX_STRICT'') (dp_strict (cf_data_path c)),
         dp_accept_bearer := env_bool (env ''OZPX_ACCEPT_BEARER'') (dp_accept_bearer (cf_data_path c))\<rparr>\<rparr>"

definition defaultPattern :: string where
  "defaultPattern = ''^[A-Za-z0-9._@-]{1,64}$''"

definition default_string :: "string \<Rightarrow> string \<Rightarrow> string" where
  "default_string d v = (if v = [] then d else v)"

definition issuer_defaults :: "issuer \<Rightarrow> issuer" where
  "issuer_defaults i = i\<lparr>is_username_claim := default_string ''preferred_username'' (is_username_claim i)\<rparr>"

definition applyDefaults :: "config \<Rightarrow> config" where
  "applyDefaults c =
     c\<lparr>cf_listen := default_string ''0.0.0.0:9000'' (cf_listen c),
       cf_admin_listen := default_string ''0.0.0.0:9090'' (cf_admin_listen c),
       cf_upstream := (cf_upstream c)\<lparr>uc_forward_mode :=
         default_string ForwardModeRewrite (uc_forward_mode (cf_upstream c))\<rparr>,
       cf_sts := (cf_sts c)\<lparr>sc_max_duration :=
         (if sc_max_duration (cf_sts c) = 0 then 3600 else sc_max_duration (cf_sts c))\<rparr>,
       cf_credential_store := (cf_credential_store c)\<lparr>
         cs_type := default_string StoreMemory (cs_type (cf_credential_store c)),
         cs_valkey_key_env := default_string ''OZPX_STORE_KEY'' (cs_valkey_key_env (cf_credential_store c))\<rparr>,
       cf_security := (cf_security c)\<lparr>
         se_clock_skew := (if se_clock_skew (cf_security c) = 0 then 15 * minute else se_clock_skew (cf_security c)),
         se_allowed_signing_algs :=
           (if se_allowed_signing_algs (cf_security c) = [] then [''RS256'', ''ES256'']
            else se_allowed_signing_algs (cf_security c)),
         se_region := default_string ''us-east-1'' (se_region (cf_security c))\<rparr>,
       cf_username_policy := (cf_username_policy c)\<lparr>
         up_pattern := default_string defaultPattern (up_pattern (cf_username_policy c))\<rparr>,
       cf_issuers := map issuer_defaults (cf_issuers c)\<rparr>"

section \<open>Validation\<close>

type_synonym config_error = "string list"

definition checkHTTPURL :: "string \<Rightarrow> string \<Rightarrow> config_error + unit" where
  "checkHTTPURL field raw =
     (case url_parse raw of
        None \<Rightarrow> Inl [field]
      | Some u \<Rightarrow>
          if u_scheme u \<noteq> ''http'' \<and> u_scheme u \<noteq> ''https'' \<or> u_host u = []
          then Inl [field, raw, ''must be an absolute http(s) URL''] else Inr ())"

definition checkStore :: "credential_store_cfg \<Rightarrow> config_error + unit" where
  "checkStore cs =
     (if cs_type cs = StoreMemory then Inr ()
      else if cs_type cs = StoreValkey then
        res_check (cs_valkey_addr cs \<noteq> []) [''credential_store.valkey.addr is required'']
      else Inl [''credential_store.type'', cs_type cs, ''not supported''])"

text \<open>The body of the loop over the issuers; the state is the names and the URLs seen.\<close>

definition checkIssuer ::
  "nat \<times> issuer \<Rightarrow> string list \<times> string list \<Rightarrow> config_error + string list \<times> string list" where
  "checkIssuer = (\<lambda>(i, iss) (names, urls).
     let loc = ''issuers['' @ itoa (int i) @ '']'' in
     res_bind (res_check (is_name iss \<noteq> []) [loc, ''name is required'']) (\<lambda>_.
     res_bind (res_check (is_name iss \<notin> set names) [loc, ''duplicate issuer name'', is_name iss]) (\<lambda>_.
     res_bind (res_check (is_issuer iss \<noteq> []) [loc, is_name iss, ''issuer URL is required'']) (\<lambda>_.
     res_bind (res_check (is_issuer iss \<notin> set urls) [loc, is_name iss, ''duplicate issuer URL'']) (\<lambda>_.
     res_bind (checkHTTPURL (loc @ ''.issuer'') (is_issuer iss)) (\<lambda>_.
     res_bind (if is_jwks_uri iss \<noteq> [] then checkHTTPURL (loc @ ''.jwks_uri'') (is_jwks_uri iss) else Inr ()) (\<lambda>_.
     res_bind (res_check (is_audiences iss \<noteq> []) [loc, is_name iss, ''audiences must not be empty'']) (\<lambda>_.
       Inr (is_name iss # names, is_issuer iss # urls)))))))))"

definition checkAlg :: "string \<Rightarrow> unit \<Rightarrow> config_error + unit" where
  "checkAlg alg u = res_check (alg \<in> set supportedSigningAlgs) [''security.allowed_signing_algs'', alg]"

definition validate :: "(string \<Rightarrow> (string \<Rightarrow> bool) option) \<Rightarrow> config \<Rightarrow> config_error + config" where
  "validate compile c =
     (res_bind (res_check (uc_s3_endpoint (cf_upstream c) \<noteq> []) [''upstream.s3_endpoint is required'']) (\<lambda>_.
      res_bind (checkHTTPURL ''upstream.s3_endpoint'' (uc_s3_endpoint (cf_upstream c))) (\<lambda>_.
      res_bind (res_check (uc_forward_mode (cf_upstream c) \<in> {ForwardModeRewrite, ForwardModeResign})
          [''upstream.forward_mode'', uc_forward_mode (cf_upstream c), ''not supported'']) (\<lambda>_.
      res_bind (checkStore (cf_credential_store c)) (\<lambda>_.
      res_bind (res_check (cf_issuers c \<noteq> []) [''at least one issuer must be configured'']) (\<lambda>_.
      res_bind (res_fold checkIssuer (enumerate 0 (cf_issuers c)) ([], [])) (\<lambda>_.
      res_bind (res_check (0 < sc_max_duration (cf_sts c)) [''sts.max_duration must be positive'']) (\<lambda>_.
      res_bind (res_check (0 < se_clock_skew (cf_security c)) [''security.sigv4_clock_skew must be positive'']) (\<lambda>_.
      res_bind (res_fold checkAlg (se_allowed_signing_algs (cf_security c)) ()) (\<lambda>_.
        (case compile (up_pattern (cf_username_policy c)) of
           None \<Rightarrow> Inl [''username_policy.pattern'']
         | Some re \<Rightarrow>
             Inr (c\<lparr>cf_username_policy := (cf_username_policy c)\<lparr>up_regex := Some re\<rparr>\<rparr>))))))))))))"

text \<open>\<open>Parse\<close>, for a decoder \<open>decode\<close> of the YAML document.\<close>

definition parse_config ::
  "(string \<Rightarrow> config_error + config) \<Rightarrow> (string \<Rightarrow> (string \<Rightarrow> bool) option) \<Rightarrow> (string \<Rightarrow> string) \<Rightarrow>
   string \<Rightarrow> config_error + config" where
  "parse_config decode compile env raw =
     res_bind (decode raw) (\<lambda>c. validate compile (applyDefaults (applyEnv env c)))"

section \<open>The default username policy\<close>

text \<open>What the default pattern matches: one to 64 letters, digits and the four other
  characters.\<close>

definition default_username :: "string \<Rightarrow> bool" where
  "default_username s \<longleftrightarrow> s \<noteq> [] \<and> length s \<le> 64 \<and>
     list_all (\<lambda>c. is_alnum c \<or> c \<in> set ''._@-'') s"

section \<open>What a validated configuration satisfies\<close>

definition issuer_ok :: "issuer \<Rightarrow> bool" where
  "issuer_ok iss \<longleftrightarrow> is_name iss \<noteq> [] \<and> is_issuer iss \<noteq> [] \<and> is_audiences iss \<noteq> [] \<and>
     (\<exists>u. url_parse (is_issuer iss) = Some u \<and> u_scheme u \<in> {''http'', ''https''} \<and> u_host u \<noteq> [])"

definition config_ok :: "config \<Rightarrow> bool" where
  "config_ok c \<longleftrightarrow>
     (\<exists>u. url_parse (uc_s3_endpoint (cf_upstream c)) = Some u \<and> u_scheme u \<in> {''http'', ''https''} \<and> u_host u \<noteq> []) \<and>
     uc_forward_mode (cf_upstream c) \<in> {ForwardModeRewrite, ForwardModeResign} \<and>
     cs_type (cf_credential_store c) \<in> {StoreMemory, StoreValkey} \<and>
     cf_issuers c \<noteq> [] \<and> (\<forall>iss \<in> set (cf_issuers c). issuer_ok iss) \<and>
     distinct (map is_name (cf_issuers c)) \<and> distinct (map is_issuer (cf_issuers c)) \<and>
     0 < sc_max_duration (cf_sts c) \<and> 0 < se_clock_skew (cf_security c) \<and>
     set (se_allowed_signing_algs (cf_security c)) \<subseteq> set supportedSigningAlgs \<and>
     up_regex (cf_username_policy c) \<noteq> None"

lemma checkHTTPURL_Inr_iff [res_iff]:
  "checkHTTPURL f raw = Inr u \<longleftrightarrow>
   (\<exists>x. url_parse raw = Some x \<and> u_scheme x \<in> {''http'', ''https''} \<and> u_host x \<noteq> [])"
  by (auto simp: checkHTTPURL_def split: option.splits)

lemma checkIssuer_Inr_iff [res_iff]:
  "checkIssuer (i, iss) (ns, us) = Inr p \<longleftrightarrow>
     issuer_ok iss \<and> is_name iss \<notin> set ns \<and> is_issuer iss \<notin> set us \<and>
     (is_jwks_uri iss \<noteq> [] \<longrightarrow> (\<exists>x. url_parse (is_jwks_uri iss) = Some x \<and>
        u_scheme x \<in> {''http'', ''https''} \<and> u_host x \<noteq> [])) \<and>
     p = (is_name iss # ns, is_issuer iss # us)"
  by (auto simp: checkIssuer_def res_iff issuer_ok_def Let_def split: if_splits)

lemma checkIssuers_ok:
  "res_fold checkIssuer (enumerate k isss) (ns, us) = Inr p \<Longrightarrow>
   (\<forall>iss \<in> set isss. issuer_ok iss \<and> is_name iss \<notin> set ns \<and> is_issuer iss \<notin> set us) \<and>
   distinct (map is_name isss) \<and> distinct (map is_issuer isss)"
proof (induction isss arbitrary: k ns us)
  case (Cons iss isss)
  then have "issuer_ok iss" "is_name iss \<notin> set ns" "is_issuer iss \<notin> set us"
    and "res_fold checkIssuer (enumerate (Suc k) isss) (is_name iss # ns, is_issuer iss # us) = Inr p"
    by (auto simp: res_iff)
  with Cons.IH show ?case by fastforce
qed simp

lemma checkAlgs_ok: "res_fold checkAlg algs u = Inr v \<Longrightarrow> set algs \<subseteq> set supportedSigningAlgs"
  by (induction algs arbitrary: u) (auto simp: res_iff checkAlg_def)

lemma checkStore_ok: "checkStore cs = Inr u \<Longrightarrow> cs_type cs \<in> {StoreMemory, StoreValkey}"
  by (auto simp: checkStore_def split: if_splits)

lemma validate_ok:
  assumes "validate compile c = Inr c'"
  shows "config_ok c'"
proof -
  from assms obtain p v w re where
    s: "\<exists>u. url_parse (uc_s3_endpoint (cf_upstream c)) = Some u \<and> u_scheme u \<in> {''http'', ''https''} \<and> u_host u \<noteq> []"
    and f: "uc_forward_mode (cf_upstream c) \<in> {ForwardModeRewrite, ForwardModeResign}"
    and st: "checkStore (cf_credential_store c) = Inr w" and ne: "cf_issuers c \<noteq> []"
    and iss: "res_fold checkIssuer (enumerate 0 (cf_issuers c)) ([], []) = Inr p"
    and pos: "0 < sc_max_duration (cf_sts c)" "0 < se_clock_skew (cf_security c)"
    and alg: "res_fold checkAlg (se_allowed_signing_algs (cf_security c)) () = Inr v"
    and c': "c' = c\<lparr>cf_username_policy := (cf_username_policy c)\<lparr>up_regex := Some re\<rparr>\<rparr>"
    unfolding validate_def by (auto simp: res_iff split: option.splits)
  show ?thesis
    unfolding config_ok_def c'
    using s f checkStore_ok [OF st] ne checkIssuers_ok [OF iss] pos checkAlgs_ok [OF alg] by simp
qed

lemma default_username_scope:
  "default_username s \<Longrightarrow> s \<noteq> [] \<and> list_all (\<lambda>c. graphic c \<and> c \<noteq> CHR '','' \<and> c \<noteq> CHR ''/'' \<and> c \<noteq> CHR ''$'') s"
  by (auto simp: default_username_def list_all_iff graphic_def char_class_defs)

text \<open>What the defaults add: no setting that has one is left empty.\<close>

definition defaults_ok :: "config \<Rightarrow> bool" where
  "defaults_ok c \<longleftrightarrow>
     cf_listen c \<noteq> [] \<and> cf_admin_listen c \<noteq> [] \<and> se_region (cf_security c) \<noteq> [] \<and>
     se_allowed_signing_algs (cf_security c) \<noteq> [] \<and> cs_valkey_key_env (cf_credential_store c) \<noteq> [] \<and>
     up_pattern (cf_username_policy c) \<noteq> [] \<and> (\<forall>iss \<in> set (cf_issuers c). is_username_claim iss \<noteq> [])"

lemma default_string_nonempty: "d \<noteq> [] \<Longrightarrow> default_string d v \<noteq> []"
  by (simp add: default_string_def)

lemma applyDefaults_ok: "defaults_ok (applyDefaults c)"
  by (auto simp: defaults_ok_def applyDefaults_def issuer_defaults_def default_string_nonempty defaultPattern_def)

lemma validate_keeps:
  "validate compile c = Inr c' \<Longrightarrow> defaults_ok c' = defaults_ok c \<and> cf_data_path c' = cf_data_path c \<and>
     cf_upstream c' = cf_upstream c \<and>
     (cs_type (cf_credential_store c') = StoreValkey \<longrightarrow> cs_valkey_addr (cf_credential_store c') \<noteq> []) \<and>
     up_regex (cf_username_policy c') = compile (up_pattern (cf_username_policy c'))"
  unfolding validate_def
  by (auto simp: res_iff defaults_ok_def checkStore_def StoreMemory_def StoreValkey_def split: option.splits if_splits)


definition demo_document :: config where
  "demo_document = \<lparr>cf_listen = [], cf_admin_listen = [],
     cf_upstream = \<lparr>uc_s3_endpoint = ''http://s3g:9878'', uc_forward_mode = []\<rparr>,
     cf_data_path = \<lparr>dp_accept_bearer = None, dp_strict = None\<rparr>,
     cf_issuers = [\<lparr>is_name = ''kc'', is_issuer = ''https://idp'', is_jwks_uri = [], is_audiences = [''ozone''],
       is_username_claim = []\<rparr>],
     cf_sts = \<lparr>sc_max_duration = 0, sc_role_arn_allowlist = []\<rparr>,
     cf_credential_store = \<lparr>cs_type = [], cs_valkey_addr = [], cs_valkey_key_env = []\<rparr>,
     cf_security = \<lparr>se_clock_skew = 0, se_allowed_signing_algs = [], se_region = []\<rparr>,
     cf_username_policy = \<lparr>up_pattern = [], up_regex = None\<rparr>\<rparr>"

definition override_env :: "string \<Rightarrow> string" where
  "override_env k = (if k = ''OZPX_STRICT'' then ''false'' else [])"


text \<open>An override that is not a Boolean for \<open>strconv.ParseBool\<close>, \<open>yes\<close> for example, is dropped without an
  error: the setting of the document stays.\<close>

lemma unreadable_override_dropped:
  "parse_bool ''yes'' = None"
  "parse_bool (env ''OZPX_STRICT'') = None \<Longrightarrow> dp_strict (cf_data_path (applyEnv env c)) = dp_strict (cf_data_path c)"
  by (code_simp, simp add: applyEnv_def env_bool_def)

end
