(* ===== verification/Go_Json.thy ===== *)
theory Go_Json
  imports Go_Time Go_Utf8
begin

text \<open>
  What the program uses of Go's package \<open>encoding/json\<close>. Encoding a
  string escapes it as \<open>json.Marshal\<close> does (HTML characters included). Decoding goes through
  tokens and an explicit stack, as the library's scanner does: a document is read to the end
  (\<open>json_unmarshal\<close>) or up to its first value (\<open>json_decode\<close>, a \<open>json.Decoder\<close>), and the
  values are then stored into the fields of a struct. Strings stay in their escaped form until
  a field needs them, because \<open>time.Time\<close> reads the text between the quotes as it stands.

  A number token ends where the digits end; two values without a comma between them are
  refused by the grammar of tokens, so \<open>01\<close> and \<open>1true\<close> are refused as they are in Go.
\<close>

section \<open>Encoding strings\<close>

text \<open>The escapes of \<open>appendString\<close> with \<open>escapeHTML\<close> set.\<close>

definition json_escape_ascii :: "char \<Rightarrow> string" where
  "json_escape_ascii c =
     (if c = CHR 0x5C \<or> c = CHR 0x22 then [CHR 0x5C, c]
      else if c = CHR 0x08 then [CHR 0x5C, CHR ''b'']
      else if c = CHR 0x0C then [CHR 0x5C, CHR ''f'']
      else if c = CHR 0x0A then [CHR 0x5C, CHR ''n'']
      else if c = CHR 0x0D then [CHR 0x5C, CHR ''r'']
      else if c = CHR 0x09 then [CHR 0x5C, CHR ''t'']
      else if ord c < 32 \<or> c = CHR ''<'' \<or> c = CHR ''>'' \<or> c = CHR ''&'' then
        [CHR 0x5C, CHR ''u'', CHR ''0'', CHR ''0'', hex_lower (ord c div 16), hex_lower (ord c mod 16)]
      else [c])"

text \<open>U+2028 and U+2029 are escaped, bytes that are not UTF-8 become U+FFFD.\<close>

definition escape_rune :: "string \<Rightarrow> string" where
  "escape_rune r =
     (if r = utf8_encode 8232 then CHR 0x5C # ''u2028''
      else if r = utf8_encode 8233 then CHR 0x5C # ''u2029''
      else r)"

function json_escape :: "string \<Rightarrow> string" where
  "json_escape [] = []"
| "json_escape (c # s) =
     (if ord c < 128 then json_escape_ascii c @ json_escape s
      else if utf8_len (c # s) = 0 then (CHR 0x5C # ''ufffd'') @ json_escape s
      else escape_rune (take (utf8_len (c # s)) (c # s)) @ json_escape (drop (utf8_len (c # s)) (c # s)))"
  by pat_completeness auto
termination
  by (relation "measure length") (auto simp del: utf8_len.simps)

definition json_string :: "string \<Rightarrow> string" where
  "json_string s = CHR 0x22 # json_escape s @ [CHR 0x22]"

text \<open>A struct whose fields are all written as strings: names and the escaped text of the values.\<close>

definition json_member :: "string \<times> string \<Rightarrow> string" where
  "json_member p = (case p of (k, raw) \<Rightarrow> json_string k @ CHR '':'' # CHR 0x22 # raw @ [CHR 0x22])"

definition json_object :: "(string \<times> string) list \<Rightarrow> string" where
  "json_object ms = CHR ''{'' # join '','' (map json_member ms) @ ''}''"

section \<open>Tokens\<close>

datatype json_token =
    TLBrace | TRBrace | TLBrack | TRBrack | TColon | TComma
  | TStr string
  | TNum string
  | TWord string
  | TBad

definition is_hex :: "char \<Rightarrow> bool" where
  "is_hex c \<longleftrightarrow> unhex c \<noteq> None"

text \<open>The states of the scanner inside a string literal: in the text, after a backslash, and
  with some digits of a hexadecimal escape to come.\<close>

datatype str_state = InString | InEscape | InHex nat

definition str_step :: "str_state \<Rightarrow> char \<Rightarrow> str_state option" where
  "str_step k c = (case k of
     InString \<Rightarrow> if c = CHR 0x5C then Some InEscape else if ord c < 32 then None else Some InString
   | InEscape \<Rightarrow>
       if c \<in> {CHR 0x22, CHR 0x5C, CHR ''/'', CHR ''b'', CHR ''f'', CHR ''n'', CHR ''r'', CHR ''t''}
       then Some InString
       else if c = CHR ''u'' then Some (InHex 3)
       else None
   | InHex n \<Rightarrow> if \<not> is_hex c then None else if n = 0 then Some InString else Some (InHex (n - 1)))"

text \<open>The rest of a string literal after its opening quote: the text up to the closing quote,
  and what follows it.\<close>

fun scan_str :: "str_state \<Rightarrow> string \<Rightarrow> (string \<times> string) option" where
  "scan_str k [] = None"
| "scan_str k (c # s) =
     (if k = InString \<and> c = CHR 0x22 then Some ([], s)
      else case str_step k c of
        None \<Rightarrow> None
      | Some k' \<Rightarrow> map_option (\<lambda>(r, t). (c # r, t)) (scan_str k' s))"

text \<open>A number literal: integer part without leading zeros, fraction, exponent.\<close>

definition scan_int :: "string \<Rightarrow> (string \<times> string) option" where
  "scan_int s = (case s of
     [] \<Rightarrow> None
   | c # r \<Rightarrow> if c = CHR ''0'' then Some ([c], r)
       else if is_digit c then Some (takeWhile is_digit s, dropWhile is_digit s)
       else None)"

definition scan_digits :: "string \<Rightarrow> (string \<times> string) option" where
  "scan_digits s = (if takeWhile is_digit s = [] then None else Some (takeWhile is_digit s, dropWhile is_digit s))"

definition scan_frac :: "string \<Rightarrow> (string \<times> string) option" where
  "scan_frac s = (case s of
     c # r \<Rightarrow> if c = CHR ''.'' then map_option (\<lambda>(d, t). (c # d, t)) (scan_digits r) else Some ([], s)
   | [] \<Rightarrow> Some ([], s))"

definition scan_exp :: "string \<Rightarrow> (string \<times> string) option" where
  "scan_exp s = (case s of
     c # r \<Rightarrow>
       if c = CHR ''e'' \<or> c = CHR ''E'' then
         (case r of
            g # r' \<Rightarrow>
              if g = CHR ''+'' \<or> g = CHR ''-'' then map_option (\<lambda>(d, t). (c # g # d, t)) (scan_digits r')
              else map_option (\<lambda>(d, t). (c # d, t)) (scan_digits r)
          | [] \<Rightarrow> None)
       else Some ([], s)
   | [] \<Rightarrow> Some ([], s))"

definition scan_num :: "string \<Rightarrow> (string \<times> string) option" where
  "scan_num s = do {
     let neg = (s \<noteq> [] \<and> hd s = CHR ''-'');
     (i, s1) \<leftarrow> scan_int (if neg then tl s else s);
     (f, s2) \<leftarrow> scan_frac s1;
     (e, s3) \<leftarrow> scan_exp s2;
     Some ((if neg then [CHR ''-''] else []) @ i @ f @ e, s3)
   }"

definition json_space :: "char \<Rightarrow> bool" where
  "json_space c \<longleftrightarrow> ord c \<in> {9, 10, 13, 32}"

definition next_token :: "char \<Rightarrow> string \<Rightarrow> (json_token \<times> string) option" where
  "next_token c s =
     (if c = CHR ''{'' then Some (TLBrace, s)
      else if c = CHR ''}'' then Some (TRBrace, s)
      else if c = CHR ''['' then Some (TLBrack, s)
      else if c = CHR '']'' then Some (TRBrack, s)
      else if c = CHR '':'' then Some (TColon, s)
      else if c = CHR '','' then Some (TComma, s)
      else if c = CHR 0x22 then map_option (\<lambda>(r, t). (TStr r, t)) (scan_str InString s)
      else if has_prefix ''true'' (c # s) then Some (TWord ''true'', drop 3 s)
      else if has_prefix ''false'' (c # s) then Some (TWord ''false'', drop 4 s)
      else if has_prefix ''null'' (c # s) then Some (TWord ''null'', drop 3 s)
      else map_option (\<lambda>(n, t). (TNum n, t)) (scan_num (c # s)))"

lemma scan_str_length: "scan_str k s = Some (r, t) \<Longrightarrow> length t < length s"
  by (induction k s arbitrary: r t rule: scan_str.induct)
    (fastforce split: if_splits option.splits)+

lemma scan_int_length: "scan_int s = Some (r, t) \<Longrightarrow> length t < length s"
  by (auto simp: scan_int_def le_imp_less_Suc length_dropWhile_le split: list.splits if_splits)

lemma scan_digits_length: "scan_digits s = Some (r, t) \<Longrightarrow> length t \<le> length s"
  by (auto simp: scan_digits_def length_dropWhile_le split: if_splits)

lemma scan_frac_length: "scan_frac s = Some (r, t) \<Longrightarrow> length t \<le> length s"
  by (auto simp: scan_frac_def split: list.splits if_splits dest!: scan_digits_length)

lemma scan_exp_length: "scan_exp s = Some (r, t) \<Longrightarrow> length t \<le> length s"
  by (auto simp: scan_exp_def split: list.splits if_splits dest!: scan_digits_length)

lemma scan_num_length: "scan_num s = Some (r, t) \<Longrightarrow> length t < length s"
  by (cases s)
    (auto simp: scan_num_def Let_def bind_eq_Some_conv split: if_splits
      dest!: scan_int_length scan_frac_length scan_exp_length)

lemma next_token_length: "next_token c s = Some (t, r) \<Longrightarrow> length r \<le> length s"
  by (auto simp: next_token_def split: if_splits dest!: scan_str_length scan_num_length)

text \<open>A malformed literal ends the tokens with \<open>TBad\<close>.\<close>

function json_tokens :: "string \<Rightarrow> json_token list" where
  "json_tokens [] = []"
| "json_tokens (c # s) =
     (if json_space c then json_tokens s
      else case next_token c s of None \<Rightarrow> [TBad] | Some (t, r) \<Rightarrow> t # json_tokens r)"
  by pat_completeness auto
termination
  by (relation "measure length") (auto dest: next_token_length simp: le_imp_less_Suc)

section \<open>Values\<close>

datatype json =
    JNull
  | JBool bool
  | JNum string
  | JStr string
  | JArr "json list"
  | JObj "(string \<times> json) list"

text \<open>The stack of open arrays and objects. An object holds its members so far; the key whose
  value is being read is in the mode \<open>MColon\<close> or in the frame below the value.\<close>

datatype frame =
    InArr "json list"
  | InObj "(string \<times> json) list"
  | InMember "(string \<times> json) list" string

datatype mode =
    MValue
  | MValueOrEnd
  | MKey
  | MKeyOrEnd
  | MColon string
  | MAfter

datatype parse_state =
    Reading mode "frame list"
  | Complete json

definition maxNestingDepth :: nat where "maxNestingDepth = 10000"

fun deliver :: "json \<Rightarrow> frame list \<Rightarrow> parse_state" where
  "deliver v [] = Complete v"
| "deliver v (InArr vs # st) = Reading MAfter (InArr (vs @ [v]) # st)"
| "deliver v (InMember ms k # st) = Reading MAfter (InObj (ms @ [(k, v)]) # st)"
| "deliver v (InObj ms # st) = Reading MAfter (InObj ms # st)"

definition open_frame :: "mode \<Rightarrow> frame \<Rightarrow> frame list \<Rightarrow> parse_state option" where
  "open_frame m f st = (if length st < maxNestingDepth then Some (Reading m (f # st)) else None)"

definition value_step :: "frame list \<Rightarrow> json_token \<Rightarrow> parse_state option" where
  "value_step st t = (case t of
     TLBrace \<Rightarrow> open_frame MKeyOrEnd (InObj []) st
   | TLBrack \<Rightarrow> open_frame MValueOrEnd (InArr []) st
   | TStr r \<Rightarrow> Some (deliver (JStr r) st)
   | TNum n \<Rightarrow> Some (deliver (JNum n) st)
   | TWord w \<Rightarrow> Some (deliver (if w = ''null'' then JNull else JBool (w = ''true'')) st)
   | _ \<Rightarrow> None)"

fun json_step :: "mode \<Rightarrow> frame list \<Rightarrow> json_token \<Rightarrow> parse_state option" where
  "json_step MValue st t = value_step st t"
| "json_step MValueOrEnd st t = (case (t, st) of
     (TRBrack, InArr vs # st') \<Rightarrow> Some (deliver (JArr vs) st')
   | _ \<Rightarrow> value_step st t)"
| "json_step MKey st t = (case t of TStr k \<Rightarrow> Some (Reading (MColon k) st) | _ \<Rightarrow> None)"
| "json_step MKeyOrEnd st t = (case (t, st) of
     (TStr k, _) \<Rightarrow> Some (Reading (MColon k) st)
   | (TRBrace, InObj ms # st') \<Rightarrow> Some (deliver (JObj ms) st')
   | _ \<Rightarrow> None)"
| "json_step (MColon k) st t = (case (t, st) of
     (TColon, InObj ms # st') \<Rightarrow> Some (Reading MValue (InMember ms k # st'))
   | _ \<Rightarrow> None)"
| "json_step MAfter st t = (case (t, st) of
     (TComma, InArr vs # st') \<Rightarrow> Some (Reading MValue st)
   | (TComma, InObj ms # st') \<Rightarrow> Some (Reading MKey st)
   | (TRBrack, InArr vs # st') \<Rightarrow> Some (deliver (JArr vs) st')
   | (TRBrace, InObj ms # st') \<Rightarrow> Some (deliver (JObj ms) st')
   | _ \<Rightarrow> None)"

fun json_run :: "parse_state \<Rightarrow> json_token list \<Rightarrow> (json \<times> json_token list) option" where
  "json_run (Complete v) ts = Some (v, ts)"
| "json_run (Reading m st) [] = None"
| "json_run (Reading m st) (t # ts) =
     (case json_step m st t of None \<Rightarrow> None | Some p \<Rightarrow> json_run p ts)"

text \<open>\<open>json.Unmarshal\<close> (the whole input is one value) and \<open>json.Decoder.Decode\<close> (its first
  value).\<close>

definition json_unmarshal :: "string \<Rightarrow> json option" where
  "json_unmarshal s = (case json_run (Reading MValue []) (json_tokens s) of
     Some (v, []) \<Rightarrow> Some v
   | _ \<Rightarrow> None)"

definition json_decode :: "string \<Rightarrow> json option" where
  "json_decode s = map_option fst (json_run (Reading MValue []) (json_tokens s))"

section \<open>Decoding strings\<close>

definition hex4 :: "string \<Rightarrow> nat option" where
  "hex4 s = (case s of
     [a, b, c, d] \<Rightarrow> (case (unhex a, unhex b, unhex c, unhex d) of
        (Some w, Some x, Some y, Some z) \<Rightarrow> Some (((w * 16 + x) * 16 + y) * 16 + z)
      | _ \<Rightarrow> None)
   | _ \<Rightarrow> None)"

text \<open>\<open>getu4\<close>: the value of the hexadecimal escape at the head.\<close>

definition getu4 :: "string \<Rightarrow> nat option" where
  "getu4 s = (if take 2 s = [CHR 0x5C, CHR ''u''] then hex4 (take 4 (drop 2 s)) else None)"

definition is_surrogate :: "nat \<Rightarrow> bool" where
  "is_surrogate r \<longleftrightarrow> 55296 \<le> r \<and> r < 57344"

text \<open>\<open>utf16.DecodeRune\<close>; \<open>None\<close> stands for the replacement character.\<close>

definition surrogate_pair :: "nat \<Rightarrow> nat option \<Rightarrow> nat option" where
  "surrogate_pair r1 m = (case m of
     Some r2 \<Rightarrow> if 55296 \<le> r1 \<and> r1 < 56320 \<and> 56320 \<le> r2 \<and> r2 < 57344
       then Some ((r1 - 55296) * 1024 + (r2 - 56320) + 65536) else None
   | None \<Rightarrow> None)"

definition unescape_char :: "char \<Rightarrow> char" where
  "unescape_char e =
     (if e = CHR ''b'' then CHR 0x08 else if e = CHR ''f'' then CHR 0x0C
      else if e = CHR ''n'' then CHR 0x0A else if e = CHR ''r'' then CHR 0x0D
      else if e = CHR ''t'' then CHR 0x09 else e)"

text \<open>\<open>unquote\<close> on the text of a scanned string literal. The head gives what it decodes to and
  the number of bytes it takes.\<close>

definition unquote_head :: "char \<Rightarrow> string \<Rightarrow> string \<times> nat" where
  "unquote_head c s =
     (if c = CHR 0x5C then
        (case getu4 (c # s) of
           Some r \<Rightarrow>
             if is_surrogate r then
               (case surrogate_pair r (getu4 (drop 5 s)) of
                  Some d \<Rightarrow> (utf8_encode d, 12)
                | None \<Rightarrow> (replacement_char, 6))
             else (utf8_encode r, 6)
         | None \<Rightarrow> (case s of e # _ \<Rightarrow> ([unescape_char e], 2) | [] \<Rightarrow> ([], 1)))
      else if ord c < 128 then ([c], 1)
      else if utf8_len (c # s) = 0 then (replacement_char, 1)
      else (take (utf8_len (c # s)) (c # s), utf8_len (c # s)))"

lemma unquote_head_pos: "0 < snd (unquote_head c s)"
  by (auto simp: unquote_head_def simp del: utf8_len.simps split: option.splits list.splits)

function unquote :: "string \<Rightarrow> string" where
  "unquote [] = []"
| "unquote (c # s) = fst (unquote_head c s) @ unquote (drop (snd (unquote_head c s)) (c # s))"
  by pat_completeness auto
termination
proof (relation "measure length")
  fix c s
  show "(drop (snd (unquote_head c s)) (c # s), c # s) \<in> measure length"
    using unquote_head_pos [of c s] by simp
qed simp

section \<open>Storing into a struct\<close>

text \<open>
  A member belongs to the field whose name it equals up to case; the fields of the structs here
  differ from each other even so. Besides the ASCII letters, the Kelvin sign folds to \<open>K\<close> and
  the long s to \<open>S\<close>; no other rune folds to a letter of a field name.
\<close>

fun fold_name :: "string \<Rightarrow> string" where
  "fold_name [] = []"
| "fold_name (c # s) =
     (if take 3 (c # s) = utf8_encode 8490 then CHR ''K'' # fold_name (drop 2 s)
      else if take 2 (c # s) = utf8_encode 383 then CHR ''S'' # fold_name (drop 1 s)
      else upper_char c # fold_name s)"

definition same_field :: "string \<Rightarrow> string \<Rightarrow> bool" where
  "same_field k f \<longleftrightarrow> fold_name k = fold_name f"

text \<open>The members of the document a struct is decoded from, with their keys decoded; null
  leaves the struct alone, any other value is a type error.\<close>

definition json_members :: "json \<Rightarrow> (string \<times> json) list option" where
  "json_members v = (case v of
     JObj ms \<Rightarrow> Some (map (\<lambda>(k, x). (unquote k, x)) ms)
   | JNull \<Rightarrow> Some []
   | _ \<Rightarrow> None)"

text \<open>A field takes its members in order, each overwriting the one before; a value of another
  type is an error, null is ignored.\<close>

fun json_field :: "(json \<Rightarrow> 'a option) \<Rightarrow> string \<Rightarrow> (string \<times> json) list \<Rightarrow> 'a \<Rightarrow> 'a option" where
  "json_field conv f [] cur = Some cur"
| "json_field conv f ((k, v) # ms) cur =
     (if same_field k f \<and> v \<noteq> JNull then
        (case conv v of Some x \<Rightarrow> json_field conv f ms x | None \<Rightarrow> None)
      else json_field conv f ms cur)"

definition to_string :: "json \<Rightarrow> string option" where
  "to_string v = (case v of JStr r \<Rightarrow> Some (unquote r) | _ \<Rightarrow> None)"

definition to_int :: "json \<Rightarrow> int option" where
  "to_int v = (case v of JNum n \<Rightarrow> atoi n | _ \<Rightarrow> None)"

section \<open>Decoding what was encoded\<close>

text \<open>A run of the scanner over a text that holds no closing quote.\<close>

fun run_str :: "str_state \<Rightarrow> string \<Rightarrow> str_state option" where
  "run_str k [] = Some k"
| "run_str k (c # s) =
     (if k = InString \<and> c = CHR 0x22 then None
      else case str_step k c of None \<Rightarrow> None | Some k' \<Rightarrow> run_str k' s)"

lemma run_str_append: "run_str k (s @ t) = (case run_str k s of None \<Rightarrow> None | Some k' \<Rightarrow> run_str k' t)"
  by (induction k s rule: run_str.induct) (auto split: option.splits)

lemma scan_str_run:
  "run_str k s = Some k' \<Longrightarrow> scan_str k (s @ t) = map_option (\<lambda>(r, u). (s @ r, u)) (scan_str k' t)"
  by (induction k s rule: run_str.induct)
    (auto split: if_splits option.splits simp: option.map_comp comp_def split_def option.map_ident)

definition scannable :: "string \<Rightarrow> bool" where
  "scannable s \<longleftrightarrow> run_str InString s = Some InString"

lemma scan_scannable: "scannable s \<Longrightarrow> scan_str InString (s @ CHR 0x22 # t) = Some (s, t)"
  using scan_str_run [of InString s InString "CHR 0x22 # t"] by (simp add: scannable_def)

lemma scannable_append: "scannable s \<Longrightarrow> scannable t \<Longrightarrow> scannable (s @ t)"
  by (simp add: scannable_def run_str_append)

lemma scannable_plain:
  "\<forall>c \<in> set s. 32 \<le> ord c \<and> c \<noteq> CHR 0x22 \<and> c \<noteq> CHR 0x5C \<Longrightarrow> scannable s"
  unfolding scannable_def by (induction s) (auto simp: str_step_def)

lemma is_hex_hex_lower: "n < 16 \<Longrightarrow> is_hex (hex_lower n)"
  by (simp add: is_hex_def unhex_hex_lower)

lemma scannable_json_escape_ascii: "scannable (json_escape_ascii c)"
proof -
  have "is_hex (CHR ''0'')" by code_simp
  then show ?thesis
    using is_hex_hex_lower nibble_bounds [of c]
    by (simp add: scannable_def json_escape_ascii_def str_step_def)
qed

lemma scannable_escape_rune: "\<forall>x \<in> set r. 128 \<le> ord x \<Longrightarrow> scannable (escape_rune r)"
proof -
  assume "\<forall>x \<in> set r. 128 \<le> ord x"
  then have "scannable r" by (intro scannable_plain) (auto simp: Ball_def)
  moreover have "scannable (CHR 0x5C # ''u2028'')" "scannable (CHR 0x5C # ''u2029'')" by code_simp+
  ultimately show ?thesis by (simp add: escape_rune_def)
qed

lemma scannable_json_escape: "scannable (json_escape s)"
proof (induction s rule: json_escape.induct)
  case 1
  show ?case by (simp add: scannable_def)
next
  case (2 c s)
  have bad: "scannable (CHR 0x5C # ''ufffd'')" by code_simp
  have "ord c < 128 \<or> scannable (escape_rune (take (utf8_len (c # s)) (c # s)))"
    using utf8_head_high [of c _ s] by (cases "ord c < 128") (auto intro!: scannable_escape_rune)
  then show ?case
    using 2 bad by (auto simp del: utf8_len.simps append.simps intro!: scannable_append scannable_json_escape_ascii)
qed

lemma hex4_low:
  assumes "n < 256"
  shows "hex4 [CHR ''0'', CHR ''0'', hex_lower (n div 16), hex_lower (n mod 16)] = Some n"
proof -
  have "unhex (CHR ''0'') = Some 0" by code_simp
  moreover have "unhex (hex_lower (n div 16)) = Some (n div 16)" using assms by (intro unhex_hex_lower) simp
  moreover have "unhex (hex_lower (n mod 16)) = Some (n mod 16)" by (intro unhex_hex_lower) simp
  ultimately show ?thesis by (simp add: hex4_def)
qed

lemma unquote_step:
  "unquote_head c s = (x, n) \<Longrightarrow> unquote (c # s) = x @ unquote (drop n (c # s))"
  by simp

lemma unquote_json_escape_ascii:
  assumes "ord c < 128"
  shows "unquote (json_escape_ascii c @ t) = c # unquote t"
proof -
  define u where "u = [CHR 0x5C, CHR ''u'', CHR ''0'', CHR ''0'', hex_lower (ord c div 16), hex_lower (ord c mod 16)]"
  have "getu4 (u @ t) = Some (ord c)"
    using hex4_low [of "ord c"] by (simp add: getu4_def u_def)
  then have u: "unquote (u @ t) = c # unquote t"
    using assms by (simp add: u_def unquote_head_def is_surrogate_def utf8_encode_def)
  have e: "unquote (CHR 0x5C # e # t) = unescape_char e # unquote t" if "e \<noteq> CHR ''u''" for e
    using that by (simp add: unquote_head_def getu4_def)
  have c: "c \<noteq> CHR 0x5C \<Longrightarrow> unquote (c # t) = c # unquote t"
    using assms by (simp add: unquote_head_def)
  show ?thesis
  proof (cases "c \<in> {CHR 0x5C, CHR 0x22, CHR 0x08, CHR 0x09, CHR 0x0A, CHR 0x0C, CHR 0x0D}")
    case True
    then show ?thesis
      by (elim insertE emptyE) (simp_all add: json_escape_ascii_def e unescape_char_def del: unquote.simps(2))
  next
    case False
    then have "json_escape_ascii c = (if ord c < 32 \<or> c = CHR ''<'' \<or> c = CHR ''>'' \<or> c = CHR ''&'' then u else [c])"
      by (simp add: json_escape_ascii_def u_def)
    then show ?thesis using u c False by (simp del: unquote.simps(2))
  qed
qed

lemma unquote_rune:
  assumes "128 \<le> ord c" "0 < utf8_len (c # s)"
  shows "unquote (escape_rune (take (utf8_len (c # s)) (c # s)) @ t) = take (utf8_len (c # s)) (c # s) @ unquote t"
proof -
  define r where "r = take (utf8_len (c # s)) (c # s)"
  obtain r' where r': "r = c # r'" using assms(2) by (cases "utf8_len (c # s)") (auto simp: r_def)
  have len: "utf8_len (r @ t) = length r"
    using utf8_len_take [OF assms(2)] utf8_len_le [of "c # s"] by (simp add: r_def del: utf8_len.simps)
  have plain: "unquote (r @ t) = r @ unquote t"
    using len assms(1) r' by (auto simp: unquote_head_def simp del: utf8_len.simps)
  have "hex4 ''2028'' = Some 8232" "hex4 ''2029'' = Some 8233" by code_simp+
  then have "unquote ((CHR 0x5C # ''u2028'') @ t) = utf8_encode 8232 @ unquote t"
    "unquote ((CHR 0x5C # ''u2029'') @ t) = utf8_encode 8233 @ unquote t"
    by (simp_all add: unquote_head_def getu4_def is_surrogate_def)
  then show ?thesis unfolding r_def [symmetric] using plain by (simp add: escape_rune_def del: append.simps)
qed

lemma unquote_json_escape: "utf8_valid s \<Longrightarrow> unquote (json_escape s) = s"
proof (induction s rule: json_escape.induct)
  case (2 c s)
  have pos: "0 < utf8_len (c # s)" and rest: "utf8_valid (drop (utf8_len (c # s)) (c # s))"
    using "2.prems" by (subst (asm) utf8_valid.simps, simp split: if_splits del: utf8_len.simps)+
  show ?case
  proof (cases "ord c < 128")
    case True
    then show ?thesis using 2 rest by (simp add: unquote_json_escape_ascii)
  next
    case False
    then have IH: "unquote (json_escape (drop (utf8_len (c # s)) (c # s))) = drop (utf8_len (c # s)) (c # s)"
      using "2.IH"(3) pos rest by simp
    have "json_escape (c # s) = escape_rune (take (utf8_len (c # s)) (c # s)) @ json_escape (drop (utf8_len (c # s)) (c # s))"
      using False pos by (subst json_escape.simps) simp
    then show ?thesis
      using False unquote_rune [OF _ pos, of "json_escape (drop (utf8_len (c # s)) (c # s))"] IH
      by (simp del: utf8_len.simps json_escape.simps)
  qed
qed simp

lemma json_tokens_punct:
  "json_tokens (CHR ''{'' # s) = TLBrace # json_tokens s"
  "json_tokens (CHR ''}'' # s) = TRBrace # json_tokens s"
  "json_tokens (CHR '':'' # s) = TColon # json_tokens s"
  "json_tokens (CHR '','' # s) = TComma # json_tokens s"
  by (simp_all add: next_token_def json_space_def)

lemma json_tokens_str:
  "scannable r \<Longrightarrow> json_tokens (CHR 0x22 # r @ CHR 0x22 # s) = TStr r # json_tokens s"
  by (simp add: next_token_def json_space_def scan_scannable)

lemma json_tokens_member:
  "scannable r \<Longrightarrow> json_tokens (json_member (k, r) @ s) = TStr (json_escape k) # TColon # TStr r # json_tokens s"
  by (simp add: json_member_def json_string_def json_tokens_str json_tokens_punct scannable_json_escape
      del: json_tokens.simps)

definition json_pair :: "string \<times> string \<Rightarrow> string \<times> json" where
  "json_pair p = (json_escape (fst p), JStr (snd p))"

lemma json_run_members:
  assumes "ms \<noteq> []" "\<forall>p \<in> set ms. scannable (snd p)" "m = MKey \<or> m = MKeyOrEnd"
  shows "json_run (Reading m [InObj acc]) (json_tokens (join '','' (map json_member ms) @ CHR ''}'' # s)) =
    Some (JObj (acc @ map json_pair ms), json_tokens s)"
  using assms
proof (induction ms arbitrary: acc m)
  case (Cons p ms)
  obtain k r where p: "p = (k, r)" by (cases p)
  have m: "json_run (Reading m [InObj acc]) (TStr (json_escape k) # TColon # TStr r # ts) =
      json_run (Reading MAfter [InObj (acc @ [json_pair p])]) ts" for ts
    using Cons.prems(3) p by (auto simp: value_step_def json_pair_def)
  show ?case
  proof (cases ms)
    case Nil
    then show ?thesis using Cons.prems p m
      by (simp add: json_tokens_member json_tokens_punct del: json_tokens.simps)
  next
    case (Cons q qs)
    then have "json_run (Reading MKey [InObj (acc @ [json_pair p])])
        (json_tokens (join '','' (map json_member ms) @ CHR ''}'' # s)) =
        Some (JObj ((acc @ [json_pair p]) @ map json_pair ms), json_tokens s)"
      using Cons.IH Cons.prems by simp
    then show ?thesis using Cons.prems p m Cons
      by (simp add: json_tokens_member json_tokens_punct del: json_tokens.simps)
  qed
qed simp

text \<open>What is encoded is read back as the same members.\<close>

lemma json_unmarshal_object:
  assumes "ms \<noteq> []" "\<forall>p \<in> set ms. scannable (snd p)"
  shows "json_unmarshal (json_object ms) = Some (JObj (map json_pair ms))"
  using json_run_members [OF assms, of MKeyOrEnd "[]" "[]"]
  by (simp add: json_unmarshal_def json_object_def json_tokens_punct value_step_def open_frame_def
      maxNestingDepth_def del: json_tokens.simps(2))

text \<open>Names in ASCII match up to the case of their letters.\<close>

definition is_ascii :: "string \<Rightarrow> bool" where
  "is_ascii s \<longleftrightarrow> list_all (\<lambda>c. ord c < 128) s"

lemma fold_name_ascii: "is_ascii s \<Longrightarrow> fold_name s = map upper_char s"
proof (induction s)
  case (Cons c s)
  then have "ord c < 128" by (simp add: is_ascii_def)
  then have "take 3 (c # s) \<noteq> utf8_encode 8490" "take 2 (c # s) \<noteq> utf8_encode 383"
    by (auto simp: utf8_encode_def)
  then show ?case using Cons by (simp add: is_ascii_def)
qed simp

lemma same_field_ascii:
  "is_ascii k \<Longrightarrow> is_ascii f \<Longrightarrow> same_field k f \<longleftrightarrow> map upper_char k = map upper_char f"
  by (simp add: same_field_def fold_name_ascii)

section \<open>Instants\<close>

text \<open>\<open>time.RFC3339Nano\<close>: the fraction without its trailing zeros.\<close>

definition strip_zeros :: "string \<Rightarrow> string" where
  "strip_zeros s = rev (dropWhile (\<lambda>c. c = CHR ''0'') (rev s))"

definition format_fraction :: "int \<Rightarrow> string" where
  "format_fraction ns = (let ds = strip_zeros (pad_num 9 ns) in if ds = [] then [] else CHR ''.'' # ds)"

definition format_rfc3339nano :: "time \<Rightarrow> string" where
  "format_rfc3339nano t =
     (case date_of t of (y, m, d) \<Rightarrow> pad_num 4 y @ ''-'' @ pad_num 2 m @ ''-'' @ pad_num 2 d) @ ''T'' @
     (case clock_of t of (h, m, s) \<Rightarrow> pad_num 2 h @ '':'' @ pad_num 2 m @ '':'' @ pad_num 2 s) @
     format_fraction (t mod second) @ ''Z''"

text \<open>\<open>Time.MarshalJSON\<close>, between the quotes: a year that does not have four digits is an
  error. The instant is written in UTC.\<close>

definition time_marshal :: "time \<Rightarrow> string option" where
  "time_marshal t = (if four_digit_year t then Some (format_rfc3339nano t) else None)"

definition parse_zone :: "string \<Rightarrow> int option" where
  "parse_zone s =
     (if s = ''Z'' then Some 0
      else case s of
        [] \<Rightarrow> None
      | g # r \<Rightarrow> do {
          guard (g = CHR ''+'' \<or> g = CHR ''-'');
          (h, r) \<leftarrow> getnum True r;
          guard (h < 24);
          r \<leftarrow> literal (CHR '':'') r;
          (m, r) \<leftarrow> getnum True r;
          guard (m < 60 \<and> r = []);
          Some ((if g = CHR ''-'' then -1 else 1) * (h * 60 + m) * 60)
        })"

text \<open>\<open>Time.UnmarshalJSON\<close>, between the quotes: strict RFC 3339.\<close>

definition time_unmarshal :: "string \<Rightarrow> time option" where
  "time_unmarshal s = do {
     (y, s) \<leftarrow> getyear s;
     s \<leftarrow> literal (CHR ''-'') s;
     (m, s) \<leftarrow> getnum True s;
     guard (0 < m \<and> m \<le> 12);
     s \<leftarrow> literal (CHR ''-'') s;
     (d, s) \<leftarrow> getnum True s;
     guard (1 \<le> d \<and> d \<le> days_in y m);
     s \<leftarrow> literal (CHR ''T'') s;
     (h, s) \<leftarrow> getnum True s;
     guard (h < 24);
     s \<leftarrow> literal (CHR '':'') s;
     (mi, s) \<leftarrow> getnum True s;
     guard (mi < 60);
     s \<leftarrow> literal (CHR '':'') s;
     (se, s) \<leftarrow> getnum True s;
     guard (se < 60);
     guard (take 1 s \<noteq> '','');
     let (ns, s) = fraction s;
     off \<leftarrow> parse_zone s;
     Some (((((days_of_date y m d * 24 + h) * 60 + mi) * 60 + se) - off) * second + ns)
   }"

definition to_time :: "json \<Rightarrow> time option" where
  "to_time v = (case v of JStr r \<Rightarrow> time_unmarshal r | _ \<Rightarrow> None)"

lemma strip_zeros_append: "s = strip_zeros s @ replicate (length s - length (strip_zeros s)) (CHR ''0'')"
proof -
  let ?P = "\<lambda>c. c = CHR ''0''"
  have "set (takeWhile ?P (rev s)) \<subseteq> {CHR ''0''}" by (auto dest: set_takeWhileD)
  then have "takeWhile ?P (rev s) = replicate (length (takeWhile ?P (rev s))) (CHR ''0'')"
    by (metis replicate_length_same singletonD subsetD)
  moreover have "rev s = takeWhile ?P (rev s) @ dropWhile ?P (rev s)" by simp
  ultimately obtain n where "rev s = replicate n (CHR ''0'') @ dropWhile ?P (rev s)" by metis
  then have s: "s = strip_zeros s @ replicate n (CHR ''0'')"
    unfolding strip_zeros_def by (metis rev_append rev_replicate rev_rev_ident)
  then have "length s = length (strip_zeros s) + n" by (metis length_append length_replicate)
  with s show ?thesis by simp
qed

lemma digits_val_append_zeros: "digits_val (s @ replicate n (CHR ''0'')) = digits_val s * 10 ^ n"
proof (induction n)
  case (Suc n)
  have "s @ replicate (Suc n) (CHR ''0'') = (s @ replicate n (CHR ''0'')) @ ''0''"
    by (simp flip: replicate_append_same)
  then show ?case using Suc by (simp only: digits_val_append) (simp add: digit_val_def)
qed simp

lemma fraction_format:
  assumes "0 \<le> ns" "ns < second"
  shows "fraction (format_fraction ns @ ''Z'') = (ns, ''Z'')"
proof -
  define ds where "ds = strip_zeros (pad_num 9 ns)"
  have l9: "length (pad_num 9 ns) = 9" using assms by (intro length_pad_num) (simp_all add: second_def)
  have app: "pad_num 9 ns = ds @ replicate (9 - length ds) (CHR ''0'')"
    using strip_zeros_append [of "pad_num 9 ns"] l9 by (simp add: ds_def)
  then have "digits_val ds * 10 ^ (9 - length ds) = nat ns"
    using digits_val_pad_num [OF assms(1), of 9] digits_val_append_zeros [of ds "9 - length ds"] by simp
  then have "int (digits_val ds * 10 ^ (9 - length ds)) = ns" using assms(1) by simp
  then have val: "int (digits_val ds) * 10 ^ (9 - length ds) = ns" by simp
  have dig: "list_all is_digit ds" and len: "length ds \<le> 9"
    using pad_num_digits [OF assms(1), of 9] app l9 by (metis list_all_append) (metis app l9 length_append le_add1)
  show ?thesis
  proof (cases ds)
    case Nil
    then show ?thesis using val by (simp add: format_fraction_def ds_def)
  next
    case (Cons d r)
    have z: "\<not> is_digit (CHR ''Z'')" by code_simp
    have "takeWhile is_digit (ds @ ''Z'') = ds" "dropWhile is_digit (ds @ ''Z'') = ''Z''"
      using dig z takeWhile_append_stop [of ds is_digit "CHR ''Z''" "[]"] dropWhile_append_stop [of ds is_digit "CHR ''Z''" "[]"]
      by (simp_all add: list_all_iff)
    then show ?thesis using Cons dig val len
      by (simp add: format_fraction_def fraction_def ds_def [symmetric] Let_def)
  qed
qed

lemma format_fraction_head: "take 1 (format_fraction ns @ ''Z'') \<noteq> '',''"
  by (simp add: format_fraction_def Let_def)

lemma unix_seconds_of_date_clock:
  assumes "date_of t = (y, m, d)" "clock_of t = (h, mi, s)"
  shows "((days_of_date y m d * 24 + h) * 60 + mi) * 60 + s = unix_seconds t"
proof -
  define q where "q = unix_seconds t div 86400"
  have "days_of_date y m d = q"
    using date_of_days_correct(1) [OF assms(1) [unfolded date_of_def]] by (simp add: q_def)
  moreover have "unix_seconds t = q * 86400 + unix_seconds t mod 86400" by (simp add: q_def)
  ultimately show ?thesis using clock_of_bounds(7) [OF assms(2)] by (simp add: algebra_simps)
qed

text \<open>An instant is read back to the nanosecond.\<close>

lemma time_unmarshal_format:
  assumes "four_digit_year t"
  shows "time_unmarshal (format_rfc3339nano t) = Some t"
proof -
  obtain y m d where ymd: "date_of t = (y, m, d)" by (cases "date_of t")
  obtain h mi s where hms: "clock_of t = (h, mi, s)" by (cases "clock_of t")
  note dc = date_of_days_correct [OF ymd [unfolded date_of_def]] and cb = clock_of_bounds [OF hms]
  have y: "0 \<le> y" "y < 10000" using assms ymd by (simp_all add: four_digit_year_def)
  have d31: "d \<le> 31" using days_in_le_31 [of m y] dc by linarith
  have ns: "0 \<le> t mod second" "t mod second < second" by (simp_all add: second_def)
  have "time_unmarshal (format_rfc3339nano t) =
      Some (((((days_of_date y m d * 24 + h) * 60 + mi) * 60 + s) - 0) * second + t mod second)"
    unfolding time_unmarshal_def format_rfc3339nano_def
    using y dc(2-5) d31 cb(1-6) format_fraction_head [of "t mod second"]
    by (simp add: ymd hms getyear_pad_num getnum_pad_num fraction_format [OF ns] parse_zone_def)
  then show ?thesis unfolding unix_seconds_of_date_clock [OF ymd hms] by (simp add: unix_seconds_def)
qed

lemma time_marshal_unmarshal: "time_marshal t = Some r \<Longrightarrow> time_unmarshal r = Some t"
  by (auto simp: time_marshal_def time_unmarshal_format split: if_splits)

text \<open>The text of an instant holds nothing that would have to be escaped.\<close>

lemma format_rfc3339nano_chars:
  assumes "four_digit_year t" "c \<in> set (format_rfc3339nano t)"
  shows "is_digit c \<or> c \<in> set ''-T:.Z''"
proof -
  obtain y m d where ymd: "date_of t = (y, m, d)" by (cases "date_of t")
  obtain h mi s where hms: "clock_of t = (h, mi, s)" by (cases "clock_of t")
  note dc = date_of_days_correct [OF ymd [unfolded date_of_def]] and cb = clock_of_bounds [OF hms]
  have y: "0 \<le> y" using assms(1) ymd by (simp add: four_digit_year_def)
  have md: "0 \<le> m" "0 \<le> d" using dc(2,4) by simp_all
  have dig: "0 \<le> i \<Longrightarrow> c \<in> set (pad_num w i) \<Longrightarrow> is_digit c" for w i
    using pad_num_digits [of i w] by (simp add: list_all_iff)
  have "c \<in> set (strip_zeros x) \<Longrightarrow> c \<in> set x" for x
    by (auto simp: strip_zeros_def dest: set_dropWhileD)
  then have fr: "c \<in> set (format_fraction (t mod second)) \<Longrightarrow> is_digit c \<or> c = CHR ''.''"
    using dig [of "t mod second" 9] by (auto simp: format_fraction_def Let_def second_def split: if_splits)
  show ?thesis
    using assms(2) y md cb(1,3,5) dig fr by (auto simp: format_rfc3339nano_def ymd hms)
qed

lemma scannable_time: "time_marshal t = Some r \<Longrightarrow> scannable r"
  by (rule scannable_plain)
    (fastforce simp: time_marshal_def is_digit_def split: if_splits dest!: format_rfc3339nano_chars)

end
