(* ===== verification/Oidc.thy ===== *)
theory Oidc
  imports Config Go_Json "HOL-Library.AList"
begin

text \<open>
  Package \<open>internal/oidc\<close>: the validation chain of a JWT. The JOSE library \<open>jwx\<close> (parsing,
  signature verification, the JWKS cache) and the HTTP client are parameters, gathered in the
  record \<open>jose\<close>; the state of the cache has type \<open>'c\<close>, a key type \<open>'k\<close>. Messages keep their
  operands.
\<close>

section \<open>Data\<close>

datatype token_error =
    ErrUnknownIssuer string
  | ErrTokenExpired
  | ErrTokenInvalid "string list"
  | ErrBadUsername "string list"
  | ErrIssuerUnavailable "string list"

definition jwtSkew :: duration where "jwtSkew = 60 * second"

definition refreshCooldown :: duration where "refreshCooldown = 10 * second"

record identity =
  id_username :: string
  id_subject :: string
  id_issuer_name :: string
  id_issuer_url :: string
  id_expiry :: time

text \<open>A claim of a token: a string or a value of another JSON type.\<close>

datatype claim = StringClaim string | OtherClaim

record token =
  tk_subject :: string
  tk_audience :: "string list"
  tk_expiration :: time
  tk_claims :: "string \<rightharpoonup> claim"

datatype jwt_error = JwtExpired | JwtOther

text \<open>
  The calls into \<open>jwx\<close> and the HTTP client. \<open>jo_parse_insecure\<close> gives the issuer of an
  unverified token, \<open>jo_jws\<close> the algorithm and the key ID of the first signature (\<open>None\<close>
  when there is none), \<open>jo_parse\<close> verifies a token with a key at an instant with a skew and
  with \<open>exp\<close> required. \<open>jo_http_get\<close> is status and body of a GET.
\<close>

record ('c, 'k, 'set) jose =
  jo_parse_insecure :: "string \<Rightarrow> string option"
  jo_jws :: "string \<Rightarrow> (string \<times> string) option"
  jo_parse :: "string \<Rightarrow> string \<Rightarrow> 'k \<Rightarrow> duration \<Rightarrow> time \<Rightarrow> jwt_error + token"
  jo_lookup_key_id :: "'set \<Rightarrow> string \<Rightarrow> 'k option"
  jo_cache_register :: "string \<Rightarrow> 'c \<Rightarrow> bool \<times> 'c"
  jo_cache_get :: "string \<Rightarrow> 'c \<Rightarrow> 'set option \<times> 'c"
  jo_cache_refresh :: "string \<Rightarrow> 'c \<Rightarrow> 'set option \<times> 'c"
  jo_http_get :: "string \<Rightarrow> (int \<times> string) option"

record issuer_state =
  ist_cfg :: issuer
  ist_jwks_url :: string
  ist_last_refresh :: time

record 'c validator =
  va_by_issuer_url :: "(string \<times> issuer_state) list"
  va_allowed_algs :: "string list"
  va_policy :: username_policy
  va_cache :: 'c

definition newValidator :: "config \<Rightarrow> 'c \<Rightarrow> 'c validator" where
  "newValidator cfg cache =
     \<lparr>va_by_issuer_url = fold (\<lambda>iss m. AList.update (is_issuer iss)
          \<lparr>ist_cfg = iss, ist_jwks_url = [], ist_last_refresh = zero_time\<rparr> m) (cf_issuers cfg) [],
      va_allowed_algs = se_allowed_signing_algs (cf_security cfg),
      va_policy = cf_username_policy cfg, va_cache = cache\<rparr>"

section \<open>Keys\<close>

definition decode_jwks_uri :: "string \<Rightarrow> string option" where
  "decode_jwks_uri body =
     Option.bind (json_decode body) (\<lambda>v. Option.bind (json_members v) (\<lambda>ms. json_field to_string ''jwks_uri'' ms []))"

definition discoverJWKS :: "('c, 'k, 'set) jose \<Rightarrow> string \<Rightarrow> string list + string" where
  "discoverJWKS j issuerURL =
     (let wellKnown = issuerURL @ ''/.well-known/openid-configuration'' in
      case jo_http_get j wellKnown of
        None \<Rightarrow> Inl [''GET'', wellKnown]
      | Some (status, body) \<Rightarrow>
          if status \<noteq> 200 then Inl [''GET'', wellKnown, ''status'', itoa status]
          else case decode_jwks_uri body of
            None \<Rightarrow> Inl [''decode discovery document'']
          | Some u \<Rightarrow> if u = [] then Inl [''discovery document has no jwks_uri''] else Inr u)"

text \<open>The issuer states are shared by pointer in Go; here they are updated under their URL.\<close>

definition resolveJWKS ::
  "('c, 'k, 'set) jose \<Rightarrow> string \<Rightarrow> issuer_state \<Rightarrow> 'c validator \<Rightarrow> (token_error + string) \<times> 'c validator" where
  "resolveJWKS j url iss v =
     (if ist_jwks_url iss \<noteq> [] then (Inr (ist_jwks_url iss), v)
      else
        case (if is_jwks_uri (ist_cfg iss) = [] then discoverJWKS j (is_issuer (ist_cfg iss))
              else Inr (is_jwks_uri (ist_cfg iss))) of
          Inl e \<Rightarrow> (Inl (ErrIssuerUnavailable (''discovery for'' # is_name (ist_cfg iss) # e)), v)
        | Inr jwksURL \<Rightarrow>
            (case jo_cache_register j jwksURL (va_cache v) of (ok, c) \<Rightarrow>
               if \<not> ok then (Inl (ErrIssuerUnavailable [''register JWKS'']), v\<lparr>va_cache := c\<rparr>)
               else (Inr jwksURL, v\<lparr>va_cache := c, va_by_issuer_url :=
                 AList.update url (iss\<lparr>ist_jwks_url := jwksURL\<rparr>) (va_by_issuer_url v)\<rparr>)))"

definition lookupKey ::
  "('c, 'k, 'set) jose \<Rightarrow> clock \<Rightarrow> string \<Rightarrow> issuer_state \<Rightarrow> string \<Rightarrow> 'c validator \<Rightarrow>
   (token_error + 'k) \<times> 'c validator" where
  "lookupKey j clk url iss kid v =
     (case resolveJWKS j url iss v of
        (Inl e, v1) \<Rightarrow> (Inl e, v1)
      | (Inr jwksURL, v1) \<Rightarrow>
          (case jo_cache_get j jwksURL (va_cache v1) of
             (None, c) \<Rightarrow> (Inl (ErrIssuerUnavailable []), v1\<lparr>va_cache := c\<rparr>)
           | (Some ks, c) \<Rightarrow>
               let v2 = v1\<lparr>va_cache := c\<rparr> in
               (case jo_lookup_key_id j ks kid of
                  Some key \<Rightarrow> (Inr key, v2)
                | None \<Rightarrow>
                    let iss' = (case map_of (va_by_issuer_url v2) url of Some x \<Rightarrow> x | None \<Rightarrow> iss);
                        needRefresh = time_sub (clk At_cooldown_check) (ist_last_refresh iss') > refreshCooldown;
                        v3 = (if needRefresh
                              then v2\<lparr>va_by_issuer_url := AList.update url
                                (iss'\<lparr>ist_last_refresh := clk At_refresh\<rparr>) (va_by_issuer_url v2)\<rparr>
                              else v2)
                    in (case (if needRefresh then jo_cache_refresh j jwksURL (va_cache v3)
                              else jo_cache_get j jwksURL (va_cache v3)) of
                          (None, c') \<Rightarrow>
                            (Inl (ErrIssuerUnavailable (if needRefresh then [''refresh''] else [])),
                             v3\<lparr>va_cache := c'\<rparr>)
                        | (Some ks', c') \<Rightarrow>
                            (case jo_lookup_key_id j ks' kid of
                               Some key \<Rightarrow> (Inr key, v3\<lparr>va_cache := c'\<rparr>)
                             | None \<Rightarrow> (Inl (ErrTokenInvalid [''unknown kid'', kid]), v3\<lparr>va_cache := c'\<rparr>))))))"

section \<open>Validation\<close>

definition stringClaim :: "token \<Rightarrow> string \<Rightarrow> string" where
  "stringClaim t name = (case tk_claims t name of Some (StringClaim s) \<Rightarrow> s | _ \<Rightarrow> [])"

definition intersects :: "string list \<Rightarrow> string list \<Rightarrow> bool" where
  "intersects a b \<longleftrightarrow> list_ex (\<lambda>x. list_ex (\<lambda>y. x = y) b) a"

text \<open>The part of \<open>Validate\<close> after the token has been verified with its key.\<close>

definition identityOf :: "username_policy \<Rightarrow> issuer \<Rightarrow> token \<Rightarrow> token_error + identity" where
  "identityOf policy iss t =
     (if \<not> intersects (tk_audience t) (is_audiences iss)
      then Inl (ErrTokenInvalid [''aud does not include any of the audiences''])
      else
        let claimed = stringClaim t (is_username_claim iss);
            username = (if claimed = [] then tk_subject t else claimed)
        in if username = [] then Inl (ErrBadUsername [''no'', is_username_claim iss, ''or sub claim''])
           else if \<not> policy_validate policy username then Inl (ErrBadUsername [username])
           else Inr \<lparr>id_username = username, id_subject = tk_subject t, id_issuer_name = is_name iss,
                     id_issuer_url = is_issuer iss, id_expiry = tk_expiration t\<rparr>)"

definition Validate ::
  "('c, 'k, 'set) jose \<Rightarrow> clock \<Rightarrow> string \<Rightarrow> 'c validator \<Rightarrow> (token_error + identity) \<times> 'c validator" where
  "Validate j clk raw v =
     (if raw = [] then (Inl (ErrTokenInvalid [''empty token'']), v)
      else case jo_parse_insecure j raw of
        None \<Rightarrow> (Inl (ErrTokenInvalid [''malformed JWT'']), v)
      | Some issURL \<Rightarrow>
          (case map_of (va_by_issuer_url v) issURL of
             None \<Rightarrow> (Inl (ErrUnknownIssuer issURL), v)
           | Some iss \<Rightarrow>
               (case jo_jws j raw of
                  None \<Rightarrow> (Inl (ErrTokenInvalid [''not a signed JWT'']), v)
                | Some (alg, kid) \<Rightarrow>
                    if alg \<notin> set (va_allowed_algs v)
                    then (Inl (ErrTokenInvalid [''algorithm'', alg, ''not allowed'']), v)
                    else if kid = [] then (Inl (ErrTokenInvalid [''missing kid header'']), v)
                    else
                      (case lookupKey j clk issURL iss kid v of
                         (Inl e, v') \<Rightarrow> (Inl e, v')
                       | (Inr key, v') \<Rightarrow>
                           (case jo_parse j raw alg key jwtSkew (clk At_token_check) of
                              Inl JwtExpired \<Rightarrow> (Inl ErrTokenExpired, v')
                            | Inl JwtOther \<Rightarrow> (Inl (ErrTokenInvalid []), v')
                            | Inr t \<Rightarrow> (identityOf (va_policy v') (ist_cfg iss) t, v'))))))"

section \<open>The validator over time\<close>

text \<open>The validator keeps what the configuration says: the algorithms, the policy, and under
  each issuer URL the configured issuer with this URL.\<close>

definition validator_inv :: "config \<Rightarrow> 'c validator \<Rightarrow> bool" where
  "validator_inv cfg v \<longleftrightarrow>
     va_allowed_algs v = se_allowed_signing_algs (cf_security cfg) \<and>
     va_policy v = cf_username_policy cfg \<and>
     (\<forall>url iss. map_of (va_by_issuer_url v) url = Some iss \<longrightarrow>
        ist_cfg iss \<in> set (cf_issuers cfg) \<and> is_issuer (ist_cfg iss) = url)"

lemma validator_inv_update:
  assumes "validator_inv cfg v" "ist_cfg iss \<in> set (cf_issuers cfg)" "is_issuer (ist_cfg iss) = url"
  shows "validator_inv cfg (v\<lparr>va_by_issuer_url := AList.update url iss (va_by_issuer_url v)\<rparr>)"
  using assms by (auto simp: validator_inv_def update_conv')

lemma validator_inv_cache: "validator_inv cfg (v\<lparr>va_cache := c\<rparr>) \<longleftrightarrow> validator_inv cfg v"
  by (simp add: validator_inv_def)

lemma validator_inv_lookup:
  "validator_inv cfg v \<Longrightarrow> map_of (va_by_issuer_url v) url = Some iss \<Longrightarrow>
   ist_cfg iss \<in> set (cf_issuers cfg) \<and> is_issuer (ist_cfg iss) = url"
  by (simp add: validator_inv_def)

lemma newValidator_fold:
  "\<forall>url iss. map_of m url = Some iss \<longrightarrow> ist_cfg iss \<in> S \<and> is_issuer (ist_cfg iss) = url \<Longrightarrow>
   set isss \<subseteq> S \<Longrightarrow>
   map_of (fold (\<lambda>iss m. AList.update (is_issuer iss)
     \<lparr>ist_cfg = iss, ist_jwks_url = [], ist_last_refresh = zero_time\<rparr> m) isss m) url = Some iss \<Longrightarrow>
   ist_cfg iss \<in> S \<and> is_issuer (ist_cfg iss) = url"
proof (induction isss arbitrary: m)
  case (Cons i isss)
  show ?case
    by (rule Cons.IH [where m = "AList.update (is_issuer i) \<lparr>ist_cfg = i, ist_jwks_url = [],
      ist_last_refresh = zero_time\<rparr> m"]) (use Cons.prems in \<open>auto simp: update_conv'\<close>)
qed simp

lemma newValidator_inv: "validator_inv cfg (newValidator cfg cache)"
  using newValidator_fold [of "[]" "set (cf_issuers cfg)" "cf_issuers cfg"]
  by (auto simp: validator_inv_def newValidator_def)

lemma resolveJWKS_inv:
  assumes "validator_inv cfg v" "map_of (va_by_issuer_url v) url = Some iss"
    "resolveJWKS j url iss v = (r, v')"
  shows "validator_inv cfg v'"
proof -
  have u: "validator_inv cfg (v\<lparr>va_cache := c, va_by_issuer_url :=
      AList.update url (iss\<lparr>ist_jwks_url := w\<rparr>) (va_by_issuer_url v)\<rparr>)" for c w
    using validator_inv_update [of cfg "v\<lparr>va_cache := c\<rparr>" "iss\<lparr>ist_jwks_url := w\<rparr>" url]
      validator_inv_lookup [OF assms(1,2)] assms(1) by (simp add: validator_inv_cache)
  show ?thesis
    using assms(1,3) u unfolding resolveJWKS_def
    by (auto simp: validator_inv_cache split: if_splits sum.splits prod.splits)
qed

lemma resolveJWKS_lookup:
  "map_of (va_by_issuer_url v) url = Some iss \<Longrightarrow> resolveJWKS j url iss v = (r, v') \<Longrightarrow>
   \<exists>w. map_of (va_by_issuer_url v') url = Some (iss\<lparr>ist_jwks_url := w\<rparr>)"
  unfolding resolveJWKS_def
  by (auto simp: update_conv' split: if_splits sum.splits prod.splits intro: exI [of _ "ist_jwks_url iss"])

lemma lookupKey_inv:
  assumes "validator_inv cfg v" "map_of (va_by_issuer_url v) url = Some iss"
    "lookupKey j clk url iss kid v = (r, v')"
  shows "validator_inv cfg v'"
proof -
  obtain q v1 where q: "resolveJWKS j url iss v = (q, v1)" by (cases "resolveJWKS j url iss v")
  have v1: "validator_inv cfg v1" using resolveJWKS_inv [OF assms(1,2) q] .
  have upd: "validator_inv cfg (v1\<lparr>va_by_issuer_url :=
      AList.update url (x\<lparr>ist_last_refresh := t\<rparr>) (va_by_issuer_url v1)\<rparr>)"
    if "map_of (va_by_issuer_url v1) url = Some x" for t x
    using that v1 validator_inv_update [of cfg v1 "x\<lparr>ist_last_refresh := t\<rparr>" url]
      validator_inv_lookup [OF v1 that] by simp
  obtain w where w: "map_of (va_by_issuer_url v1) url = Some (iss\<lparr>ist_jwks_url := w\<rparr>)"
    using resolveJWKS_lookup [OF assms(2) q] by blast
  show ?thesis
    using assms(3) v1 upd [OF w] unfolding lookupKey_def q Let_def
    by (auto simp: w validator_inv_cache split: sum.splits prod.splits option.splits if_splits)
qed

lemma resolveJWKS_policy: "resolveJWKS j url iss v = (r, v') \<Longrightarrow> va_policy v' = va_policy v"
  by (auto simp: resolveJWKS_def split: sum.splits prod.splits if_splits)

lemma lookupKey_policy:
  assumes "lookupKey j clk url iss kid v = (r, v')"
  shows "va_policy v' = va_policy v"
proof -
  obtain q v1 where q: "resolveJWKS j url iss v = (q, v1)" by (cases "resolveJWKS j url iss v")
  have "va_policy v' = va_policy v1"
    using assms unfolding lookupKey_def q Let_def by (auto split: sum.splits prod.splits option.splits if_splits)
  then show ?thesis using resolveJWKS_policy [OF q] by simp
qed

text \<open>What an accepted token has been checked for.\<close>

lemma Validate_Inr:
  assumes "Validate j clk raw v = (Inr ident, v')"
  obtains issURL iss alg kid key t where
    "jo_parse_insecure j raw = Some issURL" "map_of (va_by_issuer_url v) issURL = Some iss"
    "jo_jws j raw = Some (alg, kid)" "alg \<in> set (va_allowed_algs v)" "kid \<noteq> []"
    "lookupKey j clk issURL iss kid v = (Inr key, v')"
    "jo_parse j raw alg key jwtSkew (clk At_token_check) = Inr t"
    "identityOf (va_policy v) (ist_cfg iss) t = Inr ident"
proof -
  obtain issURL iss alg kid key t where *:
    "jo_parse_insecure j raw = Some issURL" "map_of (va_by_issuer_url v) issURL = Some iss"
    "jo_jws j raw = Some (alg, kid)" "alg \<in> set (va_allowed_algs v)" "kid \<noteq> []"
    "lookupKey j clk issURL iss kid v = (Inr key, v')"
    "jo_parse j raw alg key jwtSkew (clk At_token_check) = Inr t"
    "identityOf (va_policy v') (ist_cfg iss) t = Inr ident"
    using assms unfolding Validate_def
    by (auto split: if_splits option.splits prod.splits sum.splits jwt_error.splits)
  show thesis using that [OF *(1-7)] *(8) lookupKey_policy [OF *(6)] by simp
qed

lemma Validate_inv:
  assumes "validator_inv cfg v" "Validate j clk raw v = (r, v')"
  shows "validator_inv cfg v'"
  using assms lookupKey_inv [OF assms(1)] unfolding Validate_def
  by (auto split: if_splits option.splits prod.splits sum.splits jwt_error.splits)

lemma intersects_iff: "intersects a b \<longleftrightarrow> set a \<inter> set b \<noteq> {}"
  by (auto simp: intersects_def list_ex_iff)

lemma identityOf_Inr:
  "identityOf policy iss t = Inr ident \<Longrightarrow>
   set (tk_audience t) \<inter> set (is_audiences iss) \<noteq> {} \<and>
   id_username ident = (if stringClaim t (is_username_claim iss) = [] then tk_subject t
     else stringClaim t (is_username_claim iss)) \<and>
   id_username ident \<noteq> [] \<and> policy_validate policy (id_username ident) \<and>
   id_subject ident = tk_subject t \<and> id_issuer_name ident = is_name iss \<and>
   id_issuer_url ident = is_issuer iss \<and> id_expiry ident = tk_expiration t"
  by (auto simp: identityOf_def intersects_iff Let_def split: if_splits)

section \<open>The interface\<close>

text \<open>What the STS handler and the Bearer lane rely on (\<open>sts.TokenValidator\<close>): every accepted
  username has passed the policy, and validation keeps the validator's state sound.\<close>

locale token_validator =
  fixes validate :: "clock \<Rightarrow> string \<Rightarrow> 'v \<Rightarrow> (token_error + identity) \<times> 'v"
    and vinv :: "'v \<Rightarrow> bool"
    and policy :: "string \<Rightarrow> bool"
  assumes validate_inv: "vinv v \<Longrightarrow> validate clk raw v = (r, v') \<Longrightarrow> vinv v'"
    and validate_policy: "vinv v \<Longrightarrow> validate clk raw v = (Inr ident, v') \<Longrightarrow> policy (id_username ident)"

lemma Validate_policy:
  assumes "validator_inv cfg v" "Validate j clk raw v = (Inr ident, v')"
  shows "policy_validate (cf_username_policy cfg) (id_username ident)"
proof -
  obtain iss :: issuer_state and t where "identityOf (va_policy v) (ist_cfg iss) t = Inr ident"
    using Validate_Inr [OF assms(2)] by metis
  then show ?thesis using assms(1) by (auto simp: validator_inv_def dest: identityOf_Inr)
qed

interpretation oidc: token_validator "Validate j" "validator_inv cfg"
  "policy_validate (cf_username_policy cfg)" for j cfg
  by unfold_locales (auto dest: Validate_inv Validate_policy)

section \<open>The refresh cooldown\<close>

text \<open>Tokens validated one after another, each with its clock readings.\<close>

fun validate_all ::
  "('c, 'k, 'set) jose \<Rightarrow> (clock \<times> string) list \<Rightarrow> 'c validator \<Rightarrow> (token_error + identity) list \<times> 'c validator" where
  "validate_all j [] v = ([], v)"
| "validate_all j ((clk, raw) # reqs) v =
     (case Validate j clk raw v of (r, v1) \<Rightarrow>
        case validate_all j reqs v1 of (rs, v2) \<Rightarrow> (r # rs, v2))"

text \<open>Every issuer has been refreshed at most the cooldown before the reading.\<close>

definition cooling :: "clock \<Rightarrow> 'c validator \<Rightarrow> bool" where
  "cooling clk v \<longleftrightarrow>
     list_all (\<lambda>(_, iss). time_sub (clk At_cooldown_check) (ist_last_refresh iss) \<le> refreshCooldown) (va_by_issuer_url v)"

definition refresh_times :: "'c validator \<Rightarrow> time set" where
  "refresh_times v = (ist_last_refresh \<circ> snd) ` set (va_by_issuer_url v)"

lemma cooling_iff: "cooling clk v \<longleftrightarrow> (\<forall>t \<in> refresh_times v. time_sub (clk At_cooldown_check) t \<le> refreshCooldown)"
  by (auto simp: cooling_def refresh_times_def list_all_iff)

lemma AList_update_set: "set (AList.update k x al) \<subseteq> insert (k, x) (set al)"
  by (induction al) auto

lemma refresh_times_cache [simp]: "refresh_times (v\<lparr>va_cache := c\<rparr>) = refresh_times v"
  by (simp add: refresh_times_def)

lemma refresh_times_update:
  assumes "ist_last_refresh x \<in> refresh_times v"
  shows "refresh_times (v\<lparr>va_cache := c, va_by_issuer_url := AList.update url x (va_by_issuer_url v)\<rparr>) \<subseteq> refresh_times v"
proof -
  have "(ist_last_refresh \<circ> snd) ` set (AList.update url x (va_by_issuer_url v)) \<subseteq>
      (ist_last_refresh \<circ> snd) ` insert (url, x) (set (va_by_issuer_url v))"
    by (intro image_mono AList_update_set)
  then show ?thesis using assms by (simp add: refresh_times_def insert_absorb)
qed

lemma refresh_times_lookup: "map_of (va_by_issuer_url v) url = Some iss \<Longrightarrow> ist_last_refresh iss \<in> refresh_times v"
  by (force simp: refresh_times_def dest: map_of_SomeD)

lemma resolveJWKS_times:
  assumes "map_of (va_by_issuer_url v) url = Some iss" "resolveJWKS j url iss v = (r, v')"
  shows "refresh_times v' \<subseteq> refresh_times v"
proof -
  have "refresh_times (v\<lparr>va_cache := c, va_by_issuer_url := AList.update url (iss\<lparr>ist_jwks_url := w\<rparr>) (va_by_issuer_url v)\<rparr>)
      \<subseteq> refresh_times v" for c w
    by (rule refresh_times_update) (simp add: refresh_times_lookup [OF assms(1)])
  then show ?thesis using assms(2) unfolding resolveJWKS_def by (auto split: if_splits sum.splits prod.splits)
qed

lemma resolveJWKS_refresh:
  fixes j :: "('c, 'k, 'set) jose"
  shows "resolveJWKS (j\<lparr>jo_cache_refresh := f\<rparr>) url iss v = resolveJWKS j url iss v"
proof -
  have "discoverJWKS (j\<lparr>jo_cache_refresh := f\<rparr>) = discoverJWKS j" by (intro ext) (simp add: discoverJWKS_def)
  then show ?thesis by (simp add: resolveJWKS_def split: sum.split)
qed

lemma lookupKey_cooling:
  assumes "map_of (va_by_issuer_url v) url = Some iss" "cooling clk v"
  shows "lookupKey (j\<lparr>jo_cache_refresh := f\<rparr>) clk url iss kid v = lookupKey j clk url iss kid v"
    and "lookupKey j clk url iss kid v = (r, v') \<Longrightarrow> refresh_times v' \<subseteq> refresh_times v"
proof -
  obtain q v1 where q: "resolveJWKS j url iss v = (q, v1)" by (cases "resolveJWKS j url iss v")
  have sub: "refresh_times v1 \<subseteq> refresh_times v" using resolveJWKS_times [OF assms(1) q] .
  obtain w where w: "map_of (va_by_issuer_url v1) url = Some (iss\<lparr>ist_jwks_url := w\<rparr>)"
    using resolveJWKS_lookup [OF assms(1) q] by blast
  have "time_sub (clk At_cooldown_check) (ist_last_refresh iss) \<le> refreshCooldown"
    using refresh_times_lookup [OF assms(1)] assms(2) by (simp add: cooling_iff)
  then show "lookupKey (j\<lparr>jo_cache_refresh := f\<rparr>) clk url iss kid v = lookupKey j clk url iss kid v"
    "lookupKey j clk url iss kid v = (r, v') \<Longrightarrow> refresh_times v' \<subseteq> refresh_times v"
    using sub w by (auto simp: lookupKey_def resolveJWKS_refresh q Let_def split: sum.splits prod.splits option.splits)
qed

lemma Validate_cooling:
  assumes "cooling clk v"
  shows "Validate (j\<lparr>jo_cache_refresh := f\<rparr>) clk raw v = Validate j clk raw v"
    and "Validate j clk raw v = (r, v') \<Longrightarrow> refresh_times v' \<subseteq> refresh_times v"
  using assms lookupKey_cooling(2) [of v _ _ clk j] unfolding Validate_def
  by (auto simp: lookupKey_cooling(1) split: if_splits option.splits prod.splits sum.splits jwt_error.splits cong: option.case_cong)


definition demo_jose :: "(nat, unit, unit) jose" where
  "demo_jose = \<lparr>jo_parse_insecure = (\<lambda>_. Some ''https://idp''), jo_jws = (\<lambda>raw. Some (''RS256'', raw)),
     jo_parse = (\<lambda>_ _ _ _ _. Inl JwtOther), jo_lookup_key_id = (\<lambda>_ _. None),
     jo_cache_register = (\<lambda>_ n. (True, n)), jo_cache_get = (\<lambda>_ n. (Some (), n)),
     jo_cache_refresh = (\<lambda>_ n. (Some (), n + 1)), jo_http_get = (\<lambda>_. None)\<rparr>"

definition demo_validator_at :: "time \<Rightarrow> nat validator" where
  "demo_validator_at t = \<lparr>va_by_issuer_url = [(''https://idp'', \<lparr>ist_cfg = \<lparr>is_name = ''kc'', is_issuer = ''https://idp'',
       is_jwks_uri = ''https://idp/jwks'', is_audiences = [''ozone''], is_username_claim = ''uid''\<rparr>,
       ist_jwks_url = [], ist_last_refresh = t\<rparr>)],
     va_allowed_algs = [''RS256''], va_policy = \<lparr>up_pattern = defaultPattern, up_regex = Some default_username\<rparr>, va_cache = 0\<rparr>"


end
