(* ===== verification/Store.thy ===== *)
theory Store
  imports Go_Time "HOL-Library.AList"
begin

text \<open>
  Package \<open>internal/store\<close>: the credential record, minting (\<open>store.go\<close>) and the in-process
  implementation of the store (\<open>memory.go\<close>). The Go interface \<open>Store\<close> is the record of
  operations \<open>store_impl\<close>; what every implementation promises its callers is the locale
  \<open>credential_store\<close>, which \<open>Memory\<close> interprets at the end.
\<close>

section \<open>Credentials\<close>

record credentials =
  cr_access_key_id :: string
  cr_secret_access_key :: string
  cr_session_token :: string
  cr_username :: string
  cr_issuer :: string
  cr_expires_at :: time

definition expired :: "credentials \<Rightarrow> time \<Rightarrow> bool" where
  "expired c now \<longleftrightarrow> \<not> now < cr_expires_at c"

section \<open>Minting\<close>

text \<open>
  \<open>crypto/rand\<close>: a stream of bytes, the number of bytes drawn, the number of reads, and which
  reads fail. A failed read delivers nothing.
\<close>

record rand_source =
  rs_byte :: "nat \<Rightarrow> char"
  rs_fails :: "nat \<Rightarrow> bool"
  rs_pos :: nat
  rs_reads :: nat

definition rand_read :: "nat \<Rightarrow> rand_source \<Rightarrow> bytes option \<times> rand_source" where
  "rand_read n g =
     (if rs_fails g (rs_reads g) then (None, g\<lparr>rs_reads := rs_reads g + 1\<rparr>)
      else (Some (map (\<lambda>i. rs_byte g (rs_pos g + i)) [0..<n]),
            g\<lparr>rs_pos := rs_pos g + n, rs_reads := rs_reads g + 1\<rparr>))"

definition akidPrefix :: string where "akidPrefix = ''OZPX''"

definition crockford32 :: string where "crockford32 = ''0123456789ABCDEFGHJKMNPQRSTVWXYZ''"

definition randCrockford :: "nat \<Rightarrow> rand_source \<Rightarrow> string option \<times> rand_source" where
  "randCrockford n g =
     (case rand_read n g of
        (None, g') \<Rightarrow> (None, g')
      | (Some buf, g') \<Rightarrow> (Some (map (\<lambda>b. crockford32 ! (ord b mod length crockford32)) buf), g'))"

definition randBase64URL :: "nat \<Rightarrow> rand_source \<Rightarrow> string option \<times> rand_source" where
  "randBase64URL n g =
     (case rand_read n g of
        (None, g') \<Rightarrow> (None, g')
      | (Some buf, g') \<Rightarrow> (Some (b64url_encode buf), g'))"

definition mint ::
  "string \<Rightarrow> string \<Rightarrow> time \<Rightarrow> rand_source \<Rightarrow> (string + credentials) \<times> rand_source" where
  "mint username issuer expiresAt g =
     (case randCrockford 16 g of
        (None, g1) \<Rightarrow> (Inl ''mint access key id'', g1)
      | (Some akid, g1) \<Rightarrow>
          (case randBase64URL 30 g1 of
             (None, g2) \<Rightarrow> (Inl ''mint secret'', g2)
           | (Some secret, g2) \<Rightarrow>
               (case randBase64URL 32 g2 of
                  (None, g3) \<Rightarrow> (Inl ''mint session token'', g3)
                | (Some token, g3) \<Rightarrow>
                    (Inr \<lparr>cr_access_key_id = akidPrefix @ akid, cr_secret_access_key = secret,
                       cr_session_token = token, cr_username = username, cr_issuer = issuer,
                       cr_expires_at = expiresAt\<rparr>, g3))))"

section \<open>The interface\<close>

text \<open>
  The Go interface \<open>Store\<close>, for implementations with state \<open>'s\<close>. An operation returns its
  error, if any, and the new state; \<open>Count\<close> reads the implementation's clock, which is its
  first argument here.
\<close>

record 's store_impl =
  st_put :: "credentials \<Rightarrow> 's \<Rightarrow> string option \<times> 's"
  st_get :: "string \<Rightarrow> 's \<Rightarrow> (string + credentials option) \<times> 's"
  st_delete :: "string \<Rightarrow> 's \<Rightarrow> string option \<times> 's"
  st_count :: "time \<Rightarrow> 's \<Rightarrow> (string + nat) \<times> 's"

text \<open>
  What the callers of a store rely on. \<open>abs\<close> reads the state as the map from access key IDs to
  records; \<open>storable\<close> are the records that the implementation can represent. An operation that
  reports success has the effect it names; one that reports an error may have taken effect or
  not, but never does anything else.
\<close>

locale credential_store =
  fixes impl :: "'s store_impl"
    and abs :: "'s \<Rightarrow> string \<rightharpoonup> credentials"
    and inv :: "'s \<Rightarrow> bool"
    and storable :: "credentials \<Rightarrow> bool"
  assumes put_ok: "inv s \<Longrightarrow> storable c \<Longrightarrow> st_put impl c s = (None, s') \<Longrightarrow>
      inv s' \<and> abs s' = (abs s)(cr_access_key_id c \<mapsto> c)"
    and put_error: "inv s \<Longrightarrow> storable c \<Longrightarrow> st_put impl c s = (Some e, s') \<Longrightarrow>
      inv s' \<and> (abs s' = abs s \<or> abs s' = (abs s)(cr_access_key_id c \<mapsto> c))"
    and get_ok: "inv s \<Longrightarrow> st_get impl k s = (Inr r, s') \<Longrightarrow> inv s' \<and> abs s' = abs s \<and> r = abs s k"
    and get_error: "inv s \<Longrightarrow> st_get impl k s = (Inl e, s') \<Longrightarrow> inv s' \<and> abs s' = abs s"
    and delete_ok: "inv s \<Longrightarrow> st_delete impl k s = (None, s') \<Longrightarrow>
      inv s' \<and> abs s' = (abs s)(k := None)"
    and delete_error: "inv s \<Longrightarrow> st_delete impl k s = (Some e, s') \<Longrightarrow>
      inv s' \<and> (abs s' = abs s \<or> abs s' = (abs s)(k := None))"
    and count_frame: "inv s \<Longrightarrow> st_count impl now s = (n, s') \<Longrightarrow> inv s' \<and> abs s' = abs s"
begin

lemma get_frame: "inv s \<Longrightarrow> st_get impl k s = (r, s') \<Longrightarrow> inv s' \<and> abs s' = abs s"
  using get_ok get_error by (cases r) blast+

lemma put_inv: "inv s \<Longrightarrow> storable c \<Longrightarrow> st_put impl c s = (e, s') \<Longrightarrow> inv s'"
  using put_ok put_error by (cases e) blast+

lemma delete_inv: "inv s \<Longrightarrow> st_delete impl k s = (e, s') \<Longrightarrow> inv s'"
  using delete_ok delete_error by (cases e) blast+

text \<open>A store never invents or alters a record: after a put, a record is the old one or the
  one put; after a delete, the old one.\<close>

lemma put_origin:
  assumes "inv s" "storable c" "st_put impl c s = (e, s')" "abs s' k = Some d"
  shows "d = c \<and> k = cr_access_key_id c \<or> abs s k = Some d"
proof (cases e)
  case None
  then show ?thesis using put_ok [OF assms(1,2), of s'] assms by (auto split: if_splits)
next
  case (Some x)
  then show ?thesis using put_error [OF assms(1,2), of x s'] assms by (auto split: if_splits)
qed

lemma delete_origin:
  assumes "inv s" "st_delete impl k s = (e, s')" "abs s' k' = Some d"
  shows "abs s k' = Some d"
proof (cases e)
  case None
  then show ?thesis using delete_ok [OF assms(1), of k s'] assms by (auto split: if_splits)
next
  case (Some x)
  then show ?thesis using delete_error [OF assms(1), of k x s'] assms by (auto split: if_splits)
qed

lemma put_get:
  assumes "inv s" "storable c" "st_put impl c s = (None, s1)" "st_get impl (cr_access_key_id c) s1 = (Inr r, s2)"
  shows "r = Some c"
proof -
  have "inv s1" "abs s1 = (abs s)(cr_access_key_id c \<mapsto> c)" using put_ok [OF assms(1-3)] by blast+
  then show ?thesis using get_ok [OF _ assms(4)] by simp
qed

lemma delete_get:
  assumes "inv s" "st_delete impl k s = (None, s1)" "st_get impl k s1 = (Inr r, s2)"
  shows "r = None"
proof -
  have "inv s1" "abs s1 = (abs s)(k := None)" using delete_ok [OF assms(1,2)] by blast+
  then show ?thesis using get_ok [OF _ assms(3)] by simp
qed

end

section \<open>The memory store\<close>

text \<open>The map of the store is an association list; its order stands for the order in which Go
  happens to iterate over the map. Each operation holds the mutex for its whole body, so
  operations are atomic.\<close>

record memory =
  me_creds :: "(string \<times> credentials) list"
  me_sweep_every :: duration
  me_retention :: duration
  me_stopped :: bool

definition newMemory :: "(memory \<Rightarrow> memory) list \<Rightarrow> memory" where
  "newMemory opts = fold (\<lambda>opt. opt) opts
     \<lparr>me_creds = [], me_sweep_every = minute, me_retention = hour, me_stopped = False\<rparr>"

definition withSweepInterval :: "duration \<Rightarrow> memory \<Rightarrow> memory" where
  "withSweepInterval d m = m\<lparr>me_sweep_every := d\<rparr>"

definition withRetention :: "duration \<Rightarrow> memory \<Rightarrow> memory" where
  "withRetention d m = m\<lparr>me_retention := d\<rparr>"

definition memory_put :: "credentials \<Rightarrow> memory \<Rightarrow> string option \<times> memory" where
  "memory_put c m = (None, m\<lparr>me_creds := AList.update (cr_access_key_id c) c (me_creds m)\<rparr>)"

definition memory_get :: "string \<Rightarrow> memory \<Rightarrow> (string + credentials option) \<times> memory" where
  "memory_get akid m = (Inr (map_of (me_creds m) akid), m)"

definition memory_delete :: "string \<Rightarrow> memory \<Rightarrow> string option \<times> memory" where
  "memory_delete akid m = (None, m\<lparr>me_creds := AList.delete akid (me_creds m)\<rparr>)"

fun count_live :: "time \<Rightarrow> (string \<times> credentials) list \<Rightarrow> nat \<Rightarrow> nat" where
  "count_live now [] n = n"
| "count_live now ((_, c) # cs) n = count_live now cs (if \<not> expired c now then n + 1 else n)"

definition memory_count :: "time \<Rightarrow> memory \<Rightarrow> (string + nat) \<times> memory" where
  "memory_count now m = (Inr (count_live now (me_creds m) 0), m)"

definition memory_close :: "memory \<Rightarrow> memory" where
  "memory_close m = m\<lparr>me_stopped := True\<rparr>"

definition memory_sweep :: "time \<Rightarrow> memory \<Rightarrow> memory" where
  "memory_sweep now m =
     (let cutoff = time_add now (- me_retention m)
      in m\<lparr>me_creds := filter (\<lambda>(_, c). \<not> cr_expires_at c < cutoff) (me_creds m)\<rparr>)"

text \<open>The sweeper: one tick of its ticker, or the end once the store is closed.\<close>

definition memory_tick :: "time \<Rightarrow> memory \<Rightarrow> memory" where
  "memory_tick now m = (if me_stopped m then m else memory_sweep now m)"

definition memory_impl :: "memory store_impl" where
  "memory_impl = \<lparr>st_put = memory_put, st_get = memory_get, st_delete = memory_delete,
     st_count = memory_count\<rparr>"

subsection \<open>Invariant and abstraction\<close>

text \<open>Each access key ID occurs once, and a record is stored under its own access key ID.\<close>

definition memory_inv :: "memory \<Rightarrow> bool" where
  "memory_inv m \<longleftrightarrow> distinct (map fst (me_creds m)) \<and>
     list_all (\<lambda>(k, c). cr_access_key_id c = k) (me_creds m)"

definition memory_abs :: "memory \<Rightarrow> string \<rightharpoonup> credentials" where
  "memory_abs m = map_of (me_creds m)"

lemma memory_inv_keyed: "memory_inv m \<Longrightarrow> memory_abs m k = Some c \<Longrightarrow> cr_access_key_id c = k"
  by (force simp: memory_inv_def memory_abs_def list_all_iff dest: map_of_SomeD)

lemma list_all_update:
  "list_all P xs \<Longrightarrow> P (k, v) \<Longrightarrow> list_all P (AList.update k v xs)"
  by (induction xs) auto

lemma list_all_delete: "list_all P xs \<Longrightarrow> list_all P (AList.delete k xs)"
  by (simp add: list_all_iff AList.delete_eq)

lemma memory_put_inv: "memory_inv m \<Longrightarrow> memory_inv (snd (memory_put c m))"
  by (simp add: memory_inv_def memory_put_def distinct_update list_all_update)

lemma memory_delete_inv: "memory_inv m \<Longrightarrow> memory_inv (snd (memory_delete k m))"
  by (simp add: memory_inv_def memory_delete_def distinct_delete list_all_delete)

lemma memory_sweep_inv: "memory_inv m \<Longrightarrow> memory_inv (memory_sweep now m)"
  by (simp add: memory_inv_def memory_sweep_def Let_def distinct_map_filter_fst list_all_iff)

lemma memory_tick_inv: "memory_inv m \<Longrightarrow> memory_inv (memory_tick now m)"
  by (simp add: memory_tick_def memory_sweep_inv)

interpretation mem: credential_store memory_impl memory_abs memory_inv "\<lambda>_. True"
  using memory_put_inv memory_delete_inv
  by unfold_locales
    (force simp: memory_impl_def memory_put_def memory_get_def memory_delete_def memory_count_def
      memory_abs_def update_conv' delete_conv')+

subsection \<open>Behaviour\<close>

lemma count_live_acc: "count_live now cs n = n + length (filter (\<lambda>(_, c). \<not> expired c now) cs)"
  by (induction now cs n rule: count_live.induct) auto

lemma memory_sweep_abs:
  assumes "memory_inv m"
  shows "memory_abs (memory_sweep now m) k =
    (case memory_abs m k of
       None \<Rightarrow> None
     | Some c \<Rightarrow> if cr_expires_at c < now - me_retention m then None else Some c)"
  using assms map_of_filter_pair [of "me_creds m" "\<lambda>_ c. \<not> cr_expires_at c < now - me_retention m" k]
  by (simp add: memory_sweep_def Let_def memory_abs_def memory_inv_def time_add_def split: option.splits)

lemma memory_sweep_retention [simp]: "me_retention (memory_sweep now m) = me_retention m"
  by (simp add: memory_sweep_def Let_def)

lemma rand_read_length: "rand_read n g = (Some buf, g') \<Longrightarrow> length buf = n"
  by (auto simp: rand_read_def split: if_splits)

lemma randCrockford_Some:
  "randCrockford n g = (Some s, g') \<Longrightarrow>
   \<exists>buf. length buf = n \<and> s = map (\<lambda>b. crockford32 ! (ord b mod length crockford32)) buf"
  by (auto simp: randCrockford_def split: prod.splits option.splits dest: rand_read_length)

lemma randBase64URL_length: "randBase64URL n g = (Some s, g') \<Longrightarrow> length s = (4 * n + 2) div 3"
  by (auto simp: randBase64URL_def length_b64url_encode split: prod.splits option.splits dest: rand_read_length)

lemma mint_Inr:
  assumes "mint u i t g = (Inr c, g')"
  obtains buf where "length buf = 16"
    "cr_access_key_id c = akidPrefix @ map (\<lambda>b. crockford32 ! (ord b mod length crockford32)) buf"
    "length (cr_secret_access_key c) = 40" "length (cr_session_token c) = 43"
    "cr_username c = u" "cr_issuer c = i" "cr_expires_at c = t"
proof -
  obtain akid g1 secret g2 token where
    *: "randCrockford 16 g = (Some akid, g1)" "randBase64URL 30 g1 = (Some secret, g2)"
      "randBase64URL 32 g2 = (Some token, g')" and
    c: "c = \<lparr>cr_access_key_id = akidPrefix @ akid, cr_secret_access_key = secret,
          cr_session_token = token, cr_username = u, cr_issuer = i, cr_expires_at = t\<rparr>"
    using assms by (auto simp: mint_def split: prod.splits option.splits)
  show thesis
    using randCrockford_Some [OF *(1)] randBase64URL_length [OF *(2)] randBase64URL_length [OF *(3)]
      that c by auto
qed

text \<open>Minting succeeds when the three reads of the random source do.\<close>

lemma rand_read_ok:
  "\<not> rs_fails g (rs_reads g) \<Longrightarrow> \<exists>buf g'. rand_read n g = (Some buf, g') \<and>
     rs_fails g' = rs_fails g \<and> rs_reads g' = rs_reads g + 1"
  by (simp add: rand_read_def)

lemma mint_ok:
  assumes "\<forall>i \<in> {rs_reads g, rs_reads g + 1, rs_reads g + 2}. \<not> rs_fails g i"
  shows "\<exists>c g'. mint u i t g = (Inr c, g')"
proof -
  obtain b1 g1 where 1: "rand_read 16 g = (Some b1, g1)" "rs_fails g1 = rs_fails g" "rs_reads g1 = rs_reads g + 1"
    using rand_read_ok [of g 16] assms by auto
  obtain b2 g2 where 2: "rand_read 30 g1 = (Some b2, g2)" "rs_fails g2 = rs_fails g" "rs_reads g2 = rs_reads g + 2"
    using rand_read_ok [of g1 30] assms 1 by auto
  obtain b3 g3 where 3: "rand_read 32 g2 = (Some b3, g3)"
    using rand_read_ok [of g2 32] assms 2 by auto
  show ?thesis using 1 2 3 by (simp add: mint_def randCrockford_def randBase64URL_def)
qed

text \<open>Every character of the alphabet is a letter or a digit.\<close>

lemma crockford_alnum: "is_alnum (crockford32 ! (n mod length crockford32))"
proof -
  have "list_all is_alnum crockford32" by code_simp
  moreover have "n mod length crockford32 < length crockford32" by (simp add: crockford32_def)
  ultimately show ?thesis by (simp add: list_all_length)
qed

lemma mint_akid_alnum: "mint u i t g = (Inr c, g') \<Longrightarrow> list_all is_alnum (cr_access_key_id c)"
proof (erule mint_Inr)
  have p: "list_all is_alnum akidPrefix" by code_simp
  fix buf :: bytes
  assume "cr_access_key_id c = akidPrefix @ map (\<lambda>b. crockford32 ! (ord b mod length crockford32)) buf"
  then show "list_all is_alnum (cr_access_key_id c)"
    using p crockford_alnum by (auto simp: list_all_iff)
qed

section \<open>Refinement of an abstract store\<close>

text \<open>The abstract store is a map. Its operations are those of the Go interface and the tick of
  the sweeper; each has an output.\<close>

datatype store_op =
    OpPut credentials
  | OpGet string
  | OpDelete string
  | OpCount time
  | OpTick time

datatype store_out =
    Done
  | Found "credentials option"
  | Counted nat

fun spec_step :: "duration \<Rightarrow> store_op \<Rightarrow> (string \<rightharpoonup> credentials) \<Rightarrow> store_out \<times> (string \<rightharpoonup> credentials)" where
  "spec_step ret (OpPut c) m = (Done, m(cr_access_key_id c \<mapsto> c))"
| "spec_step ret (OpGet k) m = (Found (m k), m)"
| "spec_step ret (OpDelete k) m = (Done, m(k := None))"
| "spec_step ret (OpCount now) m = (Counted (card {k. \<exists>c. m k = Some c \<and> now < cr_expires_at c}), m)"
| "spec_step ret (OpTick now) m =
     (Done, \<lambda>k. case m k of None \<Rightarrow> None | Some c \<Rightarrow> if cr_expires_at c < now - ret then None else Some c)"

fun memory_step :: "store_op \<Rightarrow> memory \<Rightarrow> store_out \<times> memory" where
  "memory_step (OpPut c) m = (Done, snd (memory_put c m))"
| "memory_step (OpGet k) m = (case memory_get k m of (r, m') \<Rightarrow> (Found (projr r), m'))"
| "memory_step (OpDelete k) m = (Done, snd (memory_delete k m))"
| "memory_step (OpCount now) m = (case memory_count now m of (r, m') \<Rightarrow> (Counted (projr r), m'))"
| "memory_step (OpTick now) m = (Done, memory_tick now m)"

fun run_ops :: "('o \<Rightarrow> 's \<Rightarrow> 'r \<times> 's) \<Rightarrow> 'o list \<Rightarrow> 's \<Rightarrow> 'r list \<times> 's" where
  "run_ops step [] s = ([], s)"
| "run_ops step (x # xs) s = (case step x s of (r, s') \<Rightarrow> case run_ops step xs s' of (rs, s'') \<Rightarrow> (r # rs, s''))"

lemma card_live:
  assumes "distinct (map fst cs)"
  shows "card {k. \<exists>c. map_of cs k = Some c \<and> now < cr_expires_at c} =
    length (filter (\<lambda>(_, c). \<not> expired c now) cs)"
proof -
  let ?f = "filter (\<lambda>(_, c). \<not> expired c now) cs"
  have "k \<in> {k. \<exists>c. map_of cs k = Some c \<and> now < cr_expires_at c} \<longleftrightarrow> k \<in> fst ` set ?f" for k
    unfolding map_of_eq_Some_iff [OF assms] by (auto simp: expired_def image_iff)
  then have "{k. \<exists>c. map_of cs k = Some c \<and> now < cr_expires_at c} = set (map fst ?f)"
    by auto
  then show ?thesis
    using distinct_card [OF distinct_map_filter_fst [OF assms]] by simp
qed

lemma memory_step_refines:
  assumes "memory_inv m" "\<not> me_stopped m"
  shows "fst (memory_step x m) = fst (spec_step (me_retention m) x (memory_abs m)) \<and>
    memory_abs (snd (memory_step x m)) = snd (spec_step (me_retention m) x (memory_abs m)) \<and>
    memory_inv (snd (memory_step x m)) \<and> \<not> me_stopped (snd (memory_step x m)) \<and>
    me_retention (snd (memory_step x m)) = me_retention m"
proof (cases x)
  case (OpCount now)
  then show ?thesis using assms card_live [of "me_creds m" now]
    by (simp add: memory_count_def count_live_acc memory_abs_def memory_inv_def)
next
  case (OpTick now)
  have a: "memory_abs (memory_sweep now m) = (\<lambda>k. case memory_abs m k of None \<Rightarrow> None
      | Some c \<Rightarrow> if cr_expires_at c < now - me_retention m then None else Some c)"
    by (rule ext) (rule memory_sweep_abs [OF assms(1)])
  have "me_stopped (memory_sweep now m) = me_stopped m" by (simp add: memory_sweep_def Let_def)
  with OpTick show ?thesis using assms memory_sweep_inv [OF assms(1), of now] a
    by (simp add: memory_tick_def)
next
  case (OpPut c)
  then show ?thesis using assms memory_put_inv [OF assms(1), of c]
    by (simp add: memory_put_def memory_abs_def update_conv')
next
  case (OpDelete k)
  then show ?thesis using assms memory_delete_inv [OF assms(1), of k]
    by (simp add: memory_delete_def memory_abs_def delete_conv')
qed (use assms in \<open>simp add: memory_get_def memory_abs_def\<close>)


text \<open>C12: the memory store refines a map. Every sequence of puts, gets, deletes, counts and
  sweeps on a store that is not closed answers as the abstract store does, the counts being
  the number of unexpired records, and leaves a store that represents the abstract one and
  keeps the invariant (each access key ID once, each record under its own).\<close>

theorem memory_refines_map:
  assumes "memory_inv m" "\<not> me_stopped m"
  shows "fst (run_ops memory_step xs m) = fst (run_ops (spec_step (me_retention m)) xs (memory_abs m)) \<and>
    memory_abs (snd (run_ops memory_step xs m)) = snd (run_ops (spec_step (me_retention m)) xs (memory_abs m)) \<and>
    memory_inv (snd (run_ops memory_step xs m))"
  using assms
proof (induction xs arbitrary: m)
  case (Cons x xs)
  have r: "fst (memory_step x m) = fst (spec_step (me_retention m) x (memory_abs m))"
    "memory_abs (snd (memory_step x m)) = snd (spec_step (me_retention m) x (memory_abs m))"
    "memory_inv (snd (memory_step x m))" "\<not> me_stopped (snd (memory_step x m))"
    "me_retention (snd (memory_step x m)) = me_retention m"
    using memory_step_refines [OF Cons.prems, of x] by simp_all
  show ?case using Cons.IH [OF r(3,4)] r by (simp add: split_def)
qed simp

definition demo_creds :: "string \<Rightarrow> time \<Rightarrow> credentials" where
  "demo_creds k t = \<lparr>cr_access_key_id = k, cr_secret_access_key = ''s'', cr_session_token = ''t'',
     cr_username = ''alice'', cr_issuer = ''kc'', cr_expires_at = t\<rparr>"

theorem memory_refines_map_witness:
  "fst (run_ops memory_step [OpPut (demo_creds ''A'' 10), OpPut (demo_creds ''B'' 30), OpDelete ''A'', OpGet ''A'',
      OpCount 20] (newMemory [])) =
   [Done, Done, Done, Found None, Counted 1]"
proof -
  have "memory_inv (newMemory [])" "\<not> me_stopped (newMemory [])" by code_simp+
  from memory_refines_map [OF this, of "[OpPut (demo_creds ''A'' 10), OpPut (demo_creds ''B'' 30), OpDelete ''A'',
      OpGet ''A'', OpCount 20]"] show ?thesis
    by (simp add: newMemory_def memory_abs_def demo_creds_def card_1_singleton_iff)
qed

text \<open>C37: the sweeper drops exactly what has been expired for longer than the retention. With a
  retention that is not negative no live record is dropped, so a client whose credentials
  expired within the retention is told that they expired, and one whose credentials are live
  is never told that they do not exist.\<close>

theorem sweep_keeps_live:
  assumes "memory_inv m" "0 \<le> me_retention m" "memory_abs m k = Some c" "\<not> expired c now"
  shows "memory_get k (memory_tick now m) = (Inr (Some c), memory_tick now m)"
proof -
  have "\<not> cr_expires_at c < now - me_retention m" using assms(2,4) by (simp add: expired_def)
  then have "memory_abs (memory_sweep now m) k = Some c" using assms by (simp add: memory_sweep_abs)
  then show ?thesis using assms(3) by (simp add: memory_get_def memory_tick_def memory_abs_def)
qed

theorem sweep_keeps_live_witness:
  "fst (memory_get ''B'' (memory_tick 20 (snd (memory_put (demo_creds ''B'' 30) (newMemory []))))) =
     Inr (Some (demo_creds ''B'' 30))"
proof -
  let ?m = "snd (memory_put (demo_creds ''B'' 30) (newMemory []))"
  have "memory_inv ?m" "0 \<le> me_retention ?m" "memory_abs ?m ''B'' = Some (demo_creds ''B'' 30)"
    "\<not> expired (demo_creds ''B'' 30) 20" by code_simp+
  from sweep_keeps_live [OF this] show ?thesis by simp
qed

text \<open>C38: the shape of minted credentials. The access key ID is \<open>OZPX\<close> and sixteen characters of
  Crockford's alphabet, the secret has 40 characters and the session token 43; nothing in the
  access key ID can break a credential scope.\<close>

theorem mint_shape:
  assumes "mint u i t g = (Inr c, g')"
  shows "length (cr_access_key_id c) = 20 \<and> has_prefix ''OZPX'' (cr_access_key_id c) \<and>
    set (drop 4 (cr_access_key_id c)) \<subseteq> set crockford32 \<and> list_all is_alnum (cr_access_key_id c) \<and>
    length (cr_secret_access_key c) = 40 \<and> length (cr_session_token c) = 43 \<and>
    cr_username c = u \<and> cr_issuer c = i \<and> cr_expires_at c = t"
proof -
  obtain buf where b: "length buf = 16"
    "cr_access_key_id c = akidPrefix @ map (\<lambda>b. crockford32 ! (ord b mod length crockford32)) buf"
    "length (cr_secret_access_key c) = 40" "length (cr_session_token c) = 43"
    "cr_username c = u" "cr_issuer c = i" "cr_expires_at c = t"
    using assms by (rule mint_Inr)
  have "crockford32 ! (n mod length crockford32) \<in> set crockford32" for n
    by (simp add: crockford32_def del: set_simps)
  then have "set (drop 4 (cr_access_key_id c)) \<subseteq> set crockford32"
    using b(2) by (auto simp: akidPrefix_def)
  then show ?thesis using b mint_akid_alnum [OF assms] by (simp add: akidPrefix_def has_prefix_def)
qed

theorem mint_shape_witness:
  "\<exists>c g'. mint ''alice'' ''kc'' 30 \<lparr>rs_byte = (\<lambda>_. CHR ''z''), rs_fails = (\<lambda>_. False), rs_pos = 0, rs_reads = 0\<rparr>
     = (Inr c, g') \<and> length (cr_access_key_id c) = 20 \<and> length (cr_session_token c) = 43"
proof -
  let ?g = "\<lparr>rs_byte = (\<lambda>_. CHR ''z''), rs_fails = (\<lambda>_. False), rs_pos = 0, rs_reads = 0\<rparr>"
  obtain c g' where m: "mint ''alice'' ''kc'' 30 ?g = (Inr c, g')" using mint_ok [of ?g "''alice''" "''kc''" 30] by auto
  then show ?thesis using mint_shape [OF m] by auto
qed

end
