(* ===== verification/Sts.thy ===== *)
theory Sts
  imports Oidc Store Go_Xml
begin

text \<open>
  Package \<open>internal/sts\<close>: the AssumeRoleWithWebIdentity token exchange. The handler changes the
  credential store, the validator and the source of randomness; the value it passes to
  \<open>OnExchange\<close>, once per attempt, is part of its result. The validator and the store are the
  interfaces the Go handler holds. \<open>quote\<close> renders a string as the verb \<open>%q\<close> does.
\<close>

definition Action :: string where "Action = ''AssumeRoleWithWebIdentity''"

definition codeValidationError :: string where "codeValidationError = ''ValidationError''"

definition codeInvalidIdentityToken :: string where
  "codeInvalidIdentityToken = ''InvalidIdentityToken''"

definition codeExpiredToken :: string where "codeExpiredToken = ''ExpiredTokenException''"

definition codeIDPCommunicationError :: string where
  "codeIDPCommunicationError = ''IDPCommunicationError''"

definition codeAccessDenied :: string where "codeAccessDenied = ''AccessDenied''"

definition codeServiceFailure :: string where "codeServiceFailure = ''ServiceFailure''"

definition stsXMLNS :: string where "stsXMLNS = ''https://sts.amazonaws.com/doc/2011-06-15/''"

record sts_result =
  sr_issuer :: string
  sr_code :: string

record success_data =
  sd_subject :: string
  sd_provider :: string
  sd_role_arn :: string
  sd_session_name :: string
  sd_creds :: credentials
  sd_request_id :: string

section \<open>Responses\<close>

definition writeXML :: "int \<Rightarrow> xml \<Rightarrow> response" where
  "writeXML status v = \<lparr>rp_status = status, rp_header = [(''Content-Type'', [''text/xml''])],
     rp_body = xml_document v\<rparr>"

definition assumeRoleResponse :: "success_data \<Rightarrow> xml" where
  "assumeRoleResponse d =
     XElem ''AssumeRoleWithWebIdentityResponse'' [(''xmlns'', stsXMLNS)]
       [XElem ''AssumeRoleWithWebIdentityResult'' []
          [XText ''SubjectFromWebIdentityToken'' (sd_subject d),
           XElem ''AssumedRoleUser'' []
             [XText ''AssumedRoleId'' (''OZPXROLEID:'' @ sd_session_name d),
              XText ''Arn'' (sd_role_arn d @ ''/'' @ sd_session_name d)],
           XElem ''Credentials'' []
             [XText ''AccessKeyId'' (cr_access_key_id (sd_creds d)),
              XText ''SecretAccessKey'' (cr_secret_access_key (sd_creds d)),
              XText ''SessionToken'' (cr_session_token (sd_creds d)),
              XText ''Expiration'' (format_rfc3339 (cr_expires_at (sd_creds d)))],
           XText ''Provider'' (sd_provider d)],
        XElem ''ResponseMetadata'' [] [XText ''RequestId'' (sd_request_id d)]]"

definition writeSuccess :: "success_data \<Rightarrow> response" where
  "writeSuccess d = writeXML 200 (assumeRoleResponse d)"

definition errorResponse :: "string \<Rightarrow> string \<Rightarrow> string \<Rightarrow> xml" where
  "errorResponse code message reqID =
     XElem ''ErrorResponse'' [(''xmlns'', stsXMLNS)]
       [XElem ''Error'' [] [XText ''Type'' ''Sender'', XText ''Code'' code, XText ''Message'' message],
        XText ''RequestId'' reqID]"

definition writeError :: "int \<Rightarrow> string \<Rightarrow> string \<Rightarrow> string \<Rightarrow> response" where
  "writeError status code message reqID = writeXML status (errorResponse code message reqID)"

definition newRequestID :: "rand_source \<Rightarrow> string \<times> rand_source" where
  "newRequestID g =
     (case rand_read 16 g of
        (None, g') \<Rightarrow> (replicate 32 (CHR ''0''), g')
      | (Some buf, g') \<Rightarrow> (hex_encode buf, g'))"

section \<open>Token errors\<close>

definition mapTokenError :: "token_error \<Rightarrow> string \<times> int" where
  "mapTokenError e =
     (case e of
        ErrTokenExpired \<Rightarrow> (codeExpiredToken, 400)
      | ErrIssuerUnavailable _ \<Rightarrow> (codeIDPCommunicationError, 400)
      | _ \<Rightarrow> (codeInvalidIdentityToken, 400))"

definition publicTokenErrorMessage :: "token_error \<Rightarrow> string" where
  "publicTokenErrorMessage e =
     (case e of
        ErrTokenExpired \<Rightarrow> ''web identity token is expired''
      | ErrIssuerUnavailable _ \<Rightarrow> ''could not reach the identity provider''
      | ErrUnknownIssuer _ \<Rightarrow> ''token issuer is not trusted''
      | ErrBadUsername _ \<Rightarrow> ''token username is not acceptable''
      | ErrTokenInvalid _ \<Rightarrow> ''web identity token could not be validated'')"

section \<open>The exchange\<close>

text \<open>The pattern \<open>^[\w+=,.@-]{2,64}$\<close>.\<close>

definition roleSessionNameMatches :: "string \<Rightarrow> bool" where
  "roleSessionNameMatches s \<longleftrightarrow> 2 \<le> length s \<and> length s \<le> 64 \<and>
     list_all (\<lambda>c. is_alnum c \<or> c \<in> set ''_+=,.@-'') s"

text \<open>The effective time to live, with the 64-bit products of the source.\<close>

definition effectiveTTL :: "int \<Rightarrow> int \<Rightarrow> time \<Rightarrow> time \<Rightarrow> duration" where
  "effectiveTTL maxDuration requested expiry now =
     (let ttl0 = time_sub expiry now;
          max_ttl = seconds maxDuration;
          ttl1 = (if max_ttl < ttl0 then max_ttl else ttl0)
      in if 0 < requested
         then (let req = seconds requested in if req < ttl1 then req else ttl1)
         else ttl1)"

text \<open>The state that an exchange reads and changes.\<close>

record ('s, 'v) sts_state =
  sw_store :: 's
  sw_validator :: 'v
  sw_rand :: rand_source

text \<open>The parameters of the form, checked in the order of the source: the token, the role, the
  session name and the requested duration (0 when there is none), or the rejection.\<close>

definition exchange_params ::
  "(string \<Rightarrow> string) \<Rightarrow> string list \<Rightarrow> request \<Rightarrow>
   (int \<times> string \<times> string) + (string \<times> string \<times> string \<times> int)" where
  "exchange_params quote allowlist r =
     (if r_method r \<noteq> ''POST'' then Inl (405, codeValidationError, ''only POST is supported'')
      else case parse_form r (r_body r) of (form, ok) \<Rightarrow>
        if \<not> ok then Inl (400, codeValidationError, ''malformed form body'')
        else if values_get form ''Action'' \<noteq> Action
          then Inl (400, codeValidationError, ''unsupported Action '' @ quote (values_get form ''Action''))
        else
          let token = values_get form ''WebIdentityToken''; roleArn = values_get form ''RoleArn'';
              sessionName = (if values_get form ''RoleSessionName'' = [] then ''web-identity''
                             else values_get form ''RoleSessionName'');
              v = values_get form ''DurationSeconds''
          in if token = [] then Inl (400, codeValidationError, ''WebIdentityToken is required'')
             else if roleArn = [] then Inl (400, codeValidationError, ''RoleArn is required'')
             else if allowlist \<noteq> [] \<and> roleArn \<notin> set allowlist
               then Inl (403, codeAccessDenied, ''RoleArn '' @ quote roleArn @ '' is not allowed'')
             else if \<not> roleSessionNameMatches sessionName
               then Inl (400, codeValidationError, ''invalid RoleSessionName'')
             else if v = [] then Inr (token, roleArn, sessionName, 0)
             else (case atoi v of
                 None \<Rightarrow> Inl (400, codeValidationError, ''invalid DurationSeconds'')
               | Some n \<Rightarrow> if n \<le> 0 then Inl (400, codeValidationError, ''invalid DurationSeconds'')
                           else Inr (token, roleArn, sessionName, n)))"

definition sts_serve ::
  "(string \<Rightarrow> string) \<Rightarrow> 's store_impl \<Rightarrow> (clock \<Rightarrow> string \<Rightarrow> 'v \<Rightarrow> (token_error + identity) \<times> 'v) \<Rightarrow>
   sts_cfg \<Rightarrow> clock \<Rightarrow> request \<Rightarrow> ('s, 'v) sts_state \<Rightarrow> response \<times> sts_result \<times> ('s, 'v) sts_state" where
  "sts_serve quote impl validator cfg clk r w =
     (case newRequestID (sw_rand w) of (reqID, g0) \<Rightarrow>
      let w0 = w\<lparr>sw_rand := g0\<rparr> in
      case exchange_params quote (sc_role_arn_allowlist cfg) r of
        Inl (status, code, msg) \<Rightarrow>
          (writeError status code msg reqID, \<lparr>sr_issuer = [], sr_code = code\<rparr>, w0)
      | Inr (token, roleArn, sessionName, requested) \<Rightarrow>
          (case validator clk token (sw_validator w0) of
             (Inl e, v) \<Rightarrow>
               (case mapTokenError e of (code, status) \<Rightarrow>
                  (writeError status code (publicTokenErrorMessage e) reqID,
                   \<lparr>sr_issuer = [], sr_code = code\<rparr>, w0\<lparr>sw_validator := v\<rparr>))
           | (Inr ident, v) \<Rightarrow>
               let w1 = w0\<lparr>sw_validator := v\<rparr>;
                   now = clk At_exchange;
                   ttl = effectiveTTL (sc_max_duration cfg) requested (id_expiry ident) now;
                   issuer = id_issuer_name ident
               in if ttl \<le> 0 then
                    (writeError 400 codeExpiredToken ''web identity token is expired'' reqID,
                     \<lparr>sr_issuer = issuer, sr_code = codeExpiredToken\<rparr>, w1)
                  else
                    (case mint (id_username ident) issuer (time_add now ttl) (sw_rand w1) of
                       (Inl _, g) \<Rightarrow>
                         (writeError 500 codeServiceFailure ''credential minting failed'' reqID,
                          \<lparr>sr_issuer = issuer, sr_code = codeServiceFailure\<rparr>, w1\<lparr>sw_rand := g\<rparr>)
                     | (Inr creds, g) \<Rightarrow>
                         let w2 = w1\<lparr>sw_rand := g\<rparr> in
                         (case st_put impl creds (sw_store w2) of
                            (Some _, s) \<Rightarrow>
                              (writeError 500 codeServiceFailure ''credential store unavailable'' reqID,
                               \<lparr>sr_issuer = issuer, sr_code = codeServiceFailure\<rparr>, w2\<lparr>sw_store := s\<rparr>)
                          | (None, s) \<Rightarrow>
                              (writeSuccess \<lparr>sd_subject = id_subject ident, sd_provider = id_issuer_url ident,
                                 sd_role_arn = roleArn, sd_session_name = sessionName, sd_creds = creds,
                                 sd_request_id = reqID\<rparr>,
                               \<lparr>sr_issuer = issuer, sr_code = []\<rparr>, w2\<lparr>sw_store := s\<rparr>)))))"

section \<open>Facts\<close>

lemma effectiveTTL_le:
  "effectiveTTL m req expiry now \<le> time_sub expiry now" "effectiveTTL m req expiry now \<le> seconds m"
  "0 < req \<Longrightarrow> effectiveTTL m req expiry now \<le> seconds req"
  by (auto simp: effectiveTTL_def Let_def)

lemma effectiveTTL_min:
  "effectiveTTL m req expiry now =
     (if 0 < req then min (min (time_sub expiry now) (seconds m)) (seconds req)
      else min (time_sub expiry now) (seconds m))"
  by (auto simp: effectiveTTL_def Let_def min_def)

lemma time_sub_pos: "0 < time_sub t u \<Longrightarrow> time_sub t u \<le> t - u"
  by (auto simp: time_sub_def min_int64_def split: if_splits)

text \<open>The steps of a successful exchange.\<close>

lemma sts_serve_success:
  assumes "sts_serve quote impl validator cfg clk r w = (resp, res, w')" "sr_code res = []"
  obtains token roleArn sessionName requested ident v creds g reqID g0 where
    "exchange_params quote (sc_role_arn_allowlist cfg) r = Inr (token, roleArn, sessionName, requested)"
    "newRequestID (sw_rand w) = (reqID, g0)"
    "validator clk token (sw_validator w) = (Inr ident, v)"
    "0 < effectiveTTL (sc_max_duration cfg) requested (id_expiry ident) (clk At_exchange)"
    "mint (id_username ident) (id_issuer_name ident) (clk At_exchange +
       effectiveTTL (sc_max_duration cfg) requested (id_expiry ident) (clk At_exchange)) g0 = (Inr creds, g)"
    "st_put impl creds (sw_store w) = (None, sw_store w')"
    "resp = writeSuccess \<lparr>sd_subject = id_subject ident, sd_provider = id_issuer_url ident,
       sd_role_arn = roleArn, sd_session_name = sessionName, sd_creds = creds, sd_request_id = reqID\<rparr>"
    "res = \<lparr>sr_issuer = id_issuer_name ident, sr_code = []\<rparr>" "sw_validator w' = v" "sw_rand w' = g"
proof -
  have codes: "codeValidationError \<noteq> []" "codeAccessDenied \<noteq> []" "codeExpiredToken \<noteq> []"
    "codeServiceFailure \<noteq> []" "codeInvalidIdentityToken \<noteq> []" "codeIDPCommunicationError \<noteq> []"
    by (simp_all add: codeValidationError_def codeAccessDenied_def codeExpiredToken_def
        codeServiceFailure_def codeInvalidIdentityToken_def codeIDPCommunicationError_def)
  obtain reqID g0 where i: "newRequestID (sw_rand w) = (reqID, g0)" by (cases "newRequestID (sw_rand w)")
  have "mapTokenError e = (c, st) \<Longrightarrow> c \<noteq> []" for e c st
    using codes by (auto simp: mapTokenError_def split: token_error.splits)
  moreover have "exchange_params quote (sc_role_arn_allowlist cfg) r = Inl (st, c, m) \<Longrightarrow> c \<noteq> []" for st c m
    using codes by (auto simp: exchange_params_def Let_def split: if_splits prod.splits option.splits)
  ultimately show thesis
    using assms codes i that unfolding sts_serve_def Let_def time_add_def
    by (auto split: sum.splits prod.splits if_splits option.splits)
qed

text \<open>What an exchange can change in the store, whatever its outcome: nothing, or a put of
  credentials minted for a validated identity.\<close>

lemma sts_serve_store:
  assumes "sts_serve quote impl validator cfg clk r w = (resp, res, w')"
  shows "sw_store w' = sw_store w \<or>
    (\<exists>token ident v creds g g' e.
       validator clk token (sw_validator w) = (Inr ident, v) \<and>
       mint (id_username ident) (id_issuer_name ident) (cr_expires_at creds) g = (Inr creds, g') \<and>
       cr_expires_at creds \<le> id_expiry ident \<and> clk At_exchange < cr_expires_at creds \<and>
       cr_expires_at creds \<le> clk At_exchange + seconds (sc_max_duration cfg) \<and>
       st_put impl creds (sw_store w) = (e, sw_store w'))"
proof (cases "sw_store w' = sw_store w")
  case False
  obtain reqID g0 where i: "newRequestID (sw_rand w) = (reqID, g0)" by (cases "newRequestID (sw_rand w)")
  from False assms i obtain token roleArn sessionName requested ident v creds g e where
    valid: "validator clk token (sw_validator w) = (Inr ident, v)"
    and ttl: "\<not> effectiveTTL (sc_max_duration cfg) requested (id_expiry ident) (clk At_exchange) \<le> 0"
    and mint: "mint (id_username ident) (id_issuer_name ident) (clk At_exchange +
       effectiveTTL (sc_max_duration cfg) requested (id_expiry ident) (clk At_exchange)) g0 = (Inr creds, g)"
    and put: "st_put impl creds (sw_store w) = (e, sw_store w')"
    unfolding sts_serve_def Let_def time_add_def
    by (auto split: sum.splits prod.splits if_splits option.splits)
  let ?ttl = "effectiveTTL (sc_max_duration cfg) requested (id_expiry ident) (clk At_exchange)"
  have exp: "cr_expires_at creds = clk At_exchange + ?ttl" using mint by (rule mint_Inr)
  have "?ttl \<le> id_expiry ident - clk At_exchange"
    using ttl effectiveTTL_le(1) [of "sc_max_duration cfg" requested "id_expiry ident" "clk At_exchange"]
      time_sub_pos [of "id_expiry ident" "clk At_exchange"] by linarith
  moreover have "?ttl \<le> seconds (sc_max_duration cfg)" by (rule effectiveTTL_le(2))
  ultimately have "cr_expires_at creds \<le> id_expiry ident" "clk At_exchange < cr_expires_at creds"
    "cr_expires_at creds \<le> clk At_exchange + seconds (sc_max_duration cfg)"
    using ttl exp by linarith+
  then show ?thesis using valid mint [folded exp] put by blast
qed simp

text \<open>An exchange with acceptable parameters, an accepted token, time left, a working random
  source and a working store succeeds.\<close>

lemma sts_serve_ok:
  assumes "exchange_params quote (sc_role_arn_allowlist cfg) r = Inr (token, roleArn, sessionName, requested)"
    and "validator clk token (sw_validator w) = (Inr ident, v)"
    and "0 < effectiveTTL (sc_max_duration cfg) requested (id_expiry ident) (clk At_exchange)"
    and "\<forall>i. \<not> rs_fails (sw_rand w) i" and "\<And>c. \<exists>s. st_put impl c (sw_store w) = (None, s)"
  shows "\<exists>resp res w'. sts_serve quote impl validator cfg clk r w = (resp, res, w') \<and> sr_code res = []"
proof -
  obtain reqID g0 where g0: "newRequestID (sw_rand w) = (reqID, g0)" "rs_fails g0 = rs_fails (sw_rand w)"
    using assms(4) by (auto simp: newRequestID_def rand_read_def)
  let ?t = "time_add (clk At_exchange) (effectiveTTL (sc_max_duration cfg) requested (id_expiry ident) (clk At_exchange))"
  obtain c g1 where c: "mint (id_username ident) (id_issuer_name ident) ?t g0 = (Inr c, g1)"
    using mint_ok [of g0] g0 assms(4) by fastforce
  obtain s where "st_put impl c (sw_store w) = (None, s)" using assms(5) by blast
  then show ?thesis using assms(1-3) g0(1) c by (simp add: sts_serve_def Let_def)
qed

section \<open>Properties\<close>

text \<open>C20: what a successful exchange does. The role is allowed, the session name well formed, the
  token was accepted by the validator; the credentials put into the store and returned to
  the client are minted for the identity of the token, expire after the exchange, not after
  the token, and not after \<open>max_duration\<close> and the requested duration; and \<open>OnExchange\<close> gets the
  issuer with an empty code.\<close>

theorem exchange_success:
  assumes "sts_serve quote impl validator cfg clk r w = (resp, res, w')" "sr_code res = []"
  shows "\<exists>token roleArn sessionName requested ident v creds g g' reqID.
    exchange_params quote (sc_role_arn_allowlist cfg) r = Inr (token, roleArn, sessionName, requested) \<and>
    validator clk token (sw_validator w) = (Inr ident, v) \<and>
    mint (id_username ident) (id_issuer_name ident) (cr_expires_at creds) g = (Inr creds, g') \<and>
    st_put impl creds (sw_store w) = (None, sw_store w') \<and>
    clk At_exchange < cr_expires_at creds \<and> cr_expires_at creds \<le> id_expiry ident \<and>
    cr_expires_at creds \<le> clk At_exchange + seconds (sc_max_duration cfg) \<and>
    (0 < requested \<longrightarrow> cr_expires_at creds \<le> clk At_exchange + seconds requested) \<and>
    resp = writeSuccess \<lparr>sd_subject = id_subject ident, sd_provider = id_issuer_url ident,
       sd_role_arn = roleArn, sd_session_name = sessionName, sd_creds = creds, sd_request_id = reqID\<rparr> \<and>
    sr_issuer res = id_issuer_name ident"
proof -
  obtain token roleArn sessionName requested ident v creds g reqID g0 where
    *: "exchange_params quote (sc_role_arn_allowlist cfg) r = Inr (token, roleArn, sessionName, requested)"
      "validator clk token (sw_validator w) = (Inr ident, v)"
      "st_put impl creds (sw_store w) = (None, sw_store w')"
      "resp = writeSuccess \<lparr>sd_subject = id_subject ident, sd_provider = id_issuer_url ident,
       sd_role_arn = roleArn, sd_session_name = sessionName, sd_creds = creds, sd_request_id = reqID\<rparr>"
      "res = \<lparr>sr_issuer = id_issuer_name ident, sr_code = []\<rparr>"
    and pos: "0 < effectiveTTL (sc_max_duration cfg) requested (id_expiry ident) (clk At_exchange)"
    and mint: "mint (id_username ident) (id_issuer_name ident) (clk At_exchange +
       effectiveTTL (sc_max_duration cfg) requested (id_expiry ident) (clk At_exchange)) g0 = (Inr creds, g)"
    using sts_serve_success [OF assms] by metis
  let ?ttl = "effectiveTTL (sc_max_duration cfg) requested (id_expiry ident) (clk At_exchange)"
  have exp: "cr_expires_at creds = clk At_exchange + ?ttl" using mint by (rule mint_Inr)
  have "?ttl \<le> id_expiry ident - clk At_exchange"
    using pos effectiveTTL_le(1) [of "sc_max_duration cfg" requested "id_expiry ident" "clk At_exchange"]
      time_sub_pos [of "id_expiry ident" "clk At_exchange"] by linarith
  then have "clk At_exchange < cr_expires_at creds" "cr_expires_at creds \<le> id_expiry ident"
    "cr_expires_at creds \<le> clk At_exchange + seconds (sc_max_duration cfg)"
    "0 < requested \<longrightarrow> cr_expires_at creds \<le> clk At_exchange + seconds requested"
    using exp pos effectiveTTL_le [where m = "sc_max_duration cfg" and req = requested
      and expiry = "id_expiry ident" and now = "clk At_exchange"] by auto
  then show ?thesis using * mint [folded exp] by (metis sts_result.select_convs(1))
qed

text \<open>A concrete exchange: a validator that knows one token, the memory store, and a form.\<close>

definition demo_validator :: "clock \<Rightarrow> string \<Rightarrow> unit \<Rightarrow> (token_error + identity) \<times> unit" where
  "demo_validator clk raw v =
     (if raw = ''jwt'' then (Inr \<lparr>id_username = ''alice'', id_subject = ''7f3'', id_issuer_name = ''kc'',
         id_issuer_url = ''https://idp'', id_expiry = 1700001000000000000\<rparr>, v)
      else (Inl ErrTokenExpired, v))"

definition demo_form :: "string \<Rightarrow> request" where
  "demo_form body = \<lparr>r_method = ''POST'', r_url = empty_url\<lparr>u_path := ''/''\<rparr>, r_request_uri = ''/'',
     r_host = ''s3'', r_header = [(''Content-Type'', [form_type])], r_content_length = int (length body),
     r_body = Some body, r_client_ip = None, r_tls = False\<rparr>"

definition demo_request :: request where
  "demo_request =
     demo_form ''Action=AssumeRoleWithWebIdentity&RoleArn=arn:x&WebIdentityToken=jwt&DurationSeconds=900''"

definition demo_state :: "(memory, unit) sts_state" where
  "demo_state = \<lparr>sw_store = newMemory [], sw_validator = (),
     sw_rand = \<lparr>rs_byte = (\<lambda>i. CHR ''z''), rs_fails = (\<lambda>_. False), rs_pos = 0, rs_reads = 0\<rparr>\<rparr>"

definition demo_cfg :: sts_cfg where
  "demo_cfg = \<lparr>sc_max_duration = 3600, sc_role_arn_allowlist = [''arn:x'']\<rparr>"

definition demo_clock :: clock where
  "demo_clock = (\<lambda>_. 1700000000000000000)"

lemma demo_params:
  "exchange_params id [''arn:x''] demo_request = Inr (''jwt'', ''arn:x'', ''web-identity'', 900)"
  by code_simp

lemma demo_exchange:
  "\<exists>resp res w. sts_serve id memory_impl demo_validator demo_cfg demo_clock demo_request demo_state =
     (resp, res, w) \<and> sr_code res = []"
proof -
  have "0 < effectiveTTL (sc_max_duration demo_cfg) 900 1700001000000000000 (demo_clock At_exchange)"
    by code_simp
  then show ?thesis
    using demo_params
    by (intro sts_serve_ok)
      (auto simp: demo_cfg_def demo_validator_def demo_state_def memory_impl_def memory_put_def)
qed

theorem exchange_success_witness:
  "\<exists>creds s. st_put memory_impl creds (newMemory []) = (None, s) \<and>
     cr_expires_at creds \<le> 1700000000000000000 + seconds 900 \<and> cr_expires_at creds \<le> 1700001000000000000"
proof -
  obtain resp res w where
    x: "sts_serve id memory_impl demo_validator demo_cfg demo_clock demo_request demo_state = (resp, res, w)"
      "sr_code res = []"
    using demo_exchange by blast
  show ?thesis
    using exchange_success [OF x] demo_params
    by (fastforce simp: demo_cfg_def demo_clock_def demo_state_def demo_validator_def)
qed

text \<open>The computed lifetime is the minimum of the three bounds the comment names, as long as
  both durations are below 9223372037 seconds, the range in which \<open>time.Duration\<close> can hold
  them.\<close>

theorem ttl_is_minimum:
  assumes "0 < maxDuration" "maxDuration \<le> 9223372036" "0 < requested" "requested \<le> 9223372036"
  shows "effectiveTTL maxDuration requested expiry now =
    min (min (time_sub expiry now) (maxDuration * second)) (requested * second)"
  using assms by (simp add: effectiveTTL_min seconds_id)


definition demo_oversized :: request where
  "demo_oversized =
     demo_form ''Action=AssumeRoleWithWebIdentity&RoleArn=arn:x&WebIdentityToken=jwt&DurationSeconds=9223372037''"

lemma demo_oversized_params:
  "exchange_params id (sc_role_arn_allowlist demo_cfg) demo_oversized =
     Inr (''jwt'', ''arn:x'', ''web-identity'', 9223372037)"
proof -
  have f: "parse_form demo_oversized (r_body demo_oversized) =
     ([(''Action'', ''AssumeRoleWithWebIdentity''), (''RoleArn'', ''arn:x''), (''WebIdentityToken'', ''jwt''),
       (''DurationSeconds'', ''9223372037'')], True)" by code_simp
  have m: "r_method demo_oversized = ''POST''" "roleSessionNameMatches ''web-identity''" by code_simp+
  have a: "atoi ''9223372037'' = Some 9223372037"
    by (simp add: atoi_def digits_val_def digit_val_def is_digit_def min_int64_def max_int64_def)
  show ?thesis
    by (simp add: exchange_params_def f m a Action_def values_get_def demo_cfg_def)
qed


end
