(* ===== verification/Server.thy ===== *)
theory Server
  imports Forward Sts
begin

text \<open>
  Package \<open>internal/server\<close>: the dispatch of requests to the STS, Bearer, SigV4 and presigned
  lanes (\<open>server.go\<close>) and the metrics they keep (\<open>metrics.go\<close>). A handler takes the server, the
  clock readings of the request, the request and the state, and returns the reply and the new
  state. Log lines are left out.
\<close>

section \<open>Metrics\<close>

text \<open>Counters by their labels. Of the two histograms the number of observations by lane is
  kept; the observed durations are wall-clock time.\<close>

record metrics =
  m_sts_exchanges :: "string \<times> string \<Rightarrow> nat"
  m_bearer_auth :: "string \<times> string \<Rightarrow> nat"
  m_sigv4_verifies :: "string \<Rightarrow> nat"
  m_presigned_verifies :: "string \<Rightarrow> nat"
  m_upstream :: "string \<Rightarrow> nat"
  m_upstream_errors :: nat
  m_revocations :: "string \<Rightarrow> nat"
  m_duration :: "string \<Rightarrow> nat"
  m_verify_duration :: "string \<Rightarrow> nat"

definition newMetrics :: metrics where
  "newMetrics = \<lparr>m_sts_exchanges = (\<lambda>_. 0), m_bearer_auth = (\<lambda>_. 0), m_sigv4_verifies = (\<lambda>_. 0),
     m_presigned_verifies = (\<lambda>_. 0), m_upstream = (\<lambda>_. 0), m_upstream_errors = 0,
     m_revocations = (\<lambda>_. 0), m_duration = (\<lambda>_. 0), m_verify_duration = (\<lambda>_. 0)\<rparr>"

definition inc :: "'l \<Rightarrow> ('l \<Rightarrow> nat) \<Rightarrow> 'l \<Rightarrow> nat" where
  "inc l f = f(l := f l + 1)"

definition observeUpstream :: "int \<Rightarrow> metrics \<Rightarrow> metrics" where
  "observeUpstream status m = m\<lparr>m_upstream := inc (itoa status) (m_upstream m)\<rparr>"

definition observeUpstreamError :: "metrics \<Rightarrow> metrics" where
  "observeUpstreamError m = m\<lparr>m_upstream_errors := m_upstream_errors m + 1\<rparr>"

definition observeDuration :: "string \<Rightarrow> metrics \<Rightarrow> metrics" where
  "observeDuration lane m = m\<lparr>m_duration := inc lane (m_duration m)\<rparr>"

definition observeVerification :: "string \<Rightarrow> metrics \<Rightarrow> metrics" where
  "observeVerification lane m = m\<lparr>m_verify_duration := inc lane (m_verify_duration m)\<rparr>"

definition resultLabel :: "string \<Rightarrow> string" where
  "resultLabel code = (if code = [] then ''success'' else code)"

definition orUnknown :: "string \<Rightarrow> string" where
  "orUnknown s = (if s = [] then ''unknown'' else s)"

text \<open>One scrape of the store: whether it answered, and the number of live credentials only
  when it did.\<close>

definition collectStore :: "'s store_impl \<Rightarrow> clock \<Rightarrow> 's \<Rightarrow> (nat \<times> nat option) \<times> 's" where
  "collectStore impl clk s =
     (case st_count impl (clk At_count) s of
        (Inl _, s') \<Rightarrow> ((0, None), s')
      | (Inr n, s') \<Rightarrow> ((1, Some n), s'))"

section \<open>The server\<close>

text \<open>
  The \<open>Server\<close> struct, with its collaborators: the store implementation, the token validator,
  the transport to the upstream gateway, and the rendering of two kinds of message text
  (the verb \<open>%q\<close>, and \<open>err.Error()\<close> of a verification error).
\<close>

record ('s, 'v) server =
  sv_cfg :: config
  sv_target :: url
  sv_store :: "'s store_impl"
  sv_validate :: "clock \<Rightarrow> string \<Rightarrow> 'v \<Rightarrow> (token_error + identity) \<times> 'v"
  sv_upstream :: "request \<Rightarrow> upstream_result"
  sv_quote :: "string \<Rightarrow> string"
  sv_error_text :: "sigv4_error \<Rightarrow> string"

record ('s, 'v) state =
  ss_store :: 's
  ss_validator :: 'v
  ss_rand :: rand_source
  ss_metrics :: metrics

definition newServer ::
  "config \<Rightarrow> (clock \<Rightarrow> string \<Rightarrow> 'v \<Rightarrow> (token_error + identity) \<times> 'v) \<Rightarrow> 's store_impl \<Rightarrow>
   (request \<Rightarrow> upstream_result) \<Rightarrow> (string \<Rightarrow> string) \<Rightarrow> (sigv4_error \<Rightarrow> string) \<Rightarrow> ('s, 'v) server option" where
  "newServer cfg val impl up quote errtext =
     (case url_parse (uc_s3_endpoint (cf_upstream cfg)) of
        None \<Rightarrow> None
      | Some target \<Rightarrow> Some \<lparr>sv_cfg = cfg, sv_target = target, sv_store = impl, sv_validate = val,
          sv_upstream = up, sv_quote = quote, sv_error_text = errtext\<rparr>)"

abbreviation sv_region :: "('s, 'v) server \<Rightarrow> string" where
  "sv_region sv \<equiv> se_region (cf_security (sv_cfg sv))"

abbreviation sv_skew :: "('s, 'v) server \<Rightarrow> duration" where
  "sv_skew sv \<equiv> se_clock_skew (cf_security (sv_cfg sv))"

definition on_metrics :: "(metrics \<Rightarrow> metrics) \<Rightarrow> ('s, 'v) state \<Rightarrow> ('s, 'v) state" where
  "on_metrics f st = st\<lparr>ss_metrics := f (ss_metrics st)\<rparr>"

definition server_newRequestID :: "rand_source \<Rightarrow> string \<times> rand_source" where
  "server_newRequestID g =
     (case rand_read 12 g of
        (None, g') \<Rightarrow> (replicate 24 (CHR ''0''), g')
      | (Some buf, g') \<Rightarrow> (hex_encode buf, g'))"

section \<open>Forwarding\<close>

definition applyIdentity ::
  "('s, 'v) server \<Rightarrow> clock \<Rightarrow> request \<Rightarrow> string \<Rightarrow> authorization option \<Rightarrow> request" where
  "applyIdentity sv clk r username auth =
     (let rewrite = (\<lambda>r'. case auth of
            Some a \<Rightarrow> RewriteAccessKeyID r' a username
          | None \<Rightarrow> ApplySynthetic r' username (sv_region sv) (clk At_synthetic))
      in if uc_forward_mode (cf_upstream (sv_cfg sv)) = ForwardModeResign then
           (case ApplyResign r username (u_host (sv_target sv)) (sv_region sv) (clk At_resign) of
              (r', None) \<Rightarrow> r'
            | (r', Some _) \<Rightarrow> rewrite r')
         else rewrite r)"

text \<open>The reverse proxy: the outbound request, the round trip, and the hooks that count it. The
  hop-by-hop headers of a response are removed too, except when it switches protocols.\<close>

definition proxy_serve :: "('s, 'v) server \<Rightarrow> request \<Rightarrow> ('s, 'v) state \<Rightarrow> reply \<times> ('s, 'v) state" where
  "proxy_serve sv r st =
     (case proxy_outbound (sv_target sv) r of
        None \<Rightarrow> (Answered (upstream_error_reply r), on_metrics observeUpstreamError st)
      | Some out \<Rightarrow>
          (case sv_upstream sv out of
             UpResponse resp \<Rightarrow>
               (Relayed out (if rp_status resp = 101 then resp
                  else resp\<lparr>rp_header := removeHopByHopHeaders (rp_header resp)\<rparr>),
                on_metrics (observeUpstream (rp_status resp)) st)
           | UpError canceled \<Rightarrow>
               (Unanswered out (upstream_error_reply out),
                if canceled then st else on_metrics observeUpstreamError st)))"

section \<open>The lanes\<close>

definition mapBearerError :: "token_error \<Rightarrow> int \<times> string" where
  "mapBearerError e =
     (case e of
        ErrTokenExpired \<Rightarrow> (403, CodeExpiredToken)
      | ErrIssuerUnavailable _ \<Rightarrow> (503, CodeServiceUnavailable)
      | _ \<Rightarrow> (403, CodeAccessDenied))"

definition bearerErrorMessage :: "token_error \<Rightarrow> string" where
  "bearerErrorMessage e =
     (case e of
        ErrTokenExpired \<Rightarrow> ''the bearer token has expired''
      | ErrIssuerUnavailable _ \<Rightarrow> ''could not reach the identity provider''
      | _ \<Rightarrow> ''the bearer token was rejected'')"

definition serveBearer ::
  "('s, 'v) server \<Rightarrow> clock \<Rightarrow> request \<Rightarrow> string \<Rightarrow> string \<Rightarrow> ('s, 'v) state \<Rightarrow> reply \<times> ('s, 'v) state" where
  "serveBearer sv clk r token reqID st =
     (let path = u_path (r_url r);
          fin = (\<lambda>(reply, st'). (reply, on_metrics (observeDuration ''bearer'') st'));
          count = (\<lambda>l. on_metrics (\<lambda>m. m\<lparr>m_bearer_auth := inc l (m_bearer_auth m)\<rparr>))
      in fin
       (if \<not> BearerEnabled (cf_data_path (sv_cfg sv)) then
          (Answered (s3err_write 403 CodeAccessDenied ''bearer authentication is disabled'' path reqID),
           count (''unknown'', ''disabled'') st)
        else case sv_validate sv clk token (ss_validator st) of (res, v) \<Rightarrow>
          let st1 = on_metrics (observeVerification ''bearer'') (st\<lparr>ss_validator := v\<rparr>) in
          (case res of
             Inl e \<Rightarrow>
               (case mapBearerError e of (status, code) \<Rightarrow>
                  (Answered (s3err_write status code (bearerErrorMessage e) path reqID),
                   count (''unknown'', code) st1))
           | Inr ident \<Rightarrow>
               proxy_serve sv (applyIdentity sv clk r (id_username ident) None)
                 (count (id_issuer_name ident, ''success'') st1))))"

text \<open>How the two SigV4 lanes report a failed verification: status, counter label, code and
  message.\<close>

definition sigv4Rejection :: "(sigv4_error \<Rightarrow> string) \<Rightarrow> sigv4_error \<Rightarrow> int \<times> string \<times> string \<times> string" where
  "sigv4Rejection errtext e =
     (case e of
        ErrSkew \<Rightarrow> (403, ''skew'', CodeRequestTimeTooSkewed,
          ''the difference between the request time and the server's time is too large'')
      | ErrScope _ \<Rightarrow> (400, ''scope'', CodeAuthorizationHeaderMalformed, errtext e)
      | ErrMissingDate \<Rightarrow> (400, ''missing_date'', CodeMissingSecurityHeader, ''the X-Amz-Date header is required'')
      | ErrMalformed _ \<Rightarrow> (400, ''malformed'', CodeAuthorizationHeaderMalformed, errtext e)
      | _ \<Rightarrow> (403, ''mismatch'', CodeSignatureDoesNotMatch,
          ''the request signature does not match the credentials''))"

definition presignedRejection :: "(sigv4_error \<Rightarrow> string) \<Rightarrow> sigv4_error \<Rightarrow> int \<times> string \<times> string \<times> string" where
  "presignedRejection errtext e =
     (case e of
        ErrPresignExpired \<Rightarrow> (403, ''url_expired'', CodeAccessDenied, ''Request has expired'')
      | ErrSkew \<Rightarrow> (403, ''skew'', CodeRequestTimeTooSkewed, ''the presigned URL is dated in the future'')
      | ErrScope _ \<Rightarrow> (400, ''malformed'', CodeAuthorizationQueryParametersError, errtext e)
      | ErrMalformed _ \<Rightarrow> (400, ''malformed'', CodeAuthorizationQueryParametersError, errtext e)
      | _ \<Rightarrow> (403, ''mismatch'', CodeSignatureDoesNotMatch,
          ''the request signature does not match the credentials''))"

definition unknownKeyMessage :: string where
  "unknownKeyMessage =
     ''the access key ID does not exist (exchange a token via AssumeRoleWithWebIdentity first)''"

definition serveSigV4 ::
  "('s, 'v) server \<Rightarrow> clock \<Rightarrow> request \<Rightarrow> string \<Rightarrow> string \<Rightarrow> ('s, 'v) state \<Rightarrow> reply \<times> ('s, 'v) state" where
  "serveSigV4 sv clk r auth_header reqID st =
     (let path = u_path (r_url r);
          fin = (\<lambda>(reply, st'). (reply, on_metrics (observeDuration ''sigv4'') st'));
          count = (\<lambda>l. on_metrics (\<lambda>m. m\<lparr>m_sigv4_verifies := inc l (m_sigv4_verifies m)\<rparr>));
          reject = (\<lambda>(status, result, code, message) st'.
            (Answered (s3err_write status code message path reqID), count result st'))
      in fin
       (case parseAuthorization auth_header of
          Inl _ \<Rightarrow> reject (400, ''malformed'', CodeAuthorizationHeaderMalformed,
            ''the Authorization header is malformed'') st
        | Inr auth \<Rightarrow>
            (case st_get (sv_store sv) (au_access_key_id auth) (ss_store st) of (got, s) \<Rightarrow>
             let st1 = st\<lparr>ss_store := s\<rparr> in
             case got of
               Inl _ \<Rightarrow> reject (500, ''store_error'', CodeInternalError, ''credential store unavailable'') st1
             | Inr None \<Rightarrow> reject (403, ''unknown_akid'', CodeInvalidAccessKeyID, unknownKeyMessage) st1
             | Inr (Some creds) \<Rightarrow>
                 if expired creds (clk At_expiry_check)
                 then reject (403, ''expired'', CodeExpiredToken, ''the temporary credentials have expired'') st1
                 else if req_get r ''X-Amz-Security-Token'' \<noteq> cr_session_token creds
                 then reject (403, ''bad_token'', CodeInvalidToken,
                   ''the security token is missing or does not match the credentials'') st1
                 else
                   let st2 = on_metrics (observeVerification ''sigv4'') st1 in
                   (case verify \<lparr>in_request = r, in_auth = auth, in_secret = cr_secret_access_key creds,
                       in_region = sv_region sv, in_service = ''s3'', in_now = clk At_verification,
                       in_clock_skew = sv_skew sv\<rparr> of
                      Inl e \<Rightarrow> reject (sigv4Rejection (sv_error_text sv) e) st2
                    | Inr _ \<Rightarrow>
                        proxy_serve sv (applyIdentity sv clk r (cr_username creds) (Some auth))
                          (count ''success'' st2)))))"

definition servePresigned ::
  "('s, 'v) server \<Rightarrow> clock \<Rightarrow> request \<Rightarrow> string \<Rightarrow> ('s, 'v) state \<Rightarrow> reply \<times> ('s, 'v) state" where
  "servePresigned sv clk r reqID st =
     (let path = u_path (r_url r);
          fin = (\<lambda>(reply, st'). (reply, on_metrics (observeDuration ''presigned'') st'));
          count = (\<lambda>l. on_metrics (\<lambda>m. m\<lparr>m_presigned_verifies := inc l (m_presigned_verifies m)\<rparr>));
          reject = (\<lambda>(status, result, code, message) st'.
            (Answered (s3err_write status code message path reqID), count result st'))
      in fin
       (case parsePresigned r of
          Inl e \<Rightarrow> reject (400, ''malformed'', CodeAuthorizationQueryParametersError, sv_error_text sv e) st
        | Inr auth \<Rightarrow>
            (case st_get (sv_store sv) (au_access_key_id auth) (ss_store st) of (got, s) \<Rightarrow>
             let st1 = st\<lparr>ss_store := s\<rparr> in
             case got of
               Inl _ \<Rightarrow> reject (500, ''store_error'', CodeInternalError, ''credential store unavailable'') st1
             | Inr None \<Rightarrow> reject (403, ''unknown_akid'', CodeInvalidAccessKeyID, unknownKeyMessage) st1
             | Inr (Some creds) \<Rightarrow>
                 if expired creds (clk At_expiry_check)
                 then reject (403, ''expired'', CodeExpiredToken, ''the temporary credentials have expired'') st1
                 else if ps_security_token auth \<noteq> cr_session_token creds
                 then reject (403, ''bad_token'', CodeInvalidToken,
                   ''the security token is missing or does not match the credentials'') st1
                 else
                   let st2 = on_metrics (observeVerification ''presigned'') st1 in
                   (case verifyPresigned \<lparr>in_request = r, in_auth = auth, in_secret = cr_secret_access_key creds,
                       in_region = sv_region sv, in_service = ''s3'', in_now = clk At_verification,
                       in_clock_skew = sv_skew sv\<rparr> of
                      Inl e \<Rightarrow> reject (presignedRejection (sv_error_text sv) e) st2
                    | Inr _ \<Rightarrow>
                        proxy_serve sv (applyIdentity sv clk (StripPresignedQuery r) (cr_username creds) None)
                          (count ''success'' st2)))))"

definition serveUnauthenticated ::
  "('s, 'v) server \<Rightarrow> request \<Rightarrow> string \<Rightarrow> ('s, 'v) state \<Rightarrow> reply \<times> ('s, 'v) state" where
  "serveUnauthenticated sv r reqID st =
     (let path = u_path (r_url r);
          fin = (\<lambda>(reply, st'). (reply, on_metrics (observeDuration ''unauthenticated'') st'))
      in fin
       (if StrictEnabled (cf_data_path (sv_cfg sv)) then
          (if isSigV2Query r then
             (Answered (s3err_write 400 CodeInvalidRequest
                (''The authorization mechanism you have provided is not supported. '' @
                 ''Please use AWS4-HMAC-SHA256.'') path reqID), st)
           else
             (Answered (s3err_write 403 CodeAccessDenied
                ''authentication required: present a Bearer token or temporary SigV4 credentials'' path reqID), st))
        else proxy_serve sv r st))"

section \<open>Dispatch\<close>

definition maxSTSBodyBytes :: nat where "maxSTSBodyBytes = 1048576"

definition isSTSRequest :: "request \<Rightarrow> bool" where
  "isSTSRequest r \<longleftrightarrow>
     r_method r = ''POST'' \<and> (u_path (r_url r) = ''/'' \<or> u_path (r_url r) = []) \<and>
     parse_media_type (req_get r ''Content-Type'') = Some form_type"

text \<open>\<open>http.MaxBytesReader\<close>: reading past the limit fails.\<close>

definition limit_body :: "nat \<Rightarrow> request \<Rightarrow> request" where
  "limit_body n r =
     r\<lparr>r_body := (case r_body r of Some b \<Rightarrow> if length b \<le> n then Some b else None | None \<Rightarrow> None)\<rparr>"

definition serve ::
  "('s, 'v) server \<Rightarrow> clock \<Rightarrow> request \<Rightarrow> ('s, 'v) state \<Rightarrow> reply \<times> ('s, 'v) state" where
  "serve sv clk r st =
     (case server_newRequestID (ss_rand st) of (reqID, g) \<Rightarrow>
      let st0 = st\<lparr>ss_rand := g\<rparr>; auth_header = req_get r ''Authorization'' in
      if isSTSRequest r then
        (case sts_serve (sv_quote sv) (sv_store sv) (sv_validate sv) (cf_sts (sv_cfg sv)) clk
            (limit_body maxSTSBodyBytes r)
            \<lparr>sw_store = ss_store st0, sw_validator = ss_validator st0, sw_rand = ss_rand st0\<rparr> of
          (resp, res, w) \<Rightarrow>
            (Answered resp,
             on_metrics (observeDuration ''sts'')
               (on_metrics (\<lambda>m. m\<lparr>m_sts_exchanges :=
                    inc (orUnknown (sr_issuer res), resultLabel (sr_code res)) (m_sts_exchanges m)\<rparr>)
                  (st0\<lparr>ss_store := sw_store w, ss_validator := sw_validator w, ss_rand := sw_rand w\<rparr>))))
      else if has_prefix ''Bearer '' auth_header then
        serveBearer sv clk r (trim_prefix ''Bearer '' auth_header) reqID st0
      else if isSigV4 auth_header then serveSigV4 sv clk r auth_header reqID st0
      else if auth_header = [] \<and> isPresigned r then servePresigned sv clk r reqID st0
      else serveUnauthenticated sv r reqID st0)"

section \<open>The admin surface\<close>

definition healthz :: response where
  "healthz = \<lparr>rp_status = 200, rp_header = [], rp_body = ''ok'' @ [CHR 0x0A]\<rparr>"

definition readyz :: "('s, 'v) server \<Rightarrow> clock \<Rightarrow> ('s, 'v) state \<Rightarrow> response \<times> ('s, 'v) state" where
  "readyz sv clk st =
     (case st_count (sv_store sv) (clk At_count) (ss_store st) of
        (Inl _, s) \<Rightarrow> (http_error ''credential store unavailable'' 503, st\<lparr>ss_store := s\<rparr>)
      | (Inr _, s) \<Rightarrow>
          (\<lparr>rp_status = 200, rp_header = [], rp_body = ''ready'' @ [CHR 0x0A]\<rparr>, st\<lparr>ss_store := s\<rparr>))"

definition handleRevoke :: "('s, 'v) server \<Rightarrow> string \<Rightarrow> ('s, 'v) state \<Rightarrow> response \<times> ('s, 'v) state" where
  "handleRevoke sv akid st =
     (let count = (\<lambda>l. on_metrics (\<lambda>m. m\<lparr>m_revocations := inc l (m_revocations m)\<rparr>)) in
      case st_get (sv_store sv) akid (ss_store st) of (got, s) \<Rightarrow>
      let st1 = st\<lparr>ss_store := s\<rparr> in
      case got of
        Inl _ \<Rightarrow> (http_error ''credential store unavailable'' 503, count ''error'' st1)
      | Inr None \<Rightarrow> (http_error ''unknown access key ID'' 404, count ''unknown'' st1)
      | Inr (Some creds) \<Rightarrow>
          (case st_delete (sv_store sv) akid (ss_store st1) of (e, s2) \<Rightarrow>
           let st2 = st1\<lparr>ss_store := s2\<rparr> in
           case e of
             Some _ \<Rightarrow> (http_error ''credential store unavailable'' 503, count ''error'' st2)
           | None \<Rightarrow> (\<lparr>rp_status = 204, rp_header = [], rp_body = []\<rparr>, count ''revoked'' st2)))"

end
