(* ===== verification/Forward_Facts.thy ===== *)
theory Forward_Facts
  imports Forward
begin

text \<open>
  Facts about \<^theory_text>\<open>Forward\<close>: whom a forwarded request is attributed to, what the reverse
  proxy does to its headers, and what is left of a presigned query.
\<close>

section \<open>Attribution\<close>

text \<open>The user whom the gateway reads off an Authorization header: the first part of the
  credential scope.\<close>

definition credential_user :: "string \<Rightarrow> string option" where
  "credential_user h = map_option (takeWhile (\<lambda>c. c \<noteq> CHR ''/'')) (cut_prefix (Algorithm @ '' Credential='') h)"

lemma credential_user_authHeader:
  "CHR ''/'' \<notin> set u \<Longrightarrow> credential_user (authHeader u d g s ns sig) = Some u"
proof -
  assume u: "CHR ''/'' \<notin> set u"
  have "authHeader u d g s ns sig = (Algorithm @ '' Credential='') @ (u @ ''/'' @ d @ ''/'' @ g @ ''/'' @ s @
      ''/aws4_request, SignedHeaders='' @ ns @ '', Signature='' @ sig)"
    by (simp add: authHeader_def)
  then show ?thesis
    unfolding credential_user_def using u
    by (simp only: cut_prefix_append) (simp, rule takeWhile_append_stop, auto)
qed

lemma canonical_key_more [simp]:
  "canonical_key ''Te'' = ''Te''" "canonical_key ''Upgrade'' = ''Upgrade''"
  "canonical_key ''Forwarded'' = ''Forwarded''" "canonical_key ''X-Forwarded-For'' = ''X-Forwarded-For''"
  "canonical_key ''X-Forwarded-Host'' = ''X-Forwarded-Host''"
  "canonical_key ''X-Forwarded-Proto'' = ''X-Forwarded-Proto''"
  "canonical_key ''User-Agent'' = ''User-Agent''"
  "canonical_key ''Proxy-Connection'' = ''Proxy-Connection''" "canonical_key ''Keep-Alive'' = ''Keep-Alive''"
  "canonical_key ''Proxy-Authenticate'' = ''Proxy-Authenticate''"
  "canonical_key ''Proxy-Authorization'' = ''Proxy-Authorization''"
  "canonical_key ''Trailer'' = ''Trailer''" "canonical_key ''Transfer-Encoding'' = ''Transfer-Encoding''"
  by code_simp+

lemma ApplySynthetic_authorization:
  "req_get (ApplySynthetic r u g now) ''Authorization'' =
     authHeader u (format_date now) g ''s3'' ''host;x-amz-date'' junkSignature"
  "header_values (r_header (ApplySynthetic r u g now)) ''X-Amz-Security-Token'' = []"
  by (simp_all add: ApplySynthetic_def Let_def hdr_simps)

lemma RewriteAccessKeyID_authorization:
  "req_get (RewriteAccessKeyID r a u) ''Authorization'' =
     authHeader u (au_date a) (au_region a) (au_service a)
       (join '';'' (filter (\<lambda>h. h \<noteq> ''x-amz-security-token'') (au_signed_headers a))) (au_signature a)"
  "header_values (r_header (RewriteAccessKeyID r a u)) ''X-Amz-Security-Token'' = []"
  by (simp_all add: RewriteAccessKeyID_def Let_def hdr_simps)

lemma sign_prepared_keeps:
  "canonical_key k \<noteq> ''X-Amz-Date'' \<Longrightarrow> canonical_key k \<noteq> ''X-Amz-Content-Sha256'' \<Longrightarrow>
   header_values (r_header (sign_prepared si r)) k = header_values (r_header r) k"
  by (simp add: sign_prepared_def Let_def hdr_simps)

lemma sign_keeps:
  assumes "sign si r = (r', e)" "canonical_key k \<notin> {''X-Amz-Date'', ''X-Amz-Content-Sha256'', ''Authorization''}"
  shows "header_values (r_header r') k = header_values (r_header r) k"
  using assms sign_prepared_keeps [of k si r]
  by (auto simp: sign_unfold Let_def header_values_set split: sum.splits)

lemma sign_authorization:
  assumes "sign si r = (r', None)"
  shows "\<exists>d ns sig. req_get r' ''Authorization'' =
    authHeader (si_access_key_id si) d (si_region si) (si_service si) ns sig"
  using assms by (auto simp: sign_unfold Let_def req_get_set split: sum.splits) blast

lemma ApplyResign_token:
  "ApplyResign r u h g now = (r', e) \<Longrightarrow> header_values (r_header r') ''X-Amz-Security-Token'' = []"
  unfolding ApplyResign_def by (drule sign_keeps [where k = "''X-Amz-Security-Token''"]) (simp_all add: hdr_simps)

lemma ApplyResign_user:
  "ApplyResign r u h g now = (r', None) \<Longrightarrow> CHR ''/'' \<notin> set u \<Longrightarrow>
   credential_user (req_get r' ''Authorization'') = Some u"
  unfolding ApplyResign_def by (drule sign_authorization) (auto simp: credential_user_authHeader)

section \<open>Headers through the reverse proxy\<close>

lemma header_values_fold_del:
  "header_values (fold (\<lambda>k h. header_del h k) ks h) k =
     (if canonical_key k \<in> canonical_key ` set ks then [] else header_values h k)"
  by (induction ks arbitrary: h) (auto simp: header_values_del)

lemma removeHopByHop_values:
  "header_values (removeHopByHopHeaders h) k =
     (if canonical_key k \<in> canonical_key ` (set (connection_options h) \<union> set hop_headers) then []
      else header_values h k)"
  by (simp only: removeHopByHopHeaders_def header_values_fold_del set_append)

lemma hop_headers_canonical: "canonical_key ` set hop_headers = set hop_headers"
  by (simp add: hop_headers_def)

text \<open>The headers that the reverse proxy itself writes or removes.\<close>

definition proxy_managed :: "string list" where
  "proxy_managed = hop_headers @ [''Forwarded'', ''X-Forwarded-For'', ''X-Forwarded-Host'',
     ''X-Forwarded-Proto'', ''User-Agent'']"

lemma SetXForwarded_values:
  "canonical_key k \<notin> {''X-Forwarded-For'', ''X-Forwarded-Host'', ''X-Forwarded-Proto''} \<Longrightarrow>
   header_values (r_header (SetXForwarded i out)) k = header_values (r_header out) k"
  by (simp add: SetXForwarded_def Let_def hdr_simps split: option.split)

lemma proxy_rewrite_values:
  "canonical_key k \<notin> {''X-Forwarded-For'', ''X-Forwarded-Host'', ''X-Forwarded-Proto''} \<Longrightarrow>
   header_values (r_header (proxy_rewrite t i out)) k = header_values (r_header out) k"
  by (simp add: proxy_rewrite_def Let_def SetXForwarded_values)

lemma strip_forwarded_values:
  "canonical_key k \<notin> {''Forwarded'', ''X-Forwarded-For'', ''X-Forwarded-Host'', ''X-Forwarded-Proto''} \<Longrightarrow>
   header_values (strip_forwarded h) k = header_values h k"
  by (simp add: strip_forwarded_def hdr_simps)

lemma SetXForwarded_frame [simp]:
  "r_method (SetXForwarded i out) = r_method out" "r_url (SetXForwarded i out) = r_url out"
  by (simp_all add: SetXForwarded_def Let_def split: option.split)

lemma proxy_rewrite_frame [simp]:
  "r_method (proxy_rewrite t i out) = r_method out" "r_host (proxy_rewrite t i out) = u_host t"
  "r_url (proxy_rewrite t i out) = rewriteRequestURL t (r_url out)"
  by (simp_all add: proxy_rewrite_def Let_def)

lemma rewriteRequestURL_target [simp]:
  "u_host (rewriteRequestURL t u) = u_host t" "u_scheme (rewriteRequestURL t u) = u_scheme t"
  by (simp_all add: rewriteRequestURL_def split: prod.split)

lemma proxy_outbound_Some:
  assumes "proxy_outbound t r = Some out"
  obtains out0 where "r_method out0 = r_method r" "r_header out0 = outbound_header (r_header r)"
    "r_url out0 = (r_url r)\<lparr>u_raw_query := cleanQueryParams (u_raw_query (r_url r))\<rparr>"
    "out = proxy_rewrite t r out0 \<or> out = req_set (proxy_rewrite t r out0) ''User-Agent'' []"
proof -
  let ?o = "r\<lparr>r_header := outbound_header (r_header r),
    r_body := (if r_content_length r = 0 then Some [] else r_body r),
    r_url := (r_url r)\<lparr>u_raw_query := cleanQueryParams (u_raw_query (r_url r))\<rparr>\<rparr>"
  have "out = proxy_rewrite t r ?o \<or> out = req_set (proxy_rewrite t r ?o) ''User-Agent'' []"
    using assms unfolding proxy_outbound_def Let_def
    by (auto simp only: option.inject option.distinct(1) split: if_splits)
  then show thesis by (intro that [of ?o]) simp_all
qed

lemma proxy_outbound_frame:
  assumes "proxy_outbound t r = Some out"
  shows "r_method out = r_method r" "r_host out = u_host t"
    "r_url out = rewriteRequestURL t ((r_url r)\<lparr>u_raw_query := cleanQueryParams (u_raw_query (r_url r))\<rparr>)"
  using assms by (rule proxy_outbound_Some; auto)+

text \<open>Every other header goes through as it is, unless a Connection header of the client lists
  it: then it is removed.\<close>

lemma outbound_header_values:
  assumes "canonical_key k \<notin> set proxy_managed"
  shows "header_values (outbound_header h) k =
    (if canonical_key k \<in> canonical_key ` set (connection_options h) then [] else header_values h k)"
proof -
  have k: "canonical_key k \<notin> set hop_headers"
    "canonical_key k \<notin> {''Forwarded'', ''X-Forwarded-For'', ''X-Forwarded-Host'', ''X-Forwarded-Proto''}"
    "canonical_key k \<noteq> ''Te''" "canonical_key k \<noteq> ''Connection''" "canonical_key k \<noteq> ''Upgrade''"
    using assms by (auto simp: proxy_managed_def hop_headers_def)
  then have "header_values (outbound_header h) k = header_values (removeHopByHopHeaders h) k"
    by (simp add: outbound_header_def Let_def strip_forwarded_values header_values_set)
  then show ?thesis
    using k(1) by (simp add: removeHopByHop_values image_Un hop_headers_canonical)
qed

lemma proxy_outbound_values:
  assumes "proxy_outbound t r = Some out" "canonical_key k \<notin> set proxy_managed"
  shows "header_values (r_header out) k =
    (if canonical_key k \<in> canonical_key ` set (connection_options (r_header r)) then []
     else header_values (r_header r) k)"
proof -
  have k: "canonical_key k \<notin> {''X-Forwarded-For'', ''X-Forwarded-Host'', ''X-Forwarded-Proto''}"
    "canonical_key k \<noteq> ''User-Agent''"
    using assms(2) by (auto simp: proxy_managed_def)
  have "header_values (r_header out) k = header_values (outbound_header (r_header r)) k"
    using assms(1) by (rule proxy_outbound_Some) (use k in \<open>auto simp: header_values_set proxy_rewrite_values\<close>)
  then show ?thesis by (simp add: outbound_header_values [OF assms(2)])
qed

section \<open>The stripped query\<close>

lemma strip_raw_query:
  "u_raw_query (r_url (StripPresignedQuery r)) =
     join ''&'' (filter keep_part (query_parts (u_raw_query (r_url r))))"
proof -
  have "filter keep_part (filter (\<lambda>p. p \<noteq> []) ps) = filter keep_part ps" for ps
    by (induction ps) (auto simp: keep_part_def)
  moreover have "filter keep_part [[]] = []" by (simp add: keep_part_def)
  ultimately show ?thesis by (simp add: StripPresignedQuery_def query_parts_def Let_def)
qed

lemma strip_query_parts:
  "query_parts (u_raw_query (r_url (StripPresignedQuery r))) =
     filter keep_part (query_parts (u_raw_query (r_url r)))"
  unfolding strip_raw_query
  by (rule query_parts_join) (auto simp: query_parts_def dest: split_on_pieces_free)

lemma query_part_keep:
  "query_part part = Some (k, v) \<Longrightarrow> part \<noteq> [] \<Longrightarrow> keep_part part \<longleftrightarrow> k \<notin> set presignedAuthParams"
  by (auto simp: query_part_def keep_part_def split: if_splits prod.splits option.splits)

lemma map_filter_keep:
  "\<forall>part \<in> set parts. part \<noteq> [] \<Longrightarrow>
   List.map_filter query_part (filter keep_part parts) =
     filter (\<lambda>(k, _). k \<notin> set presignedAuthParams) (List.map_filter query_part parts)"
proof (induction parts)
  case (Cons part parts)
  then show ?case
    using query_part_keep [of part] by (cases "query_part part") (auto simp: map_filter_Cons)
qed (simp add: map_filter_Nil)

lemma strip_url_query:
  "url_query (r_url (StripPresignedQuery r)) =
     filter (\<lambda>(k, _). k \<notin> set presignedAuthParams) (url_query (r_url r))"
  unfolding url_query_def parse_query_def fst_conv strip_query_parts
  by (rule map_filter_keep) (simp add: query_parts_def)

lemma strip_frame [simp]:
  "r_header (StripPresignedQuery r) = r_header r" "r_method (StripPresignedQuery r) = r_method r"
  "u_path (r_url (StripPresignedQuery r)) = u_path (r_url r)"
  by (simp_all add: StripPresignedQuery_def Let_def)

end
