(* ===== verification/Server_Facts.thy ===== *)
theory Server_Facts
  imports Server Forward_Facts
begin

text \<open>
  Facts about \<^theory_text>\<open>Server\<close>: who is authenticated on each lane, what each lane does to the
  state, and what reaches the upstream gateway.
\<close>

section \<open>Frames\<close>

lemma on_metrics_frame [simp]:
  "ss_store (on_metrics f st) = ss_store st" "ss_validator (on_metrics f st) = ss_validator st"
  "ss_rand (on_metrics f st) = ss_rand st" "ss_metrics (on_metrics f st) = f (ss_metrics st)"
  by (simp_all add: on_metrics_def)

lemma proxy_serve_frame [simp]:
  "ss_store (snd (proxy_serve sv r st)) = ss_store st"
  "ss_validator (snd (proxy_serve sv r st)) = ss_validator st"
  by (auto simp: proxy_serve_def split: option.splits upstream_result.splits)

text \<open>The request that was sent to the upstream gateway, if any.\<close>

definition forwarded :: "reply \<Rightarrow> request option" where
  "forwarded reply = (case reply of Answered _ \<Rightarrow> None | Relayed out _ \<Rightarrow> Some out | Unanswered out _ \<Rightarrow> Some out)"

lemma forwarded_simps [simp]:
  "forwarded (Answered resp) = None" "forwarded (Relayed out resp) = Some out"
  "forwarded (Unanswered out resp) = Some out"
  by (simp_all add: forwarded_def)

lemma proxy_serve_forwarded: "forwarded (fst (proxy_serve sv r st)) = proxy_outbound (sv_target sv) r"
  by (simp add: proxy_serve_def split: option.split upstream_result.split)

section \<open>Attribution\<close>

lemma applyIdentity_user:
  assumes "CHR ''/'' \<notin> set u"
  shows "credential_user (req_get (applyIdentity sv clk r u auth) ''Authorization'') = Some u"
proof -
  have rewrite: "credential_user (req_get (case auth of Some a \<Rightarrow> RewriteAccessKeyID r' a u
      | None \<Rightarrow> ApplySynthetic r' u g t) ''Authorization'') = Some u" for r' g t
    using assms by (simp add: RewriteAccessKeyID_authorization ApplySynthetic_authorization
        credential_user_authHeader split: option.split)
  show ?thesis
    using rewrite assms unfolding applyIdentity_def Let_def
    by (auto split: if_split prod.split option.split intro: ApplyResign_user)
qed

lemma applyIdentity_token:
  "header_values (r_header (applyIdentity sv clk r u auth)) ''X-Amz-Security-Token'' = []"
proof -
  have rewrite: "header_values (r_header (case auth of Some a \<Rightarrow> RewriteAccessKeyID r' a u
      | None \<Rightarrow> ApplySynthetic r' u g t)) ''X-Amz-Security-Token'' = []" for r' g t
    by (simp add: RewriteAccessKeyID_authorization ApplySynthetic_authorization split: option.split)
  show ?thesis
    using rewrite unfolding applyIdentity_def Let_def
    by (auto split: if_split prod.split option.split intro: ApplyResign_token)
qed

text \<open>The identity that an outbound request carries: none when its Authorization header is
  gone.\<close>

definition outbound_user :: "request \<Rightarrow> string option" where
  "outbound_user out =
     (if header_values (r_header out) ''Authorization'' = [] then None
      else credential_user (req_get out ''Authorization''))"

lemma authorization_not_managed:
  "''Authorization'' \<notin> set proxy_managed" "''X-Amz-Security-Token'' \<notin> set proxy_managed"
  by (simp_all add: proxy_managed_def hop_headers_def)

lemma outbound_identity:
  assumes out: "proxy_outbound t (applyIdentity sv clk r u auth) = Some out" and u: "CHR ''/'' \<notin> set u"
  shows "outbound_user out =
      (if ''Authorization'' \<in> canonical_key ` set (connection_options (r_header (applyIdentity sv clk r u auth)))
       then None else Some u)"
    "header_values (r_header out) ''X-Amz-Security-Token'' = []"
proof -
  let ?r = "applyIdentity sv clk r u auth"
  have v: "header_values (r_header out) ''Authorization'' =
      (if ''Authorization'' \<in> canonical_key ` set (connection_options (r_header ?r)) then []
       else header_values (r_header ?r) ''Authorization'')"
    using proxy_outbound_values [OF out, of "''Authorization''"] authorization_not_managed by simp
  have c: "credential_user (req_get ?r ''Authorization'') = Some u" by (rule applyIdentity_user [OF u])
  then have "header_values (r_header ?r) ''Authorization'' \<noteq> []"
    by (auto simp: req_get_def header_get_def credential_user_def cut_prefix_def has_prefix_def Algorithm_def)
  then show "outbound_user out =
      (if ''Authorization'' \<in> canonical_key ` set (connection_options (r_header ?r)) then None else Some u)"
    using v c by (simp add: outbound_user_def req_get_def header_get_def)
  show "header_values (r_header out) ''X-Amz-Security-Token'' = []"
    using proxy_outbound_values [OF out, of "''X-Amz-Security-Token''"] authorization_not_managed
      applyIdentity_token [of sv clk r u auth] by simp
qed

section \<open>Who is authenticated\<close>

text \<open>The three ways in which the proxy accepts a request in state \<open>st\<close> as a user's. \<open>rq\<close> is the
  request that goes on, \<open>auth\<close> the verified header to rewrite, if any.\<close>

inductive authenticates ::
  "('s, 'v) server \<Rightarrow> clock \<Rightarrow> ('s, 'v) state \<Rightarrow> request \<Rightarrow> string \<Rightarrow> request \<Rightarrow> authorization option \<Rightarrow> bool"
  for sv :: "('s, 'v) server" and clk :: clock and st :: "('s, 'v) state" and r :: request where
  bearer: "has_prefix ''Bearer '' (req_get r ''Authorization'') \<Longrightarrow> BearerEnabled (cf_data_path (sv_cfg sv)) \<Longrightarrow>
    sv_validate sv clk (trim_prefix ''Bearer '' (req_get r ''Authorization'')) (ss_validator st) = (Inr ident, v) \<Longrightarrow>
    authenticates sv clk st r (id_username ident) r None"
| sigv4: "parseAuthorization (req_get r ''Authorization'') = Inr auth \<Longrightarrow>
    fst (st_get (sv_store sv) (au_access_key_id auth) (ss_store st)) = Inr (Some creds) \<Longrightarrow>
    \<not> expired creds (clk At_expiry_check) \<Longrightarrow>
    req_get r ''X-Amz-Security-Token'' = cr_session_token creds \<Longrightarrow>
    verify \<lparr>in_request = r, in_auth = auth, in_secret = cr_secret_access_key creds,
      in_region = sv_region sv, in_service = ''s3'', in_now = clk At_verification,
      in_clock_skew = sv_skew sv\<rparr> = Inr () \<Longrightarrow>
    authenticates sv clk st r (cr_username creds) r (Some auth)"
| presigned: "req_get r ''Authorization'' = [] \<Longrightarrow> parsePresigned r = Inr pauth \<Longrightarrow>
    fst (st_get (sv_store sv) (au_access_key_id pauth) (ss_store st)) = Inr (Some creds) \<Longrightarrow>
    \<not> expired creds (clk At_expiry_check) \<Longrightarrow>
    ps_security_token pauth = cr_session_token creds \<Longrightarrow>
    verifyPresigned \<lparr>in_request = r, in_auth = pauth, in_secret = cr_secret_access_key creds,
      in_region = sv_region sv, in_service = ''s3'', in_now = clk At_verification,
      in_clock_skew = sv_skew sv\<rparr> = Inr () \<Longrightarrow>
    authenticates sv clk st r (cr_username creds) (StripPresignedQuery r) None"

lemma serveBearer_forwarded:
  assumes "serveBearer sv clk r token reqID st = (reply, st')" "forwarded reply = Some out"
  shows "BearerEnabled (cf_data_path (sv_cfg sv)) \<and>
    (\<exists>ident v. sv_validate sv clk token (ss_validator st) = (Inr ident, v) \<and>
       proxy_outbound (sv_target sv) (applyIdentity sv clk r (id_username ident) None) = Some out)"
proof -
  obtain res v where v: "sv_validate sv clk token (ss_validator st) = (res, v)"
    by (cases "sv_validate sv clk token (ss_validator st)")
  have reply: "reply = fst (serveBearer sv clk r token reqID st)" using assms(1) by simp
  show ?thesis
    using assms(2) v unfolding reply serveBearer_def Let_def
    by (auto simp: split_def proxy_serve_forwarded split: if_splits sum.splits)
qed

lemma serveSigV4_forwarded:
  assumes "serveSigV4 sv clk r hdr reqID st = (reply, st')" "forwarded reply = Some out"
  shows "\<exists>auth creds. parseAuthorization hdr = Inr auth \<and>
    fst (st_get (sv_store sv) (au_access_key_id auth) (ss_store st)) = Inr (Some creds) \<and>
    \<not> expired creds (clk At_expiry_check) \<and> req_get r ''X-Amz-Security-Token'' = cr_session_token creds \<and>
    verify \<lparr>in_request = r, in_auth = auth, in_secret = cr_secret_access_key creds,
      in_region = sv_region sv, in_service = ''s3'', in_now = clk At_verification,
      in_clock_skew = sv_skew sv\<rparr> = Inr () \<and>
    proxy_outbound (sv_target sv) (applyIdentity sv clk r (cr_username creds) (Some auth)) = Some out"
proof -
  have reply: "reply = fst (serveSigV4 sv clk r hdr reqID st)" using assms(1) by simp
  show ?thesis
    using assms(2) unfolding reply serveSigV4_def Let_def
    by (auto simp: split_def proxy_serve_forwarded split: if_splits sum.splits prod.splits option.splits)
qed

lemma servePresigned_forwarded:
  assumes "servePresigned sv clk r reqID st = (reply, st')" "forwarded reply = Some out"
  shows "\<exists>auth creds. parsePresigned r = Inr auth \<and>
    fst (st_get (sv_store sv) (au_access_key_id auth) (ss_store st)) = Inr (Some creds) \<and>
    \<not> expired creds (clk At_expiry_check) \<and> ps_security_token auth = cr_session_token creds \<and>
    verifyPresigned \<lparr>in_request = r, in_auth = auth, in_secret = cr_secret_access_key creds,
      in_region = sv_region sv, in_service = ''s3'', in_now = clk At_verification,
      in_clock_skew = sv_skew sv\<rparr> = Inr () \<and>
    proxy_outbound (sv_target sv) (applyIdentity sv clk (StripPresignedQuery r) (cr_username creds) None) = Some out"
proof -
  have reply: "reply = fst (servePresigned sv clk r reqID st)" using assms(1) by simp
  show ?thesis
    using assms(2) unfolding reply servePresigned_def Let_def
    by (auto simp: split_def proxy_serve_forwarded split: if_splits sum.splits prod.splits option.splits)
qed

lemma serveUnauthenticated_strict:
  "StrictEnabled (cf_data_path (sv_cfg sv)) \<Longrightarrow> forwarded (fst (serveUnauthenticated sv r reqID st)) = None"
  by (simp add: serveUnauthenticated_def Let_def)

text \<open>In strict mode nothing is forwarded without authentication, and what is forwarded is the
  outbound form of the request with the authenticated user's identity applied.\<close>

lemma serve_forwarded:
  assumes "serve sv clk r st = (reply, st')" "forwarded reply = Some out"
    "StrictEnabled (cf_data_path (sv_cfg sv))"
  obtains u rq auth where "authenticates sv clk st r u rq auth"
    "proxy_outbound (sv_target sv) (applyIdentity sv clk rq u auth) = Some out"
proof -
  obtain reqID g where g: "server_newRequestID (ss_rand st) = (reqID, g)"
    by (cases "server_newRequestID (ss_rand st)")
  let ?st = "st\<lparr>ss_rand := g\<rparr>" and ?h = "req_get r ''Authorization''"
  have not_sts: "\<not> isSTSRequest r"
    using assms(1,2) g by (auto simp: serve_def split: prod.splits)
  consider (b) "has_prefix ''Bearer '' ?h" "serveBearer sv clk r (trim_prefix ''Bearer '' ?h) reqID ?st = (reply, st')"
    | (s) "serveSigV4 sv clk r ?h reqID ?st = (reply, st')"
    | (p) "?h = []" "servePresigned sv clk r reqID ?st = (reply, st')"
    | (n) "serveUnauthenticated sv r reqID ?st = (reply, st')"
    using assms(1) g not_sts unfolding serve_def by (auto simp: Let_def split: if_splits)
  then show thesis
  proof cases
    case b
    then obtain ident v where *: "BearerEnabled (cf_data_path (sv_cfg sv))"
      "sv_validate sv clk (trim_prefix ''Bearer '' ?h) (ss_validator st) = (Inr ident, v)"
      "proxy_outbound (sv_target sv) (applyIdentity sv clk r (id_username ident) None) = Some out"
      using serveBearer_forwarded [OF b(2) assms(2)] by auto
    then show thesis using that authenticates.bearer [OF b(1) *(1,2)] by blast
  next
    case s
    obtain auth creds where *: "parseAuthorization ?h = Inr auth"
      "fst (st_get (sv_store sv) (au_access_key_id auth) (ss_store st)) = Inr (Some creds)"
      "\<not> expired creds (clk At_expiry_check)" "req_get r ''X-Amz-Security-Token'' = cr_session_token creds"
      "verify \<lparr>in_request = r, in_auth = auth, in_secret = cr_secret_access_key creds,
        in_region = sv_region sv, in_service = ''s3'', in_now = clk At_verification,
        in_clock_skew = sv_skew sv\<rparr> = Inr ()"
      "proxy_outbound (sv_target sv) (applyIdentity sv clk r (cr_username creds) (Some auth)) = Some out"
      using serveSigV4_forwarded [OF s assms(2)] by auto
    show thesis using that [OF authenticates.sigv4 [OF *(1-5)] *(6)] .
  next
    case p
    obtain auth creds where *: "parsePresigned r = Inr auth"
      "fst (st_get (sv_store sv) (au_access_key_id auth) (ss_store st)) = Inr (Some creds)"
      "\<not> expired creds (clk At_expiry_check)" "ps_security_token auth = cr_session_token creds"
      "verifyPresigned \<lparr>in_request = r, in_auth = auth, in_secret = cr_secret_access_key creds,
        in_region = sv_region sv, in_service = ''s3'', in_now = clk At_verification,
        in_clock_skew = sv_skew sv\<rparr> = Inr ()"
      "proxy_outbound (sv_target sv) (applyIdentity sv clk (StripPresignedQuery r) (cr_username creds) None) = Some out"
      using servePresigned_forwarded [OF p(2) assms(2)] by auto
    show thesis using that [OF authenticates.presigned [OF p(1) *(1-5)] *(6)] .
  next
    case n
    then show thesis using serveUnauthenticated_strict [OF assms(3), of r reqID ?st] assms(2) by simp
  qed
qed

section \<open>What a request changes\<close>

lemma serveBearer_state:
  "ss_store (snd (serveBearer sv clk r token reqID st)) = ss_store st"
  "ss_validator (snd (serveBearer sv clk r token reqID st)) \<in>
     {ss_validator st, snd (sv_validate sv clk token (ss_validator st))}"
  unfolding serveBearer_def Let_def
  by (auto simp: split_def split: if_split sum.split)

lemma serveSigV4_state:
  "ss_store (snd (serveSigV4 sv clk r hdr reqID st)) = ss_store st \<or>
   (\<exists>k. ss_store (snd (serveSigV4 sv clk r hdr reqID st)) = snd (st_get (sv_store sv) k (ss_store st)))"
  "ss_validator (snd (serveSigV4 sv clk r hdr reqID st)) = ss_validator st"
  unfolding serveSigV4_def Let_def
  by (auto simp: split_def split: if_split sum.split option.split)

lemma servePresigned_state:
  "ss_store (snd (servePresigned sv clk r reqID st)) = ss_store st \<or>
   (\<exists>k. ss_store (snd (servePresigned sv clk r reqID st)) = snd (st_get (sv_store sv) k (ss_store st)))"
  "ss_validator (snd (servePresigned sv clk r reqID st)) = ss_validator st"
  unfolding servePresigned_def Let_def
  by (auto simp: split_def split: if_split sum.split option.split)

lemma serveUnauthenticated_state:
  "ss_store (snd (serveUnauthenticated sv r reqID st)) = ss_store st"
  "ss_validator (snd (serveUnauthenticated sv r reqID st)) = ss_validator st"
  unfolding serveUnauthenticated_def Let_def by (auto simp: split_def)

text \<open>The exchange that a request to the STS endpoint runs.\<close>

definition exchange ::
  "('s, 'v) server \<Rightarrow> clock \<Rightarrow> request \<Rightarrow> ('s, 'v) state \<Rightarrow> response \<times> sts_result \<times> ('s, 'v) sts_state" where
  "exchange sv clk r st =
     sts_serve (sv_quote sv) (sv_store sv) (sv_validate sv) (cf_sts (sv_cfg sv)) clk
       (limit_body maxSTSBodyBytes r)
       \<lparr>sw_store = ss_store st, sw_validator = ss_validator st,
        sw_rand = snd (server_newRequestID (ss_rand st))\<rparr>"

lemma serve_sts:
  assumes "isSTSRequest r" "serve sv clk r st = (reply, st')"
  obtains resp res w where "exchange sv clk r st = (resp, res, w)" "reply = Answered resp"
    "ss_store st' = sw_store w" "ss_validator st' = sw_validator w" "ss_rand st' = sw_rand w"
    "m_sts_exchanges (ss_metrics st') =
       inc (orUnknown (sr_issuer res), resultLabel (sr_code res)) (m_sts_exchanges (ss_metrics st))"
proof -
  obtain resp res w where "exchange sv clk r st = (resp, res, w)" by (metis prod_cases3)
  then show thesis using assms that
    by (auto simp: serve_def exchange_def Let_def observeDuration_def split: prod.splits)
qed

lemma serve_state:
  assumes "\<not> isSTSRequest r" "serve sv clk r st = (reply, st')"
  shows "ss_store st' = ss_store st \<or> (\<exists>k. ss_store st' = snd (st_get (sv_store sv) k (ss_store st)))"
    "ss_validator st' = ss_validator st \<or>
     (\<exists>token. ss_validator st' = snd (sv_validate sv clk token (ss_validator st)))"
proof -
  obtain reqID g where g: "server_newRequestID (ss_rand st) = (reqID, g)"
    by (cases "server_newRequestID (ss_rand st)")
  let ?st = "st\<lparr>ss_rand := g\<rparr>" and ?h = "req_get r ''Authorization''"
  have "st' \<in> {snd (serveBearer sv clk r (trim_prefix ''Bearer '' ?h) reqID ?st), snd (serveSigV4 sv clk r ?h reqID ?st),
      snd (servePresigned sv clk r reqID ?st), snd (serveUnauthenticated sv r reqID ?st)}"
    using assms g unfolding serve_def by (auto simp: Let_def split: if_splits)
  then show "ss_store st' = ss_store st \<or> (\<exists>k. ss_store st' = snd (st_get (sv_store sv) k (ss_store st)))"
    "ss_validator st' = ss_validator st \<or>
     (\<exists>token. ss_validator st' = snd (sv_validate sv clk token (ss_validator st)))"
    using serveBearer_state [of sv clk r _ reqID ?st] serveSigV4_state [of sv clk r ?h reqID ?st]
      servePresigned_state [of sv clk r reqID ?st] serveUnauthenticated_state [of sv r reqID ?st]
    by auto
qed

section \<open>Headers that the identity leaves alone\<close>

definition identity_keys :: "string set" where
  "identity_keys = {''Authorization'', ''X-Amz-Date'', ''X-Amz-Content-Sha256'', ''X-Amz-Security-Token''}"

lemma ApplyResign_keeps:
  "ApplyResign r u h g now = (r', e) \<Longrightarrow> canonical_key k \<notin> identity_keys \<Longrightarrow>
   header_values (r_header r') k = header_values (r_header r) k"
  unfolding ApplyResign_def
  by (drule sign_keeps [where k = k]) (auto simp: identity_keys_def header_values_del)

lemma applyIdentity_keeps:
  assumes "canonical_key k \<notin> identity_keys"
  shows "header_values (r_header (applyIdentity sv clk r u auth)) k = header_values (r_header r) k"
proof -
  have rewrite: "header_values (r_header (case auth of Some a \<Rightarrow> RewriteAccessKeyID r' a u
      | None \<Rightarrow> ApplySynthetic r' u g t)) k = header_values (r_header r') k" for r' g t
    using assms by (simp add: RewriteAccessKeyID_def ApplySynthetic_def Let_def identity_keys_def
        hdr_simps split: option.split)
  show ?thesis
    using rewrite assms unfolding applyIdentity_def Let_def
    by (auto split: if_split prod.split option.split intro: ApplyResign_keeps)
qed

lemma connection_not_identity: "canonical_key ''Connection'' \<notin> identity_keys"
  by (simp add: identity_keys_def)

lemma connection_options_cong:
  "header_values h ''Connection'' = header_values h' ''Connection'' \<Longrightarrow>
   connection_options h = connection_options h'"
  by (simp add: connection_options_def)

lemma applyIdentity_connection:
  "connection_options (r_header (applyIdentity sv clk r u auth)) = connection_options (r_header r)"
  by (intro connection_options_cong applyIdentity_keeps connection_not_identity)

lemma proxy_outbound_plain:
  "header_values (r_header r) ''Connection'' = [] \<Longrightarrow> \<exists>out. proxy_outbound t r = Some out"
  by (simp add: proxy_outbound_def upgrade_type_def contains_token_def printable_def Let_def)

lemma strip_connection [simp]:
  "connection_options (r_header (StripPresignedQuery r)) = connection_options (r_header r)"
  by simp

lemma authenticates_connection:
  "authenticates sv clk st r u rq auth \<Longrightarrow> connection_options (r_header rq) = connection_options (r_header r)"
  by (erule authenticates.cases) auto

section \<open>The SigV4 lane on a signed request\<close>

lemma serveSigV4_accepts:
  assumes "parseAuthorization hdr = Inr auth"
    and "st_get (sv_store sv) (au_access_key_id auth) (ss_store st) = (Inr (Some creds), s)"
    and "\<not> expired creds (clk At_expiry_check)"
    and "req_get r ''X-Amz-Security-Token'' = cr_session_token creds"
    and "verify \<lparr>in_request = r, in_auth = auth, in_secret = cr_secret_access_key creds,
      in_region = sv_region sv, in_service = ''s3'', in_now = clk At_verification,
      in_clock_skew = sv_skew sv\<rparr> = Inr ()"
  shows "forwarded (fst (serveSigV4 sv clk r hdr reqID st)) =
    proxy_outbound (sv_target sv) (applyIdentity sv clk r (cr_username creds) (Some auth))"
  using assms by (simp add: serveSigV4_def Let_def split_def proxy_serve_forwarded)

lemma parse_isSigV4:
  assumes "parseAuthorization h = Inr auth" "has_prefix (Algorithm @ '' '') h"
  shows "isSigV4 h" "\<not> has_prefix ''Bearer '' h"
  using assms(2) by (cases h; auto simp: isSigV4_def has_prefix_def Algorithm_def)+

lemma serve_sigv4:
  assumes "\<not> isSTSRequest r" "isSigV4 (req_get r ''Authorization'')" "\<not> has_prefix ''Bearer '' (req_get r ''Authorization'')"
  obtains reqID g where "serve sv clk r st = serveSigV4 sv clk r (req_get r ''Authorization'') reqID (st\<lparr>ss_rand := g\<rparr>)"
  using assms by (cases "server_newRequestID (ss_rand st)") (auto simp: serve_def Let_def)

lemma sign_frame:
  assumes "sign si r = (r', e)"
  shows "r_method r' = r_method r" "r_url r' = r_url r" "req_get r' ''Content-Type'' = req_get r ''Content-Type''"
proof -
  have p: "r_method (sign_prepared si r) = r_method r" "r_url (sign_prepared si r) = r_url r"
    by (simp_all add: sign_prepared_def Let_def)
  show "r_method r' = r_method r" "r_url r' = r_url r"
    using assms p by (auto simp: sign_unfold Let_def split: sum.splits)
  show "req_get r' ''Content-Type'' = req_get r ''Content-Type''"
    using sign_keeps [OF assms, of "''Content-Type''"] by (simp add: req_get_def header_get_def)
qed

lemma sign_not_sts: "sign si r = (r', e) \<Longrightarrow> isSTSRequest r' \<longleftrightarrow> isSTSRequest r"
  by (simp add: isSTSRequest_def sign_frame)

lemma proxy_outbound_iff: "(\<exists>out. proxy_outbound t r = Some out) \<longleftrightarrow> printable (upgrade_type (r_header r))"
  by (simp add: proxy_outbound_def Let_def)

lemma applyIdentity_upgrade:
  "upgrade_type (r_header (applyIdentity sv clk r u auth)) = upgrade_type (r_header r)"
proof -
  have "canonical_key ''Upgrade'' \<notin> identity_keys" by (simp add: identity_keys_def)
  then show ?thesis
    by (simp add: upgrade_type_def header_get_def applyIdentity_keeps
        applyIdentity_keeps [OF connection_not_identity])
qed

lemma serve_bearer_accepts:
  assumes "\<not> isSTSRequest r" "has_prefix ''Bearer '' (req_get r ''Authorization'')"
    and "BearerEnabled (cf_data_path (sv_cfg sv))"
    and "sv_validate sv clk (trim_prefix ''Bearer '' (req_get r ''Authorization'')) (ss_validator st) = (Inr ident, v)"
  shows "forwarded (fst (serve sv clk r st)) =
    proxy_outbound (sv_target sv) (applyIdentity sv clk r (id_username ident) None)"
  using assms
  by (cases "server_newRequestID (ss_rand st)")
    (simp add: serve_def serveBearer_def Let_def split_def proxy_serve_forwarded)

end
