(* ===== verification/System.thy ===== *)
theory System
  imports Server_Facts
begin

text \<open>
  The proxy as it runs: a step relation whose steps are the requests to the two HTTP surfaces,
  the scrapes and the ticks of the store's sweeper, and its runs. The locale \<open>proxy_system\<close>
  joins the contracts of the store and of the validator and proves once, for every
  implementation, where the credentials in the store come from; it is interpreted on the
  wiring of \<open>cmd/proxy/main.go\<close> with the memory store.
\<close>

section \<open>Steps and runs\<close>

datatype event =
    Served clock request reply
  | Revoked string response
  | Probed clock response
  | Scraped clock "nat \<times> nat option"
  | Swept time

text \<open>\<open>bg\<close> is what the store does on its own at an instant.\<close>

inductive sys_step ::
  "('s, 'v) server \<Rightarrow> (time \<Rightarrow> 's \<Rightarrow> 's) \<Rightarrow> ('s, 'v) state \<Rightarrow> event \<Rightarrow> ('s, 'v) state \<Rightarrow> bool"
  for sv :: "('s, 'v) server" and bg :: "time \<Rightarrow> 's \<Rightarrow> 's" where
  request: "serve sv clk r st = (reply, st') \<Longrightarrow> sys_step sv bg st (Served clk r reply) st'"
| revoke: "handleRevoke sv akid st = (resp, st') \<Longrightarrow> sys_step sv bg st (Revoked akid resp) st'"
| probe: "readyz sv clk st = (resp, st') \<Longrightarrow> sys_step sv bg st (Probed clk resp) st'"
| scrape: "collectStore (sv_store sv) clk (ss_store st) = (sample, s) \<Longrightarrow>
    sys_step sv bg st (Scraped clk sample) (st\<lparr>ss_store := s\<rparr>)"
| sweep: "sys_step sv bg st (Swept now) (st\<lparr>ss_store := bg now (ss_store st)\<rparr>)"

inductive_cases sys_stepE: "sys_step sv bg st e st'"

inductive sys_run ::
  "('s, 'v) server \<Rightarrow> (time \<Rightarrow> 's \<Rightarrow> 's) \<Rightarrow> ('s, 'v) state \<Rightarrow> event list \<Rightarrow> ('s, 'v) state \<Rightarrow> bool"
  for sv :: "('s, 'v) server" and bg :: "time \<Rightarrow> 's \<Rightarrow> 's" and st0 :: "('s, 'v) state" where
  start: "sys_run sv bg st0 [] st0"
| step: "sys_run sv bg st0 evs st \<Longrightarrow> sys_step sv bg st e st' \<Longrightarrow> sys_run sv bg st0 (evs @ [e]) st'"

section \<open>Provenance of credentials\<close>

text \<open>
  \<open>exchanged sv evs c\<close>: some request to the STS endpoint among the events presented a token that
  the validator accepted, and \<open>c\<close> was minted for the identity of this token, to expire no later
  than the token and no later than the configured maximum after the exchange.
\<close>

definition minted_at :: "('s, 'v) server \<Rightarrow> clock \<Rightarrow> credentials \<Rightarrow> bool" where
  "minted_at sv clk c \<longleftrightarrow>
     (\<exists>token v ident v' g g'.
        sv_validate sv clk token v = (Inr ident, v') \<and>
        mint (id_username ident) (id_issuer_name ident) (cr_expires_at c) g = (Inr c, g') \<and>
        cr_expires_at c \<le> id_expiry ident) \<and>
     clk At_exchange < cr_expires_at c \<and>
     cr_expires_at c \<le> clk At_exchange + seconds (sc_max_duration (cf_sts (sv_cfg sv)))"

definition exchanged :: "('s, 'v) server \<Rightarrow> event list \<Rightarrow> credentials \<Rightarrow> bool" where
  "exchanged sv evs c \<longleftrightarrow>
     (\<exists>clk r reply. Served clk r reply \<in> set evs \<and> isSTSRequest r \<and> minted_at sv clk c)"

lemma exchanged_mono: "exchanged sv evs c \<Longrightarrow> exchanged sv (evs @ [e]) c"
  by (auto simp: exchanged_def)

lemma exchanged_now: "isSTSRequest r \<Longrightarrow> minted_at sv clk c \<Longrightarrow> exchanged sv (evs @ [Served clk r reply]) c"
  by (auto simp: exchanged_def)

section \<open>The system over its interfaces\<close>

locale proxy_system =
  cred: credential_store "sv_store sv" abs inv storable + tok: token_validator "sv_validate sv" vinv policy
  for sv :: "('s, 'v) server" and abs :: "'s \<Rightarrow> string \<rightharpoonup> credentials" and inv :: "'s \<Rightarrow> bool"
    and storable :: "credentials \<Rightarrow> bool"
    and vinv :: "'v \<Rightarrow> bool" and policy :: "string \<Rightarrow> bool" +
  fixes bg :: "time \<Rightarrow> 's \<Rightarrow> 's"
  assumes bg_inv: "inv s \<Longrightarrow> inv (bg now s)"
    and bg_origin: "inv s \<Longrightarrow> abs (bg now s) k = Some c \<Longrightarrow> abs s k = Some c"
    and minted_storable: "vinv v \<Longrightarrow> sv_validate sv clk token v = (Inr ident, v') \<Longrightarrow>
      mint (id_username ident) (id_issuer_name ident) t g = (Inr c, g') \<Longrightarrow> storable c"
begin

definition good :: "event list \<Rightarrow> ('s, 'v) state \<Rightarrow> bool" where
  "good evs st \<longleftrightarrow> inv (ss_store st) \<and> vinv (ss_validator st) \<and>
     (\<forall>k c. abs (ss_store st) k = Some c \<longrightarrow>
        exchanged sv evs c \<and> policy (cr_username c) \<and> cr_access_key_id c = k)"

text \<open>A step that neither adds nor alters a record keeps the invariant.\<close>

lemma good_shrink:
  assumes "good evs st" "inv (ss_store st')" "vinv (ss_validator st')"
    "\<And>k c. abs (ss_store st') k = Some c \<Longrightarrow> abs (ss_store st) k = Some c"
  shows "good (evs @ [e]) st'"
  using assms exchanged_mono unfolding good_def by metis

lemma get_state:
  "inv s \<Longrightarrow> inv (snd (st_get (sv_store sv) k s)) \<and> abs (snd (st_get (sv_store sv) k s)) = abs s"
  using cred.get_frame [of s k] by (metis prod.collapse)

lemma validate_state: "vinv v \<Longrightarrow> vinv (snd (sv_validate sv clk token v))"
  using tok.validate_inv by (metis prod.collapse)

lemma good_exchange:
  assumes "good evs st" "isSTSRequest r" "serve sv clk r st = (reply, st')"
  shows "good (evs @ [Served clk r reply]) st'"
proof -
  obtain resp res w where x: "exchange sv clk r st = (resp, res, w)" "ss_store st' = sw_store w"
    "ss_validator st' = sw_validator w"
    using serve_sts [OF assms(2,3)] by metis
  have g: "inv (ss_store st)" "vinv (ss_validator st)" using assms(1) by (simp_all add: good_def)
  have v: "vinv (ss_validator st')"
    using x g(2) validate_state [of "ss_validator st"] unfolding exchange_def sts_serve_def Let_def
    by (auto split: prod.splits sum.splits if_splits option.splits dest: tok.validate_inv)
  from sts_serve_store [OF x(1) [unfolded exchange_def]] show ?thesis
  proof
    assume "sw_store w = sw_store \<lparr>sw_store = ss_store st, sw_validator = ss_validator st,
        sw_rand = snd (server_newRequestID (ss_rand st))\<rparr>"
    then show ?thesis using good_shrink [OF assms(1) _ v] g x by simp
  next
    assume "\<exists>token ident v creds g g' e.
       sv_validate sv clk token (sw_validator \<lparr>sw_store = ss_store st, sw_validator = ss_validator st,
        sw_rand = snd (server_newRequestID (ss_rand st))\<rparr>) = (Inr ident, v) \<and>
       mint (id_username ident) (id_issuer_name ident) (cr_expires_at creds) g = (Inr creds, g') \<and>
       cr_expires_at creds \<le> id_expiry ident \<and> clk At_exchange < cr_expires_at creds \<and>
       cr_expires_at creds \<le> clk At_exchange + seconds (sc_max_duration (cf_sts (sv_cfg sv))) \<and>
       st_put (sv_store sv) creds (sw_store \<lparr>sw_store = ss_store st, sw_validator = ss_validator st,
        sw_rand = snd (server_newRequestID (ss_rand st))\<rparr>) = (e, sw_store w)"
    then obtain token ident v' creds g' g'' e where
      c: "sv_validate sv clk token (ss_validator st) = (Inr ident, v')"
        "mint (id_username ident) (id_issuer_name ident) (cr_expires_at creds) g' = (Inr creds, g'')"
        "cr_expires_at creds \<le> id_expiry ident" "clk At_exchange < cr_expires_at creds"
        "cr_expires_at creds \<le> clk At_exchange + seconds (sc_max_duration (cf_sts (sv_cfg sv)))"
      and put: "st_put (sv_store sv) creds (ss_store st) = (e, ss_store st')"
      using x(2) by auto
    have "exchanged sv (evs @ [Served clk r reply]) creds"
      using assms(2) by (rule exchanged_now) (unfold minted_at_def, use c in blast)
    moreover have "cr_username creds = id_username ident" using c(2) by (rule mint_Inr)
    then have "policy (cr_username creds)" using tok.validate_policy [OF g(2) c(1)] by simp
    moreover have ok: "storable creds" by (rule minted_storable [OF g(2) c(1,2)])
    moreover have "inv (ss_store st')" using cred.put_inv [OF g(1) ok put] .
    ultimately show ?thesis
      using assms(1) v cred.put_origin [OF g(1) ok put] exchanged_mono unfolding good_def by metis
  qed
qed

lemma good_request:
  assumes "good evs st" "serve sv clk r st = (reply, st')"
  shows "good (evs @ [Served clk r reply]) st'"
proof (cases "isSTSRequest r")
  case True
  then show ?thesis using good_exchange assms by blast
next
  case False
  have g: "inv (ss_store st)" "vinv (ss_validator st)" using assms(1) by (simp_all add: good_def)
  from serve_state [OF False assms(2)] show ?thesis
    using get_state [OF g(1)] validate_state [OF g(2)] g by (intro good_shrink [OF assms(1)]) (metis | auto)+
qed

lemma good_revoke:
  assumes "good evs st" "handleRevoke sv akid st = (resp, st')"
  shows "good (evs @ [Revoked akid resp]) st'"
proof -
  have g: "inv (ss_store st)" "vinv (ss_validator st)" using assms(1) by (simp_all add: good_def)
  obtain got s where s: "st_get (sv_store sv) akid (ss_store st) = (got, s)"
    by (cases "st_get (sv_store sv) akid (ss_store st)")
  obtain e s2 where s2: "st_delete (sv_store sv) akid s = (e, s2)"
    by (cases "st_delete (sv_store sv) akid s")
  have frame: "inv s" "abs s = abs (ss_store st)" using cred.get_frame [OF g(1) s] by simp_all
  have "ss_validator st' = ss_validator st \<and> ss_store st' \<in> {s, s2}"
    using assms(2) s s2 unfolding handleRevoke_def Let_def
    by (auto split: sum.splits option.splits)
  then show ?thesis
    using good_shrink [OF assms(1), of st'] g frame cred.delete_inv [OF frame(1) s2]
      cred.delete_origin [OF frame(1) s2] by auto
qed

lemma good_count:
  assumes "good evs st" "st_count (sv_store sv) now (ss_store st) = (n, s)"
    "ss_store st' = s" "ss_validator st' = ss_validator st"
  shows "good (evs @ [e]) st'"
  using assms cred.count_frame [of "ss_store st" now n s]
  by (intro good_shrink [OF assms(1)]) (auto simp: good_def)

lemma good_probe:
  assumes "good evs st" "readyz sv clk st = (resp, st')"
  shows "good (evs @ [e]) st'"
proof -
  obtain n s where n: "st_count (sv_store sv) (clk At_count) (ss_store st) = (n, s)"
    by (cases "st_count (sv_store sv) (clk At_count) (ss_store st)")
  then have "ss_store st' = s" "ss_validator st' = ss_validator st"
    using assms(2) by (auto simp: readyz_def split: sum.splits)
  then show ?thesis using good_count [OF assms(1) n] by simp
qed

lemma good_scrape:
  assumes "good evs st" "collectStore (sv_store sv) clk (ss_store st) = (sample, s)"
  shows "good (evs @ [e]) (st\<lparr>ss_store := s\<rparr>)"
proof -
  obtain n s' where n: "st_count (sv_store sv) (clk At_count) (ss_store st) = (n, s')"
    by (cases "st_count (sv_store sv) (clk At_count) (ss_store st)")
  then have "s = s'" using assms(2) by (auto simp: collectStore_def split: sum.splits)
  then show ?thesis using good_count [OF assms(1) n] by simp
qed

lemma good_sweep: "good evs st \<Longrightarrow> good (evs @ [e]) (st\<lparr>ss_store := bg now (ss_store st)\<rparr>)"
  by (rule good_shrink) (auto simp: good_def intro: bg_inv bg_origin)

lemma good_step: "good evs st \<Longrightarrow> sys_step sv bg st e st' \<Longrightarrow> good (evs @ [e]) st'"
  by (erule sys_stepE)
    (simp_all add: good_request good_revoke good_probe good_scrape good_sweep)

lemma good_run:
  assumes "sys_run sv bg st0 evs st" "good [] st0"
  shows "good evs st"
  using assms by (induction rule: sys_run.induct) (auto intro: good_step)

text \<open>Whoever is authenticated in a good state is a user the validator accepted: in this very
  request, or in an earlier exchange whose credentials are live.\<close>

lemma authenticated_origin:
  assumes "good evs st" "authenticates sv clk st r u rq auth"
  shows "policy u \<and>
    ((\<exists>ident v. sv_validate sv clk (trim_prefix ''Bearer '' (req_get r ''Authorization'')) (ss_validator st)
         = (Inr ident, v) \<and> u = id_username ident) \<or>
     (\<exists>c. exchanged sv evs c \<and> u = cr_username c \<and> clk At_expiry_check < cr_expires_at c \<and>
        abs (ss_store st) (cr_access_key_id c) = Some c))"
proof -
  have g: "inv (ss_store st)" "vinv (ss_validator st)" using assms(1) by (simp_all add: good_def)
  have stored: "policy (cr_username c) \<and> exchanged sv evs c \<and> abs (ss_store st) (cr_access_key_id c) = Some c"
    if got: "fst (st_get (sv_store sv) k (ss_store st)) = Inr (Some c)" for k c
  proof -
    obtain s where "st_get (sv_store sv) k (ss_store st) = (Inr (Some c), s)"
      using got by (cases "st_get (sv_store sv) k (ss_store st)") simp
    then have "abs (ss_store st) k = Some c" using cred.get_ok [OF g(1)] by metis
    then show ?thesis using assms(1) by (auto simp: good_def)
  qed
  from assms(2) show ?thesis
  proof cases
    case (bearer ident v)
    then show ?thesis using tok.validate_policy [OF g(2)] by blast
  next
    case (sigv4 auth creds)
    then show ?thesis using stored [OF sigv4(5)] by (auto simp: expired_def)
  next
    case (presigned auth creds)
    then show ?thesis using stored [OF presigned(6)] by (auto simp: expired_def)
  qed
qed

text \<open>In strict mode a request that leaves the proxy names no other user than the one
  authenticated, and carries no session token.\<close>

lemma strict_forwarded:
  assumes "good evs st" "serve sv clk r st = (reply, st')" "forwarded reply = Some out"
    "StrictEnabled (cf_data_path (sv_cfg sv))" "\<forall>u. policy u \<longrightarrow> CHR ''/'' \<notin> set u"
  shows "\<exists>u rq auth. authenticates sv clk st r u rq auth \<and> policy u \<and>
    outbound_user out \<in> {None, Some u} \<and> header_values (r_header out) ''X-Amz-Security-Token'' = [] \<and>
    ((\<exists>ident v. sv_validate sv clk (trim_prefix ''Bearer '' (req_get r ''Authorization'')) (ss_validator st)
         = (Inr ident, v) \<and> u = id_username ident) \<or>
     (\<exists>c. exchanged sv evs c \<and> u = cr_username c \<and> clk At_expiry_check < cr_expires_at c \<and>
        abs (ss_store st) (cr_access_key_id c) = Some c))"
proof -
  obtain u rq auth where a: "authenticates sv clk st r u rq auth"
    and o: "proxy_outbound (sv_target sv) (applyIdentity sv clk rq u auth) = Some out"
    using serve_forwarded [OF assms(2,3)] assms(4) by auto
  note orig = authenticated_origin [OF assms(1) a]
  then have "CHR ''/'' \<notin> set u" using assms(5) by blast
  from outbound_identity [OF o this] orig a show ?thesis by auto
qed

end

section \<open>The wiring of the proxy\<close>

text \<open>
  \<open>cmd/proxy/main.go\<close> for the memory store: the store, the validator and the server built from
  the configuration, and the state they start in. \<open>None\<close> when \<open>server.New\<close> fails.
\<close>

definition memory_server ::
  "config \<Rightarrow> url \<Rightarrow> ('c, 'k, 'set) jose \<Rightarrow> (request \<Rightarrow> upstream_result) \<Rightarrow> (string \<Rightarrow> string) \<Rightarrow>
   (sigv4_error \<Rightarrow> string) \<Rightarrow> (memory, 'c validator) server" where
  "memory_server cfg target j up quote errtext =
     \<lparr>sv_cfg = cfg, sv_target = target, sv_store = memory_impl, sv_validate = Validate j,
      sv_upstream = up, sv_quote = quote, sv_error_text = errtext\<rparr>"

definition memory_state :: "config \<Rightarrow> 'c \<Rightarrow> rand_source \<Rightarrow> (memory, 'c validator) state" where
  "memory_state cfg cache g =
     \<lparr>ss_store = newMemory [], ss_validator = newValidator cfg cache, ss_rand = g, ss_metrics = newMetrics\<rparr>"

definition start_memory ::
  "config \<Rightarrow> ('c, 'k, 'set) jose \<Rightarrow> (request \<Rightarrow> upstream_result) \<Rightarrow> (string \<Rightarrow> string) \<Rightarrow>
   (sigv4_error \<Rightarrow> string) \<Rightarrow> 'c \<Rightarrow> rand_source \<Rightarrow>
   ((memory, 'c validator) server \<times> (memory, 'c validator) state) option" where
  "start_memory cfg j up quote errtext cache g =
     map_option (\<lambda>sv. (sv, memory_state cfg cache g))
       (newServer cfg (Validate j) memory_impl up quote errtext)"

lemma memory_server_simps [simp]:
  "sv_cfg (memory_server cfg target j up quote errtext) = cfg"
  "sv_target (memory_server cfg target j up quote errtext) = target"
  "sv_store (memory_server cfg target j up quote errtext) = memory_impl"
  "sv_validate (memory_server cfg target j up quote errtext) = Validate j"
  "sv_upstream (memory_server cfg target j up quote errtext) = up"
  by (simp_all add: memory_server_def)

lemma start_memory_Some:
  "start_memory cfg j up quote errtext cache g = Some (sv, st) \<longleftrightarrow>
   (\<exists>target. url_parse (uc_s3_endpoint (cf_upstream cfg)) = Some target \<and>
      sv = memory_server cfg target j up quote errtext \<and> st = memory_state cfg cache g)"
  by (auto simp: start_memory_def newServer_def memory_server_def split: option.splits)

lemma memory_tick_origin:
  "memory_inv m \<Longrightarrow> memory_abs (memory_tick now m) k = Some c \<Longrightarrow> memory_abs m k = Some c"
  by (auto simp: memory_tick_def memory_sweep_abs split: if_splits option.splits)

interpretation ms: proxy_system "memory_server cfg target j up quote errtext" memory_abs memory_inv
  "\<lambda>_. True" "validator_inv cfg" "policy_validate (cf_username_policy cfg)" memory_tick
  for cfg target and j :: "('c, 'k, 'set) jose" and up quote errtext
  unfolding proxy_system_def proxy_system_axioms_def memory_server_simps
  by (intro conjI allI impI mem.credential_store_axioms oidc.token_validator_axioms)
    (auto intro: memory_tick_inv memory_tick_origin)

lemma memory_state_good:
  "proxy_system.good (memory_server cfg target j up quote errtext) memory_abs memory_inv (validator_inv cfg)
     (policy_validate (cf_username_policy cfg)) [] (memory_state cfg cache g)"
  by (simp add: ms.good_def memory_state_def newMemory_def memory_inv_def memory_abs_def newValidator_inv)

end
