(* ===== verification/Samples.thy ===== *)
theory Samples
  imports System
begin

text \<open>
  A concrete deployment for the witnesses: one issuer, the default username policy, the memory
  store, and a stand-in for the JOSE library that accepts one token, \<open>jwt-alice\<close>.
\<close>

definition sample_issuer :: issuer where
  "sample_issuer = \<lparr>is_name = ''kc'', is_issuer = ''https://idp'', is_jwks_uri = ''https://idp/jwks'',
     is_audiences = [''ozone''], is_username_claim = ''preferred_username''\<rparr>"

definition sample_cfg :: config where
  "sample_cfg = \<lparr>cf_listen = ''0.0.0.0:9000'', cf_admin_listen = ''0.0.0.0:9090'',
     cf_upstream = \<lparr>uc_s3_endpoint = ''http://s3g:9878'', uc_forward_mode = ''rewrite''\<rparr>,
     cf_data_path = \<lparr>dp_accept_bearer = None, dp_strict = None\<rparr>,
     cf_issuers = [sample_issuer],
     cf_sts = \<lparr>sc_max_duration = 3600, sc_role_arn_allowlist = []\<rparr>,
     cf_credential_store = \<lparr>cs_type = ''memory'', cs_valkey_addr = [], cs_valkey_key_env = ''OZPX_STORE_KEY''\<rparr>,
     cf_security = \<lparr>se_clock_skew = 900000000000, se_allowed_signing_algs = [''RS256''], se_region = ''us-east-1''\<rparr>,
     cf_username_policy = \<lparr>up_pattern = defaultPattern, up_regex = Some default_username\<rparr>\<rparr>"

definition sample_token :: token where
  "sample_token = \<lparr>tk_subject = ''7f3'', tk_audience = [''ozone''], tk_expiration = 1700001000000000000,
     tk_claims = (\<lambda>k. if k = ''preferred_username'' then Some (StringClaim ''alice'') else None)\<rparr>"

definition sample_jose :: "(unit, unit, unit) jose" where
  "sample_jose = \<lparr>jo_parse_insecure = (\<lambda>raw. if raw = ''jwt-alice'' then Some ''https://idp'' else None),
     jo_jws = (\<lambda>raw. Some (''RS256'', ''k1'')),
     jo_parse = (\<lambda>raw alg key skew now. if now - skew < tk_expiration sample_token then Inr sample_token else Inl JwtExpired),
     jo_lookup_key_id = (\<lambda>_ kid. if kid = ''k1'' then Some () else None),
     jo_cache_register = (\<lambda>_ c. (True, c)), jo_cache_get = (\<lambda>_ c. (Some (), c)),
     jo_cache_refresh = (\<lambda>_ c. (Some (), c)), jo_http_get = (\<lambda>_. None)\<rparr>"

definition sample_up :: "request \<Rightarrow> upstream_result" where
  "sample_up r = UpResponse \<lparr>rp_status = 200, rp_header = [], rp_body = []\<rparr>"

definition sample_rand :: rand_source where
  "sample_rand = \<lparr>rs_byte = (\<lambda>i. char_of (i * 7 + 3)), rs_fails = (\<lambda>_. False), rs_pos = 0, rs_reads = 0\<rparr>"

definition sample_target :: url where
  "sample_target = \<lparr>u_scheme = ''http'', u_host = ''s3g:9878'', u_path = [], u_raw_path = [], u_raw_query = []\<rparr>"

abbreviation sample_quote :: "string \<Rightarrow> string" where
  "sample_quote \<equiv> \<lambda>s. [CHR 34] @ s @ [CHR 34]"

abbreviation sample_errtext :: "sigv4_error \<Rightarrow> string" where
  "sample_errtext \<equiv> \<lambda>_. ''rejected''"

definition sample_server :: "(memory, unit validator) server" where
  "sample_server = memory_server sample_cfg sample_target sample_jose sample_up sample_quote sample_errtext"

definition sample_state :: "(memory, unit validator) state" where
  "sample_state = memory_state sample_cfg () sample_rand"

text \<open>A clock that stands still.\<close>

definition at_time :: "time \<Rightarrow> clock" where "at_time t = (\<lambda>_. t)"

definition sample_clock :: clock where "sample_clock = at_time 1700000000000000000"

lemma sample_start:
  "start_memory sample_cfg sample_jose sample_up sample_quote sample_errtext () sample_rand =
     Some (sample_server, sample_state)"
proof -
  have "url_parse (uc_s3_endpoint (cf_upstream sample_cfg)) = Some sample_target" by code_simp
  then show ?thesis by (simp add: start_memory_Some sample_server_def sample_state_def)
qed

definition bearer_request :: request where
  "bearer_request = \<lparr>r_method = ''GET'',
     r_url = \<lparr>u_scheme = [], u_host = [], u_path = ''/bucket/key'', u_raw_path = [], u_raw_query = []\<rparr>,
     r_request_uri = ''/bucket/key'', r_host = ''s3.example.org'',
     r_header = [(''Authorization'', [''Bearer jwt-alice''])],
     r_content_length = 0, r_body = Some [], r_client_ip = Some ''10.0.0.7'', r_tls = False\<rparr>"

definition sts_request :: request where
  "sts_request = \<lparr>r_method = ''POST'',
     r_url = \<lparr>u_scheme = [], u_host = [], u_path = ''/'', u_raw_path = [], u_raw_query = []\<rparr>,
     r_request_uri = ''/'', r_host = ''s3.example.org'',
     r_header = [(''Content-Type'', [form_type])], r_content_length = 90,
     r_body = Some ''Action=AssumeRoleWithWebIdentity&RoleArn=arn:x&WebIdentityToken=jwt-alice&DurationSeconds=900'',
     r_client_ip = Some ''10.0.0.7'', r_tls = False\<rparr>"

lemma sample_validate:
  "\<exists>ident v. Validate sample_jose sample_clock ''jwt-alice'' (ss_validator sample_state) = (Inr ident, v) \<and>
     id_username ident = ''alice''"
proof -
  have "map_sum id id_username (fst (Validate sample_jose sample_clock ''jwt-alice'' (ss_validator sample_state)))
      = Inr ''alice''" by code_simp
  then show ?thesis
    by (cases "Validate sample_jose sample_clock ''jwt-alice'' (ss_validator sample_state)";
        cases "fst (Validate sample_jose sample_clock ''jwt-alice'' (ss_validator sample_state))") auto
qed

text \<open>Every server with the sample configuration and validator forwards a request with this token,
  whatever its store.\<close>

lemma sample_bearer_accepts:
  assumes "sv_cfg sv = sample_cfg" "sv_validate sv = Validate sample_jose"
    "ss_validator st = ss_validator sample_state"
    and "\<not> isSTSRequest r" "req_get r ''Authorization'' = ''Bearer jwt-alice''"
    "printable (upgrade_type (r_header r))"
  shows "\<exists>out. forwarded (fst (serve sv sample_clock r st)) = Some out"
proof -
  obtain ident v where i: "Validate sample_jose sample_clock ''jwt-alice'' (ss_validator sample_state) = (Inr ident, v)"
    using sample_validate by blast
  have "forwarded (fst (serve sv sample_clock r st)) =
      proxy_outbound (sv_target sv) (applyIdentity sv sample_clock r (id_username ident) None)"
    using assms(1-5) i
    by (intro serve_bearer_accepts)
      (simp_all add: has_prefix_def trim_prefix_def BearerEnabled_def sample_cfg_def)
  then show ?thesis using assms(6) by (simp add: proxy_outbound_iff applyIdentity_upgrade)
qed

lemma bearer_request_facts:
  "\<not> isSTSRequest bearer_request" "req_get bearer_request ''Authorization'' = ''Bearer jwt-alice''"
  "printable (upgrade_type (r_header bearer_request))"
  by code_simp+

lemma sample_server_simps:
  "sv_cfg sample_server = sample_cfg" "sv_validate sample_server = Validate sample_jose"
  by (simp_all add: sample_server_def)

lemma sample_bearer_forwarded:
  "\<exists>out. forwarded (fst (serve sample_server sample_clock bearer_request sample_state)) = Some out"
  by (rule sample_bearer_accepts [OF sample_server_simps refl bearer_request_facts])

lemma sample_sts: "isSTSRequest sts_request"
  by code_simp

end
