(* ===== verification/Sigv4_Props.thy ===== *)
theory Sigv4_Props
  imports Sigv4_Facts
begin

text \<open>
  The properties of package \<open>internal/sigv4\<close>: the signer and the verifier agree, a verified
  request lies in the clock window, the canonical request determines what was signed, and the
  two parsers invert what clients render.
\<close>

definition sample_sign_input :: sign_input where
  "sample_sign_input = \<lparr>si_access_key_id = ''alice'', si_secret = ''ozone-synthetic'',
     si_region = ''us-east-1'', si_service = ''s3'', si_host = ''s3g:9878'',
     si_now = 1700000000123456789\<rparr>"

definition sample_request :: request where
  "sample_request = \<lparr>r_method = ''PUT'',
     r_url = \<lparr>u_scheme = [], u_host = [], u_path = ''/bucket/a b'', u_raw_path = [],
       u_raw_query = ''uploadId=x%2Fy&partNumber=7''\<rparr>,
     r_request_uri = ''/bucket/a%20b?uploadId=x%2Fy&partNumber=7'', r_host = ''s3.example.org'',
     r_header = [(''X-Amz-Meta-K'', ['' v  w '']), (''Accept'', [''*/*''])],
     r_content_length = 5, r_body = Some ''hello'', r_client_ip = Some ''10.0.0.7'', r_tls = False\<rparr>"

lemma sample_facts:
  "wf_header (r_header sample_request)"
  "canonicalQuery (u_raw_query (r_url sample_request)) [] = Inr ''partNumber=7&uploadId=x%2Fy''"
  "four_digit_year (si_now sample_sign_input)"
  "scope_text (si_access_key_id sample_sign_input)" "si_access_key_id sample_sign_input \<noteq> []"
  "scope_text (si_region sample_sign_input)" "scope_text (si_service sample_sign_input)"
  by code_simp+

text \<open>C8: signing and verifying agree. Whenever the query of a request decodes, \<open>Sign\<close>
  succeeds, its Authorization header parses, names the access key it was given, and
  \<open>Verify\<close> accepts the signed request under the same secret, region and service as long as
  the verifier's clock is within the skew of the signing second.\<close>

theorem sign_then_verify:
  assumes "canonicalQuery (u_raw_query (r_url r)) [] = Inr q" "wf_header (r_header r)"
    and "four_digit_year (si_now si)" "scope_text (si_access_key_id si)" "si_access_key_id si \<noteq> []"
      "scope_text (si_region si)" "scope_text (si_service si)"
    and "- skew \<le> time_sub now (si_now si - si_now si mod second)"
      "time_sub now (si_now si - si_now si mod second) \<le> skew"
  shows "\<exists>r' auth. sign si r = (r', None) \<and>
    parseAuthorization (req_get r' ''Authorization'') = Inr auth \<and>
    au_access_key_id auth = si_access_key_id si \<and>
    verify \<lparr>in_request = r', in_auth = auth, in_secret = si_secret si, in_region = si_region si,
      in_service = si_service si, in_now = now, in_clock_skew = skew\<rparr> = Inr ()"
proof -
  have "snd (sign si r) = None" using assms(1) by (simp add: sign_succeeds_iff)
  then obtain r' where s: "sign si r = (r', None)" by (metis prod.collapse)
  obtain auth where "parseAuthorization (req_get r' ''Authorization'') = Inr auth"
    using sign_header_parses [OF s assms(2-7)] by metis
  then show ?thesis using sign_verifies [OF s assms(2-7) _ assms(8,9)] s by blast
qed

theorem sign_then_verify_witness:
  "\<exists>r' auth. sign sample_sign_input sample_request = (r', None) \<and>
    parseAuthorization (req_get r' ''Authorization'') = Inr auth \<and>
    au_access_key_id auth = ''alice'' \<and>
    verify \<lparr>in_request = r', in_auth = auth, in_secret = ''ozone-synthetic'', in_region = ''us-east-1'',
      in_service = ''s3'', in_now = 1700000300000000000, in_clock_skew = 900000000000\<rparr> = Inr ()"
  using sign_then_verify [OF sample_facts(2,1,3-7), of 900000000000 1700000300000000000]
  by (simp add: sample_sign_input_def time_sub_def second_def min_int64_def max_int64_def)

text \<open>C9: what \<open>Verify\<close> accepts. An accepted request is scoped to the configured service and
  region, carries an \<open>X-Amz-Date\<close> that lies within the clock skew of now and starts with the
  date of the scope, and its signature is the HMAC chain under the secret over the canonical
  request built from the request as received.\<close>

theorem verify_accepts:
  assumes "verify inp = Inr ()" "0 \<le> in_clock_skew inp" "in_clock_skew inp < max_int64"
  shows "au_service (in_auth inp) = in_service inp \<and> au_region (in_auth inp) = in_region inp \<and>
    (\<exists>t canonical. parse_amz (req_get (in_request inp) ''X-Amz-Date'') = Some t \<and>
       t - in_clock_skew inp \<le> in_now inp \<and> in_now inp \<le> t + in_clock_skew inp \<and>
       take 8 (req_get (in_request inp) ''X-Amz-Date'') = au_date (in_auth inp) \<and>
       canonicalRequest (in_request inp) (au_signed_headers (in_auth inp)) = Inr canonical \<and>
       au_signature (in_auth inp) =
         signatureOf (in_secret inp) (req_get (in_request inp) ''X-Amz-Date'')
           (au_date (in_auth inp)) (in_region inp) (in_service inp) canonical)"
proof -
  have "- in_clock_skew inp \<le> time_sub (in_now inp) t \<Longrightarrow> t - in_clock_skew inp \<le> in_now inp"
    and "time_sub (in_now inp) t \<le> in_clock_skew inp \<Longrightarrow> in_now inp \<le> t + in_clock_skew inp" for t
    using assms(2,3) by (auto simp: time_sub_def min_int64_def max_int64_def)
  with assms(1) show ?thesis unfolding verify_iff by force
qed

text \<open>A verifying input: the sample request as signed.\<close>

definition sample_signed :: request where
  "sample_signed = fst (sign sample_sign_input sample_request)"

definition sample_input :: "authorization verify_input" where
  "sample_input = \<lparr>in_request = sample_signed,
     in_auth = projr (parseAuthorization (req_get sample_signed ''Authorization'')),
     in_secret = ''ozone-synthetic'', in_region = ''us-east-1'', in_service = ''s3'',
     in_now = 1700000300000000000, in_clock_skew = 900000000000\<rparr>"

lemma sample_input_verifies: "verify sample_input = Inr ()"
proof -
  have s: "sign sample_sign_input sample_request = (sample_signed, None)"
    using sign_succeeds_iff [of sample_sign_input sample_request] sample_facts(2)
    by (simp add: sample_signed_def prod_eq_iff)
  obtain auth where a: "parseAuthorization (req_get sample_signed ''Authorization'') = Inr auth"
    using sign_header_parses [OF s sample_facts(1,3-7)] by metis
  then have "in_auth sample_input = auth" by (simp add: sample_input_def)
  then show ?thesis
    using sign_verifies [OF s sample_facts(1,3-7) a, of 900000000000 1700000300000000000]
    by (simp add: sample_input_def sample_sign_input_def a time_sub_def second_def min_int64_def max_int64_def)
qed

theorem verify_accepts_witness:
  "\<exists>t canonical. parse_amz (req_get sample_signed ''X-Amz-Date'') = Some t \<and>
     t - 900000000000 \<le> 1700000300000000000 \<and> 1700000300000000000 \<le> t + 900000000000 \<and>
     canonicalRequest sample_signed (au_signed_headers (in_auth sample_input)) = Inr canonical \<and>
     au_signature (in_auth sample_input) =
       signatureOf ''ozone-synthetic'' (req_get sample_signed ''X-Amz-Date'')
         (au_date (in_auth sample_input)) ''us-east-1'' ''s3'' canonical"
  using verify_accepts [OF sample_input_verifies]
  by (auto simp: sample_input_def max_int64_def)

text \<open>C10: the lifetime of a presigned URL. A URL presigned for \<open>expires\<close> seconds (at most
  seven days) is accepted exactly from the clock skew before its date until its date plus
  \<open>expires\<close>: \<open>ParsePresigned\<close> reads back what the client wrote, and the signature is verified
  over the query without the signature parameter.\<close>

theorem presigned_lifetime:
  assumes "presignable si p expires names extra"
  shows "\<exists>auth. parsePresigned (presign si p expires names extra r) = Inr auth \<and>
    au_access_key_id auth = si_access_key_id si \<and>
    (verifyPresigned \<lparr>in_request = presign si p expires names extra r, in_auth = auth,
       in_secret = si_secret si, in_region = si_region si, in_service = si_service si, in_now = now,
       in_clock_skew = skew\<rparr> = Inr () \<longleftrightarrow>
     time_sub (si_now si - si_now si mod second) now \<le> skew \<and>
     now \<le> si_now si - si_now si mod second + expires * second)"
  using presign_parses [OF assms, of r] presign_accepted_iff [OF assms, of r] by simp

definition sample_extra :: "(string \<times> string) list" where
  "sample_extra = [(''versionId'', ''3/L4kqt'')]"

lemma sample_presignable:
  "presignable sample_sign_input ''/bucket/a%20b'' 3600 [''host''] sample_extra"
  unfolding presignable_def using sample_facts
  by (simp add: presign_params_def maxPresignExpires_def signable_name_def graphic_def is_upper_def
      has_prefix_def sample_extra_def)

theorem presigned_lifetime_witness:
  "\<exists>auth. parsePresigned (presign sample_sign_input ''/bucket/a%20b'' 3600 [''host''] sample_extra
      sample_request) = Inr auth \<and>
    au_access_key_id auth = ''alice'' \<and>
    verifyPresigned \<lparr>in_request = presign sample_sign_input ''/bucket/a%20b'' 3600 [''host'']
      sample_extra sample_request, in_auth = auth, in_secret = ''ozone-synthetic'',
      in_region = ''us-east-1'', in_service = ''s3'', in_now = 1700003599000000000,
      in_clock_skew = 0\<rparr> = Inr ()"
  using presigned_lifetime [OF sample_presignable, of sample_request 1700003599000000000 0]
  by (auto simp: sample_sign_input_def time_sub_def second_def min_int64_def max_int64_def)

text \<open>C32: no presigned URL outlives seven days. Whatever query a request carries, if
  \<open>ParsePresigned\<close> and \<open>VerifyPresigned\<close> accept it then the date it was signed for is at most
  the clock skew ahead of now and at most 604800 seconds behind it.\<close>

theorem presigned_at_most_seven_days:
  assumes "parsePresigned r = Inr (in_auth inp)" "verifyPresigned inp = Inr ()"
    "0 \<le> in_clock_skew inp" "in_clock_skew inp < max_int64"
  shows "\<exists>t. parse_amz (ps_amz_date (in_auth inp)) = Some t \<and>
    t - in_clock_skew inp \<le> in_now inp \<and> in_now inp \<le> t + ps_expires (in_auth inp) \<and>
    in_now inp \<le> t + 604800 * second"
proof -
  obtain n where n: "n \<le> maxPresignExpires" "ps_expires (in_auth inp) = n * second"
    using parsePresigned_Inr [OF assms(1)] by blast
  obtain t where t: "parse_amz (ps_amz_date (in_auth inp)) = Some t"
    "time_sub t (in_now inp) \<le> in_clock_skew inp" "in_now inp \<le> t + ps_expires (in_auth inp)"
    using assms(2) by (auto simp: verifyPresigned_iff time_add_def)
  then have "t - in_clock_skew inp \<le> in_now inp"
    using assms(3,4) time_sub_le_iff [of "in_clock_skew inp" t "in_now inp"] by (simp add: min_int64_def)
  moreover have "n * second \<le> 604800 * second" using n(1) by (simp add: maxPresignExpires_def second_def)
  ultimately show ?thesis using t n(2) by auto
qed

definition sample_presigned :: "presigned verify_input" where
  "sample_presigned =
     (let r = presign sample_sign_input ''/bucket/a%20b'' 3600 [''host''] sample_extra sample_request in
      \<lparr>in_request = r, in_auth = projr (parsePresigned r), in_secret = ''ozone-synthetic'',
       in_region = ''us-east-1'', in_service = ''s3'', in_now = 1700003599000000000, in_clock_skew = 0\<rparr>)"

lemma sample_presigned_verifies:
  "parsePresigned (in_request sample_presigned) = Inr (in_auth sample_presigned)"
  "verifyPresigned sample_presigned = Inr ()"
proof -
  show a: "parsePresigned (in_request sample_presigned) = Inr (in_auth sample_presigned)"
    using presign_parses [OF sample_presignable, of sample_request]
    by (simp add: sample_presigned_def Let_def)
  have "parsePresigned (presign sample_sign_input ''/bucket/a%20b'' 3600 [''host''] sample_extra
      sample_request) = Inr (in_auth sample_presigned)"
    using a by (simp add: sample_presigned_def Let_def)
  then show "verifyPresigned sample_presigned = Inr ()"
    using presign_accepted_iff [OF sample_presignable, of sample_request "in_auth sample_presigned"
      1700003599000000000 0]
    by (simp add: sample_presigned_def Let_def sample_sign_input_def time_sub_def second_def
        min_int64_def max_int64_def)
qed

theorem presigned_at_most_seven_days_witness:
  "\<exists>t. parse_amz (ps_amz_date (in_auth sample_presigned)) = Some t \<and>
    t \<le> 1700003599000000000 \<and> 1700003599000000000 \<le> t + 604800 * second"
  using presigned_at_most_seven_days [OF sample_presigned_verifies]
  by (auto simp: sample_presigned_def Let_def max_int64_def)

text \<open>C33: the canonical query string is a canonical form. Two raw queries that both decode have
  the same canonical string exactly when they hold the same multiset of decoded parameters
  (without the skipped one): the order of parameters and the way they are escaped are
  forgotten, and nothing else is.\<close>

theorem canonicalQuery_eq_iff:
  assumes "canonicalQuery q1 skip = Inr c1" "canonicalQuery q2 skip = Inr c2"
  shows "c1 = c2 \<longleftrightarrow> mset (decoded_query q1 skip) = mset (decoded_query q2 skip)"
proof
  assume "mset (decoded_query q1 skip) = mset (decoded_query q2 skip)"
  then have "mset (map encode_pair (decoded_query q1 skip)) = mset (map encode_pair (decoded_query q2 skip))"
    by simp
  then have "sort (map encode_pair (decoded_query q1 skip)) = sort (map encode_pair (decoded_query q2 skip))"
    by (intro properties_for_sort) simp_all
  then show "c1 = c2" using assms by (simp add: canonicalQuery_decoded)
next
  assume eq: "c1 = c2"
  have "query_parts c1 = map (render_pair \<circ> encode_pair) (sort_key encode_pair (decoded_query q1 skip))"
    "query_parts c2 = map (render_pair \<circ> encode_pair) (sort_key encode_pair (decoded_query q2 skip))"
    using assms [THEN canonicalQuery_sorted] query_parts_render by simp_all
  then have "sort_key encode_pair (decoded_query q1 skip) = sort_key encode_pair (decoded_query q2 skip)"
    using eq render_encode_inj by metis
  then show "mset (decoded_query q1 skip) = mset (decoded_query q2 skip)"
    by (metis mset_sort)
qed

theorem canonicalQuery_eq_iff_witness:
  "canonicalQuery ''b=%32&a=x+y&&b'' [] = canonicalQuery ''a=x%2By&b=&b=2'' []"
proof -
  have c: "canonicalQuery ''b=%32&a=x+y&&b'' [] = Inr ''a=x%2By&b=&b=2''"
    "canonicalQuery ''a=x%2By&b=&b=2'' [] = Inr ''a=x%2By&b=&b=2''" by code_simp+
  have "mset (decoded_query ''b=%32&a=x+y&&b'' []) = mset (decoded_query ''a=x%2By&b=&b=2'' [])"
    by code_simp
  then show ?thesis using canonicalQuery_eq_iff [OF c] c by simp
qed

text \<open>Canonicalising a canonical query string changes nothing.\<close>

theorem canonicalQuery_idempotent:
  assumes "canonicalQuery q skip = Inr c"
  shows "canonicalQuery c skip = Inr c"
proof -
  let ?ps = "sort_key encode_pair (decoded_query q skip)"
  have c: "c = render_query ?ps"
    using canonicalQuery_sorted [OF assms] by (simp add: render_query_def)
  have "filter (\<lambda>(k, _). skip = [] \<or> k \<noteq> skip) ?ps = ?ps"
    using decoded_query_skip [of "(skip, _)" q skip] by (auto simp: filter_id_conv)
  moreover have "sort_key encode_pair ?ps = ?ps" by (rule sort_key_id_if_sorted) simp
  ultimately show ?thesis unfolding c canonicalQuery_render by simp
qed

text \<open>C34: the canonical request is unambiguous. When two requests have the same canonical
  request, they have the same method, canonical path, canonical query, signed header names,
  value of every signed header and payload hash: no byte of one component can pass for part
  of another. The method, the path and the payload hash of a request that \<open>net/http\<close> has
  read hold no line break; header values cannot, because \<open>headerValue\<close> collapses space.\<close>

theorem canonical_request_unambiguous:
  assumes "buildCanonical r names skip ph = Inr c" "buildCanonical r' names' skip' ph' = Inr c"
    and "\<forall>x \<in> {r_method r, canonicalURI r, ph, r_method r', canonicalURI r', ph'}. CHR 0x0A \<notin> set x"
    and "\<forall>n \<in> set names \<union> set names'. signable_name n \<and> CHR '':'' \<notin> set n"
  shows "r_method r = r_method r' \<and> canonicalURI r = canonicalURI r' \<and>
    canonicalQuery (u_raw_query (r_url r)) skip = canonicalQuery (u_raw_query (r_url r')) skip' \<and>
    names = names' \<and> (\<forall>n \<in> set names. headerValue r n = headerValue r' n) \<and> ph = ph'"
proof -
  obtain q q' where q: "canonicalQuery (u_raw_query (r_url r)) skip = Inr q"
    and q': "canonicalQuery (u_raw_query (r_url r')) skip' = Inr q'"
    using assms(1,2) by (auto simp: buildCanonical_def res_iff)
  have "split_on (CHR 0x0A) c = [r_method r, canonicalURI r, q] @ map (header_line r) names @
      [[], join '';'' names, ph]"
    using assms by (intro canonical_lines [OF assms(1) q]) auto
  moreover have "split_on (CHR 0x0A) c = [r_method r', canonicalURI r', q'] @ map (header_line r') names' @
      [[], join '';'' names', ph']"
    using assms by (intro canonical_lines [OF assms(2) q']) auto
  ultimately have eq: "r_method r = r_method r'" "canonicalURI r = canonicalURI r'" "q = q'"
    "map (header_line r) names = map (header_line r') names'" "ph = ph'"
    by (simp_all add: append_eq_append_conv)
  then show ?thesis using header_lines_eq [OF eq(4)] assms(4) q q' by auto
qed

definition sample_variant :: request where
  "sample_variant = sample_request\<lparr>r_header := [(''X-Amz-Meta-K'', [''v w''])]\<rparr>"

lemma sample_variant_facts:
  "headerValue sample_request ''host'' = ''s3.example.org''"
  "headerValue sample_request ''x-amz-meta-k'' = ''v w''"
  "headerValue sample_variant ''host'' = ''s3.example.org''"
  "headerValue sample_variant ''x-amz-meta-k'' = ''v w''"
  "canonicalURI sample_request = ''/bucket/a%20b''" "canonicalURI sample_variant = ''/bucket/a%20b''"
  by code_simp+

theorem canonical_request_unambiguous_witness:
  "canonicalURI sample_request = canonicalURI sample_variant \<and>
   headerValue sample_request ''x-amz-meta-k'' = headerValue sample_variant ''x-amz-meta-k''"
proof -
  let ?b = "\<lambda>r. buildCanonical r [''host'', ''x-amz-meta-k''] [] unsignedPayload"
  have same: "r_method sample_variant = ''PUT''" "r_method sample_request = ''PUT''"
    "r_url sample_variant = r_url sample_request"
    by (simp_all add: sample_variant_def sample_request_def)
  then have eq: "?b sample_request = ?b sample_variant"
    by (simp add: buildCanonical_def canonicalHeaders_def sample_variant_facts)
  obtain c where c: "?b sample_request = Inr c"
    using sample_facts(2) by (auto simp: buildCanonical_def)
  have "\<forall>x \<in> {r_method sample_request, canonicalURI sample_request, unsignedPayload,
      r_method sample_variant, canonicalURI sample_variant, unsignedPayload}. CHR 0x0A \<notin> set x"
    by (simp add: same sample_variant_facts unsignedPayload_def)
  moreover have "\<forall>n \<in> set [''host'', ''x-amz-meta-k''] \<union> set [''host'', ''x-amz-meta-k''].
      signable_name n \<and> CHR '':'' \<notin> set n"
    by (simp add: signable_name_def graphic_def is_upper_def)
  ultimately show ?thesis
    using canonical_request_unambiguous [OF c c [unfolded eq]] by (metis list.set_intros)
qed

text \<open>Parsing inverts rendering. \<open>ParseAuthorization\<close> reads back the access key, date,
  region, service, signed headers and signature of the header that \<open>AuthHeader\<close> renders, for
  every identity that holds no comma, slash, space or control character.\<close>

theorem parseAuthorization_authHeader:
  assumes "scope_text akid" "akid \<noteq> []" "scope_text date" "length date = 8" "scope_text region"
    "scope_text service" "names \<noteq> []" "\<forall>n \<in> set names. signable_name n" "hex_signature sig"
  shows "parseAuthorization (authHeader akid date region service (join '';'' names) sig) =
    Inr \<lparr>au_access_key_id = akid, au_date = date, au_region = region, au_service = service,
      au_signed_headers = names, au_signature = sig\<rparr>"
  using assms by (rule parse_authHeader)

text \<open>The constant that stands for an empty body is the digest of the empty string.\<close>

theorem emptyBodySHA256_is_digest: "emptyBodySHA256 = hex_encode (sha256 [])"
  by (simp add: emptyBodySHA256_def sha256_empty)

end
