(* ===== verification/Lanes.thy ===== *)
theory Lanes
  imports Samples Sigv4_Props "HOL-Library.Multiset"
begin

text \<open>
  The lanes of the server as their clients and operators see them: presigned URLs on their way to
  the gateway, and what the metrics count over a run.
\<close>

section \<open>The outbound query\<close>

lemma ApplyResign_url: "ApplyResign r u h g now = (r', e) \<Longrightarrow> r_url r' = r_url r"
  unfolding ApplyResign_def by (drule sign_frame(2)) simp

lemma applyIdentity_url: "r_url (applyIdentity sv clk r u auth) = r_url r"
proof -
  have rewrite: "r_url (case auth of Some a \<Rightarrow> RewriteAccessKeyID r' a u
      | None \<Rightarrow> ApplySynthetic r' u g t) = r_url r'" for r' g t
    by (simp add: RewriteAccessKeyID_def ApplySynthetic_def Let_def split: option.split)
  show ?thesis
    using rewrite unfolding applyIdentity_def Let_def
    by (auto split: if_split prod.split option.split intro: ApplyResign_url)
qed

lemma url_query_clean: "mset (fst (parse_query (cleanQueryParams q))) = mset (fst (parse_query q))"
  by (simp add: cleanQueryParams_def parse_query_encode)

lemma rewriteRequestURL_query: "u_raw_query target = [] \<Longrightarrow> u_raw_query (rewriteRequestURL target u) = u_raw_query u"
  by (simp add: rewriteRequestURL_def split: prod.split)

lemma proxy_outbound_query:
  assumes "proxy_outbound target r = Some out" "u_raw_query target = []"
  shows "mset (url_query (r_url out)) = mset (url_query (r_url r))"
proof -
  have "u_raw_query (r_url out) = cleanQueryParams (u_raw_query (r_url r))"
    using assms(1) unfolding proxy_outbound_def Let_def
    by (auto simp: rewriteRequestURL_query [OF assms(2)] split: if_splits)
  then show ?thesis by (simp add: url_query_def url_query_clean)
qed

section \<open>Presigned requests\<close>

lemma servePresigned_accepts:
  assumes "parsePresigned r = Inr auth"
    and "st_get (sv_store sv) (au_access_key_id auth) (ss_store st) = (Inr (Some creds), s)"
    and "\<not> expired creds (clk At_expiry_check)" "ps_security_token auth = cr_session_token creds"
    and "verifyPresigned \<lparr>in_request = r, in_auth = auth, in_secret = cr_secret_access_key creds,
      in_region = sv_region sv, in_service = ''s3'', in_now = clk At_verification,
      in_clock_skew = sv_skew sv\<rparr> = Inr ()"
  shows "forwarded (fst (servePresigned sv clk r reqID st)) =
    proxy_outbound (sv_target sv) (applyIdentity sv clk (StripPresignedQuery r) (cr_username creds) None)"
  using assms by (simp add: servePresigned_def Let_def split_def proxy_serve_forwarded)

lemma serve_presigned:
  assumes "\<not> isSTSRequest r" "req_get r ''Authorization'' = []" "isPresigned r"
  obtains reqID g where "serve sv clk r st = servePresigned sv clk r reqID (st\<lparr>ss_rand := g\<rparr>)"
proof -
  have "\<not> has_prefix ''Bearer '' []" "\<not> isSigV4 []" by code_simp+
  then show thesis using assms that
    by (cases "server_newRequestID (ss_rand st)") (simp add: serve_def Let_def)
qed

lemma presign_frame:
  "r_method (presign si p e ns ex r) = r_method r" "u_path (r_url (presign si p e ns ex r)) = u_path (r_url r)"
  "r_header (presign si p e ns ex r) = r_header r"
  by (simp_all add: presign_def with_query_def)

lemma presign_query:
  "url_query (r_url (presign si p e ns ex r)) =
     presign_pairs si e ns ex @ [(''X-Amz-Signature'', presign_signature si p e ns ex r)]"
  unfolding presign_def by (rule url_query_with_query)

lemma presign_stripped:
  assumes "presignable si p e ns ex"
  shows "url_query (r_url (StripPresignedQuery (presign si p e ns ex r))) =
    filter (\<lambda>(k, _). k \<noteq> ''X-Amz-Security-Token'') ex"
proof -
  have "k \<notin> set presignedAuthParams \<longleftrightarrow> k \<noteq> ''X-Amz-Security-Token''" if "(k, v) \<in> set ex" for k v
  proof -
    have "k \<notin> presign_params" using assms that unfolding presignable_def by (metis IntI empty_iff fst_conv image_eqI)
    then show ?thesis by (auto simp: presign_params_def presignedAuthParams_def)
  qed
  then have "filter (\<lambda>(k, _). k \<notin> set presignedAuthParams) ex = filter (\<lambda>(k, _). k \<noteq> ''X-Amz-Security-Token'') ex"
    by (intro filter_cong) auto
  then show ?thesis
    unfolding strip_url_query presign_query by (simp add: presign_pairs_def presignedAuthParams_def)
qed

text \<open>C3: presigned URLs get through without their authentication. When the store holds live
  credentials, a URL that the client presigns with them, with the session token among its
  parameters, is forwarded while it is valid; the gateway reads the username of the credentials
  off the Authorization header, and the parameters it decodes from the query are those of the
  request itself: none of the authentication, and no other is lost or added.\<close>

theorem presigned_request_forwarded:
  assumes "memory_abs (ss_store st) akid = Some c" "clk At_expiry_check < cr_expires_at c"
    and "CHR ''/'' \<notin> set (cr_username c)"
    and "si = \<lparr>si_access_key_id = akid, si_secret = cr_secret_access_key c,
        si_region = se_region (cf_security cfg), si_service = ''s3'', si_host = [], si_now = now\<rparr>"
    and "presignable si p expires names extra" "values_get extra ''X-Amz-Security-Token'' = cr_session_token c"
    and "\<not> isSTSRequest r" "req_get r ''Authorization'' = []" "header_values (r_header r) ''Connection'' = []"
    and "time_sub (now - now mod second) (clk At_verification) \<le> se_clock_skew (cf_security cfg)"
    and "clk At_verification \<le> now - now mod second + expires * second" "u_raw_query target = []"
  shows "\<exists>out. forwarded (fst (serve (memory_server cfg target j up quote errtext) clk
      (presign si p expires names extra r) st)) = Some out \<and> outbound_user out = Some (cr_username c) \<and>
    mset (url_query (r_url out)) = mset (filter (\<lambda>(k, _). k \<noteq> ''X-Amz-Security-Token'') extra)"
proof -
  let ?sv = "memory_server cfg target j up quote errtext" and ?r = "presign si p expires names extra r"
  obtain auth where auth: "parsePresigned ?r = Inr auth" "au_access_key_id auth = akid"
    "ps_security_token auth = cr_session_token c"
    using presign_parses [OF assms(5), of r] assms(4,6) by simp
  have v: "verifyPresigned \<lparr>in_request = ?r, in_auth = auth, in_secret = cr_secret_access_key c,
      in_region = sv_region ?sv, in_service = ''s3'', in_now = clk At_verification, in_clock_skew = sv_skew ?sv\<rparr> = Inr ()"
    using presign_accepted_iff [OF assms(5) auth(1), of "clk At_verification" "se_clock_skew (cf_security cfg)"]
      assms(4,10,11) by simp
  have kind: "\<not> isSTSRequest ?r" "req_get ?r ''Authorization'' = []" "isPresigned ?r"
    using assms(7,8) by (simp_all add: isSTSRequest_def req_get_def presign_frame isPresigned_def presign_query
        presign_pairs_def values_has_def Let_def)
  obtain reqID g where s: "serve ?sv clk ?r st = servePresigned ?sv clk ?r reqID (st\<lparr>ss_rand := g\<rparr>)"
    using serve_presigned [OF kind] by blast
  have get: "st_get (sv_store ?sv) (au_access_key_id auth) (ss_store (st\<lparr>ss_rand := g\<rparr>)) = (Inr (Some c), ss_store st)"
    using assms(1) auth(2) by (simp add: memory_impl_def memory_get_def memory_abs_def)
  let ?i = "applyIdentity ?sv clk (StripPresignedQuery ?r) (cr_username c) None"
  have fwd: "forwarded (fst (serve ?sv clk ?r st)) = proxy_outbound target ?i"
    unfolding s
    using servePresigned_accepts [where sv = ?sv and clk = clk and reqID = reqID, OF auth(1) get _ auth(3) v] assms(2)
    by (simp add: expired_def)
  have conn: "header_values (r_header ?i) ''Connection'' = []"
    using assms(9) by (simp add: applyIdentity_keeps [OF connection_not_identity] presign_frame)
  then obtain out where out: "proxy_outbound target ?i = Some out" using proxy_outbound_plain by blast
  have "connection_options (r_header ?i) = []" using conn by (simp add: connection_options_def)
  then have "outbound_user out = Some (cr_username c)" using outbound_identity(1) [OF out assms(3)] by simp
  moreover have "mset (url_query (r_url out)) = mset (filter (\<lambda>(k, _). k \<noteq> ''X-Amz-Security-Token'') extra)"
    using proxy_outbound_query [OF out assms(12)] presign_stripped [OF assms(5), of r] by (simp add: applyIdentity_url)
  ultimately show ?thesis using fwd out by simp
qed

definition presigning_creds :: credentials where
  "presigning_creds = \<lparr>cr_access_key_id = ''OZPX0123456789ABCDEF'', cr_secret_access_key = ''c2VjcmV0'',
     cr_session_token = ''dG9rZW4'', cr_username = ''alice'', cr_issuer = ''kc'', cr_expires_at = 1700000900000000000\<rparr>"

definition presigning_input :: sign_input where
  "presigning_input = \<lparr>si_access_key_id = ''OZPX0123456789ABCDEF'', si_secret = cr_secret_access_key presigning_creds,
     si_region = se_region (cf_security sample_cfg), si_service = ''s3'', si_host = [], si_now = 1699999000000000000\<rparr>"

theorem presigned_request_forwarded_witness:
  "\<exists>out. forwarded (fst (serve sample_server sample_clock (presign presigning_input ''/bucket/a%20b'' 3600 [''host'']
      [(''versionId'', ''3/L4kqt''), (''X-Amz-Security-Token'', ''dG9rZW4'')] sample_request)
      (sample_state\<lparr>ss_store := snd (memory_put presigning_creds (newMemory []))\<rparr>))) = Some out \<and>
    outbound_user out = Some ''alice'' \<and> mset (url_query (r_url out)) = {#(''versionId'', ''3/L4kqt'')#}"
proof -
  let ?extra = "[(''versionId'', ''3/L4kqt''), (''X-Amz-Security-Token'', ''dG9rZW4'')]"
  let ?st = "sample_state\<lparr>ss_store := snd (memory_put presigning_creds (newMemory []))\<rparr>"
  have live: "memory_abs (ss_store ?st) ''OZPX0123456789ABCDEF'' = Some presigning_creds"
    "sample_clock At_expiry_check < cr_expires_at presigning_creds" "CHR ''/'' \<notin> set (cr_username presigning_creds)"
    by code_simp+
  have scope: "scope_text ''OZPX0123456789ABCDEF''" "scope_text (se_region (cf_security sample_cfg))" "scope_text ''s3''"
    "four_digit_year 1699999000000000000" by code_simp+
  have ok: "presignable presigning_input ''/bucket/a%20b'' 3600 [''host''] ?extra"
    unfolding presignable_def using scope
    by (simp add: presigning_input_def presign_params_def maxPresignExpires_def signable_name_def graphic_def is_upper_def
        has_prefix_def)
  have tok: "values_get ?extra ''X-Amz-Security-Token'' = cr_session_token presigning_creds" by code_simp
  have r: "\<not> isSTSRequest sample_request" "req_get sample_request ''Authorization'' = []"
    "header_values (r_header sample_request) ''Connection'' = []" by code_simp+
  have t: "time_sub (1699999000000000000 - 1699999000000000000 mod second) (sample_clock At_verification)
      \<le> se_clock_skew (cf_security sample_cfg)"
    "sample_clock At_verification \<le> 1699999000000000000 - 1699999000000000000 mod second + 3600 * second"
    "u_raw_query sample_target = []" by code_simp+
  from presigned_request_forwarded [OF live presigning_input_def ok tok r t, of sample_jose sample_up sample_quote sample_errtext]
  show ?thesis by (simp add: sample_server_def presigning_creds_def)
qed

section \<open>What the metrics add up to\<close>

definition lane_labels :: "string list" where
  "lane_labels = [''sts'', ''bearer'', ''sigv4'', ''presigned'', ''unauthenticated'']"

definition sigv4_labels :: "string list" where
  "sigv4_labels = [''success'', ''malformed'', ''store_error'', ''unknown_akid'', ''expired'', ''bad_token'', ''skew'',
     ''scope'', ''missing_date'', ''mismatch'']"

definition presigned_labels :: "string list" where
  "presigned_labels = [''success'', ''malformed'', ''store_error'', ''unknown_akid'', ''expired'', ''bad_token'',
     ''url_expired'', ''skew'', ''mismatch'']"

definition revocation_labels :: "string list" where
  "revocation_labels = [''revoked'', ''unknown'', ''error'']"

definition tally :: "string list \<Rightarrow> (string \<Rightarrow> nat) \<Rightarrow> nat" where
  "tally ls f = sum_list (map f ls)"

lemma inc_other: "l \<notin> set ls \<Longrightarrow> map (inc l f) ls = map f ls"
  by (auto simp: inc_def)

lemma tally_inc: "distinct ls \<Longrightarrow> l \<in> set ls \<Longrightarrow> tally ls (inc l f) = tally ls f + 1"
proof (induction ls)
  case (Cons a ls)
  have "inc l f l = f l + 1" "a \<noteq> l \<Longrightarrow> inc l f a = f a" by (simp_all add: inc_def)
  then show ?case using Cons by (cases "a = l") (auto simp: tally_def inc_other)
qed simp

lemmas label_defs = lane_labels_def sigv4_labels_def presigned_labels_def revocation_labels_def

lemma labels_distinct:
  "distinct lane_labels" "distinct sigv4_labels" "distinct presigned_labels" "distinct revocation_labels"
  by (simp_all add: label_defs)

lemma label_members:
  "list_all (\<lambda>l. l \<in> set sigv4_labels) [''success'', ''malformed'', ''store_error'', ''unknown_akid'', ''expired'', ''bad_token'']"
  "list_all (\<lambda>l. l \<in> set presigned_labels) [''success'', ''malformed'', ''store_error'', ''unknown_akid'', ''expired'', ''bad_token'']"
  by (simp_all add: label_defs)

text \<open>What a request leaves of the counters: one more request in one lane, and in the two SigV4
  lanes one more result.\<close>

definition counted :: "string \<Rightarrow> metrics \<Rightarrow> metrics \<Rightarrow> bool" where
  "counted lane m m' \<longleftrightarrow>
     m_duration m' = inc lane (m_duration m) \<and> m_revocations m' = m_revocations m \<and>
     (if lane = ''sigv4'' then \<exists>l \<in> set sigv4_labels. m_sigv4_verifies m' = inc l (m_sigv4_verifies m)
      else m_sigv4_verifies m' = m_sigv4_verifies m) \<and>
     (if lane = ''presigned'' then \<exists>l \<in> set presigned_labels. m_presigned_verifies m' = inc l (m_presigned_verifies m)
      else m_presigned_verifies m' = m_presigned_verifies m)"

lemma proxy_serve_counters [simp]:
  "m_duration (ss_metrics (snd (proxy_serve sv r st))) = m_duration (ss_metrics st)"
  "m_revocations (ss_metrics (snd (proxy_serve sv r st))) = m_revocations (ss_metrics st)"
  "m_sigv4_verifies (ss_metrics (snd (proxy_serve sv r st))) = m_sigv4_verifies (ss_metrics st)"
  "m_presigned_verifies (ss_metrics (snd (proxy_serve sv r st))) = m_presigned_verifies (ss_metrics st)"
  by (simp_all add: proxy_serve_def on_metrics_def observeUpstream_def observeUpstreamError_def
      split: option.split upstream_result.split)

lemmas counter_simps = counted_def split_def observeDuration_def observeVerification_def Let_def

lemma serveBearer_counted:
  "counted ''bearer'' (ss_metrics st) (ss_metrics (snd (serveBearer sv clk r token reqID st)))"
  unfolding serveBearer_def by (simp add: counter_simps split: sum.split)

lemma serveUnauthenticated_counted:
  "counted ''unauthenticated'' (ss_metrics st) (ss_metrics (snd (serveUnauthenticated sv r reqID st)))"
  unfolding serveUnauthenticated_def by (simp add: counter_simps)

lemma sigv4Rejection_label: "fst (snd (sigv4Rejection t e)) \<in> set sigv4_labels"
  by (cases e) (simp_all add: sigv4Rejection_def sigv4_labels_def)

lemma presignedRejection_label: "fst (snd (presignedRejection t e)) \<in> set presigned_labels"
  by (cases e) (simp_all add: presignedRejection_def presigned_labels_def)

lemma serveSigV4_counted:
  "counted ''sigv4'' (ss_metrics st) (ss_metrics (snd (serveSigV4 sv clk r hdr reqID st)))"
proof -
  have "\<exists>l \<in> set sigv4_labels. m_sigv4_verifies (ss_metrics (snd (serveSigV4 sv clk r hdr reqID st))) =
      inc l (m_sigv4_verifies (ss_metrics st))"
    unfolding serveSigV4_def using label_members(1)
    by (auto simp: counter_simps split: sum.split option.split intro: sigv4Rejection_label)
  moreover have "m_duration (ss_metrics (snd (serveSigV4 sv clk r hdr reqID st))) = inc ''sigv4'' (m_duration (ss_metrics st))"
    "m_revocations (ss_metrics (snd (serveSigV4 sv clk r hdr reqID st))) = m_revocations (ss_metrics st)"
    "m_presigned_verifies (ss_metrics (snd (serveSigV4 sv clk r hdr reqID st))) = m_presigned_verifies (ss_metrics st)"
    unfolding serveSigV4_def by (simp_all add: counter_simps split: sum.split option.split)
  ultimately show ?thesis by (simp add: counted_def)
qed

lemma servePresigned_counted:
  "counted ''presigned'' (ss_metrics st) (ss_metrics (snd (servePresigned sv clk r reqID st)))"
proof -
  have "\<exists>l \<in> set presigned_labels. m_presigned_verifies (ss_metrics (snd (servePresigned sv clk r reqID st))) =
      inc l (m_presigned_verifies (ss_metrics st))"
    unfolding servePresigned_def using label_members(2)
    by (auto simp: counter_simps split: sum.split option.split intro: presignedRejection_label)
  moreover have "m_duration (ss_metrics (snd (servePresigned sv clk r reqID st))) = inc ''presigned'' (m_duration (ss_metrics st))"
    "m_revocations (ss_metrics (snd (servePresigned sv clk r reqID st))) = m_revocations (ss_metrics st)"
    "m_sigv4_verifies (ss_metrics (snd (servePresigned sv clk r reqID st))) = m_sigv4_verifies (ss_metrics st)"
    unfolding servePresigned_def by (simp_all add: counter_simps split: sum.split option.split)
  ultimately show ?thesis by (simp add: counted_def)
qed

lemma serve_counted:
  assumes "serve sv clk r st = (reply, st')"
  shows "\<exists>lane \<in> set lane_labels. counted lane (ss_metrics st) (ss_metrics st')"
proof -
  obtain reqID g where g: "server_newRequestID (ss_rand st) = (reqID, g)" by fastforce
  let ?st = "st\<lparr>ss_rand := g\<rparr>" and ?h = "req_get r ''Authorization''"
  show ?thesis
  proof (cases "isSTSRequest r")
    case True
    then have "counted ''sts'' (ss_metrics st) (ss_metrics (snd (serve sv clk r st)))"
      using g by (simp add: serve_def counter_simps)
    then show ?thesis using assms by (auto simp: lane_labels_def)
  next
    case False
    then have "st' \<in> {snd (serveBearer sv clk r (trim_prefix ''Bearer '' ?h) reqID ?st),
        snd (serveSigV4 sv clk r ?h reqID ?st), snd (servePresigned sv clk r reqID ?st),
        snd (serveUnauthenticated sv r reqID ?st)}"
      using assms g unfolding serve_def by (auto simp: Let_def split: if_splits)
    then show ?thesis
      using serveBearer_counted [of ?st sv clk r "trim_prefix ''Bearer '' ?h" reqID]
        serveSigV4_counted [of ?st sv clk r ?h reqID] servePresigned_counted [of ?st sv clk r reqID]
        serveUnauthenticated_counted [of ?st sv r reqID]
      by (auto simp: lane_labels_def)
  qed
qed

lemma handleRevoke_counted:
  "handleRevoke sv akid st = (resp, st') \<Longrightarrow>
   \<exists>l \<in> set revocation_labels. ss_metrics st' = (ss_metrics st)\<lparr>m_revocations := inc l (m_revocations (ss_metrics st))\<rparr>"
  by (auto simp: handleRevoke_def Let_def revocation_labels_def split: prod.splits sum.splits option.splits)

lemma readyz_counted: "readyz sv clk st = (resp, st') \<Longrightarrow> ss_metrics st' = ss_metrics st"
  by (auto simp: readyz_def split: prod.splits sum.splits)

fun is_served :: "event \<Rightarrow> bool" where
  "is_served (Served clk r reply) = True"
| "is_served _ = False"

fun is_revoked :: "event \<Rightarrow> bool" where
  "is_revoked (Revoked akid resp) = True"
| "is_revoked _ = False"

definition balanced :: "event list \<Rightarrow> metrics \<Rightarrow> bool" where
  "balanced evs m \<longleftrightarrow>
     tally lane_labels (m_duration m) = length (filter is_served evs) \<and>
     tally sigv4_labels (m_sigv4_verifies m) = m_duration m ''sigv4'' \<and>
     tally presigned_labels (m_presigned_verifies m) = m_duration m ''presigned'' \<and>
     tally revocation_labels (m_revocations m) = length (filter is_revoked evs)"

lemma balanced_counted:
  assumes "balanced evs m" "counted lane m m'" "lane \<in> set lane_labels"
  shows "balanced (evs @ [Served clk r reply]) m'"
proof -
  have "tally lane_labels (m_duration m') = tally lane_labels (m_duration m) + 1"
    using assms(2,3) tally_inc [OF labels_distinct(1)] by (simp add: counted_def)
  moreover have "tally sigv4_labels (m_sigv4_verifies m') = m_duration m' ''sigv4''"
    using assms(1,2) tally_inc [OF labels_distinct(2)] by (auto simp: counted_def balanced_def inc_def split: if_splits)
  moreover have "tally presigned_labels (m_presigned_verifies m') = m_duration m' ''presigned''"
    using assms(1,2) tally_inc [OF labels_distinct(3)] by (auto simp: counted_def balanced_def inc_def split: if_splits)
  ultimately show ?thesis using assms(1,2) by (simp add: balanced_def counted_def)
qed

lemma balanced_step:
  assumes "balanced evs (ss_metrics st)" "sys_step sv bg st e st'"
  shows "balanced (evs @ [e]) (ss_metrics st')"
  using assms(2)
proof cases
  case (request clk r reply)
  then show ?thesis using serve_counted [OF request(2)] balanced_counted [OF assms(1)] by blast
next
  case (revoke akid resp)
  then show ?thesis
    using handleRevoke_counted [OF revoke(2)] assms(1) tally_inc [OF labels_distinct(4)] by (auto simp: balanced_def)
next
  case (probe clk resp)
  then show ?thesis using readyz_counted [OF probe(2)] assms(1) by (simp add: balanced_def)
qed (use assms(1) in \<open>simp_all add: balanced_def\<close>)

text \<open>C21: the metrics add up. In every run of the proxy, on any store, the request histogram has as
  many observations as there were requests, each in one of the five lanes; the results counted
  in the header lane and in the presigned lane are as many as the requests of the lane; and
  every revocation is counted once.\<close>

theorem metrics_balanced:
  assumes "sys_run sv bg st0 evs st" "ss_metrics st0 = newMetrics"
  shows "balanced evs (ss_metrics st)"
  using assms
proof induction
  case start
  then show ?case by (simp add: balanced_def newMetrics_def tally_def)
qed (simp add: balanced_step)

theorem metrics_balanced_witness:
  "balanced [Served sample_clock bearer_request (fst (serve sample_server sample_clock bearer_request sample_state)),
       Revoked ''OZPX'' (fst (handleRevoke sample_server ''OZPX''
         (snd (serve sample_server sample_clock bearer_request sample_state))))]
     (ss_metrics (snd (handleRevoke sample_server ''OZPX''
       (snd (serve sample_server sample_clock bearer_request sample_state)))))"
proof -
  let ?s = "serve sample_server sample_clock bearer_request sample_state"
  let ?v = "handleRevoke sample_server ''OZPX'' (snd ?s)"
  have "sys_run sample_server memory_tick sample_state
      (([] @ [Served sample_clock bearer_request (fst ?s)]) @ [Revoked ''OZPX'' (fst ?v)]) (snd ?v)"
    by (rule sys_run.step [OF sys_run.step [OF sys_run.start sys_step.request] sys_step.revoke]) simp_all
  moreover have "ss_metrics sample_state = newMetrics" by (simp add: sample_state_def memory_state_def)
  ultimately show ?thesis using metrics_balanced by fastforce
qed

end
