(* ===== verification/Revocation.thy ===== *)
theory Revocation
  imports Samples
begin

text \<open>
  What revoking credentials over the admin surface (\<open>handleRevoke\<close>) means for later requests. The
  random source is a stream of bytes that is read once, so whether an exchange can mint a given
  access key ID again is a question about the rest of the stream.
\<close>

section \<open>The random source moves forward\<close>

definition later :: "rand_source \<Rightarrow> rand_source \<Rightarrow> bool" where
  "later g g' \<longleftrightarrow> rs_byte g' = rs_byte g \<and> rs_pos g \<le> rs_pos g'"

text \<open>The access key ID that minting draws at a position of the stream.\<close>

definition akid_at :: "rand_source \<Rightarrow> nat \<Rightarrow> string" where
  "akid_at g p = akidPrefix @ map (\<lambda>i. crockford32 ! (ord (rs_byte g (p + i)) mod length crockford32)) [0..<16]"

named_theorems later_intros

lemma later_refl [simp]: "later g g"
  by (simp add: later_def)

lemma later_trans: "later g g' \<Longrightarrow> later g' g'' \<Longrightarrow> later g g''"
  by (simp add: later_def)

lemma later_akid: "later g g' \<Longrightarrow> akid_at g' p = akid_at g p"
  by (simp add: later_def akid_at_def)

lemma rand_read_later [later_intros]: "rand_read n g = (b, g') \<Longrightarrow> later g g'"
  by (auto simp: rand_read_def later_def split: if_splits)

lemma randCrockford_later [later_intros]: "randCrockford n g = (b, g') \<Longrightarrow> later g g'"
  by (auto simp: randCrockford_def split: prod.splits option.splits intro: later_intros)

lemma randBase64URL_later [later_intros]: "randBase64URL n g = (b, g') \<Longrightarrow> later g g'"
  by (auto simp: randBase64URL_def split: prod.splits option.splits intro: later_intros)

lemma newRequestID_later [later_intros]: "newRequestID g = (b, g') \<Longrightarrow> later g g'"
  by (auto simp: newRequestID_def split: prod.splits option.splits intro: later_intros)

lemma server_newRequestID_later [later_intros]: "server_newRequestID g = (b, g') \<Longrightarrow> later g g'"
  by (auto simp: server_newRequestID_def split: prod.splits option.splits intro: later_intros)

lemma mint_later [later_intros]: "mint u i t g = (r, g') \<Longrightarrow> later g g'"
  unfolding mint_def
  by (auto split: prod.splits option.splits dest!: randCrockford_later randBase64URL_later elim: later_trans)

lemma mint_akid: "mint u i t g = (Inr c, g') \<Longrightarrow> cr_access_key_id c = akid_at g (rs_pos g)"
  by (auto simp: mint_def randCrockford_def rand_read_def akid_at_def split: prod.splits option.splits if_splits)

text \<open>An exchange puts at most one record, under an access key ID drawn from what is left of the
  stream.\<close>

lemma sts_serve_later:
  assumes "sts_serve quote impl validator cfg clk r w = (resp, res, w')"
  shows "later (sw_rand w) (sw_rand w') \<and> (sw_store w' = sw_store w \<or>
    (\<exists>token ident v creds g g' e. validator clk token (sw_validator w) = (Inr ident, v) \<and>
       mint (id_username ident) (id_issuer_name ident) (cr_expires_at creds) g = (Inr creds, g') \<and>
       later (sw_rand w) g \<and> st_put impl creds (sw_store w) = (e, sw_store w')))"
proof -
  obtain reqID g0 where i: "newRequestID (sw_rand w) = (reqID, g0)" by (cases "newRequestID (sw_rand w)")
  note l0 = newRequestID_later [OF i]
  show ?thesis
  proof (cases "sw_rand w' = g0 \<and> sw_store w' = sw_store w")
    case False
    with assms i obtain token roleArn sn requested ident v t res g where
      valid: "validator clk token (sw_validator w) = (Inr ident, v)"
      and mint: "mint (id_username ident) (id_issuer_name ident) t g0 = (res, g)" "sw_rand w' = g"
      and put: "case res of Inl _ \<Rightarrow> sw_store w' = sw_store w
        | Inr creds \<Rightarrow> \<exists>e. st_put impl creds (sw_store w) = (e, sw_store w')"
      unfolding sts_serve_def Let_def
      by (auto split: sum.splits prod.splits if_splits option.splits)
    have "later (sw_rand w) (sw_rand w')" using later_trans [OF l0 mint_later [OF mint(1)]] mint(2) by simp
    moreover have "cr_expires_at creds = t" if "res = Inr creds" for creds
      using mint(1) [unfolded that] by (rule mint_Inr)
    ultimately show ?thesis using valid mint(1) put l0 by (cases res) (simp, fastforce)
  qed (use l0 in simp)
qed

section \<open>What a request draws\<close>

lemma proxy_serve_rand [simp]: "ss_rand (snd (proxy_serve sv r st)) = ss_rand st"
  by (simp add: proxy_serve_def on_metrics_def split: option.split upstream_result.split)

lemma lanes_rand:
  "ss_rand (snd (serveBearer sv clk r token reqID st)) = ss_rand st"
  "ss_rand (snd (serveSigV4 sv clk r hdr reqID st)) = ss_rand st"
  "ss_rand (snd (servePresigned sv clk r reqID st)) = ss_rand st"
  "ss_rand (snd (serveUnauthenticated sv r reqID st)) = ss_rand st"
  unfolding serveBearer_def serveSigV4_def servePresigned_def serveUnauthenticated_def Let_def
  by (auto simp: split_def split: if_split sum.split option.split)

lemma serve_rand:
  assumes "serve sv clk r st = (reply, st')"
  shows "later (ss_rand st) (ss_rand st')"
proof -
  obtain reqID g where g: "server_newRequestID (ss_rand st) = (reqID, g)" by fastforce
  note l = server_newRequestID_later [OF g]
  show ?thesis
  proof (cases "isSTSRequest r")
    case True
    from serve_sts [OF True assms] obtain resp res w where
      x: "exchange sv clk r st = (resp, res, w)" "ss_rand st' = sw_rand w" by metis
    then have "later g (sw_rand w)" using sts_serve_later [OF x(1) [unfolded exchange_def]] g by simp
    then show ?thesis using later_trans [OF l] x(2) by simp
  next
    case False
    have "ss_rand (snd (serve sv clk r st)) = g" using False g by (simp add: serve_def Let_def lanes_rand)
    then show ?thesis using assms l by simp
  qed
qed

lemma handleRevoke_rand: "handleRevoke sv akid st = (resp, st') \<Longrightarrow> ss_rand st' = ss_rand st"
  by (auto simp: handleRevoke_def Let_def split: prod.splits sum.splits option.splits)

lemma readyz_rand: "readyz sv clk st = (resp, st') \<Longrightarrow> ss_rand st' = ss_rand st"
  by (auto simp: readyz_def split: prod.splits sum.splits)

lemma step_rand: "sys_step sv bg st e st' \<Longrightarrow> later (ss_rand st) (ss_rand st')"
  by (erule sys_stepE) (auto dest: serve_rand handleRevoke_rand readyz_rand)

section \<open>Absent records stay absent\<close>

context proxy_system
begin

lemma absent_shrink:
  "(\<And>c. abs s' k = Some c \<Longrightarrow> abs s k = Some c) \<Longrightarrow> abs s k = None \<Longrightarrow> abs s' k = None"
  by (cases "abs s' k") auto

lemma absent_exchange:
  assumes "good evs st" "isSTSRequest r" "serve sv clk r st = (reply, st')"
    and "abs (ss_store st) k = None" "\<forall>p \<ge> rs_pos (ss_rand st). akid_at (ss_rand st) p \<noteq> k"
  shows "abs (ss_store st') k = None"
proof -
  have g: "inv (ss_store st)" "vinv (ss_validator st)" using assms(1) by (simp_all add: good_def)
  from serve_sts [OF assms(2,3)] obtain resp res w where
    x: "exchange sv clk r st = (resp, res, w)" "ss_store st' = sw_store w" by metis
  have l: "later (ss_rand st) (snd (server_newRequestID (ss_rand st)))"
    by (rule server_newRequestID_later [OF prod.collapse [symmetric]])
  from sts_serve_later [OF x(1) [unfolded exchange_def]]
  consider "ss_store st' = ss_store st" | token ident v creds g0 g1 e where
      "sv_validate sv clk token (ss_validator st) = (Inr ident, v)"
      "mint (id_username ident) (id_issuer_name ident) (cr_expires_at creds) g0 = (Inr creds, g1)"
      "later (snd (server_newRequestID (ss_rand st))) g0" "st_put (sv_store sv) creds (ss_store st) = (e, ss_store st')"
    using x(2) by auto
  then show ?thesis
  proof cases
    case 2
    have later: "later (ss_rand st) g0" using later_trans [OF l 2(3)] .
    then have "cr_access_key_id creds \<noteq> k"
      using mint_akid [OF 2(2)] later_akid [OF later] assms(5) by (simp add: later_def)
    then show ?thesis
      using cred.put_origin [OF g(1) minted_storable [OF g(2) 2(1,2)] 2(4), of k] assms(4)
      by (cases "abs (ss_store st') k") auto
  qed (use assms(4) in simp)
qed

lemma absent_step:
  assumes "good evs st" "sys_step sv bg st e st'" "abs (ss_store st) k = None"
    and "\<forall>p \<ge> rs_pos (ss_rand st). akid_at (ss_rand st) p \<noteq> k"
  shows "abs (ss_store st') k = None"
  using assms(2)
proof cases
  case (request clk r reply)
  have g: "inv (ss_store st)" using assms(1) by (simp add: good_def)
  show ?thesis
  proof (cases "isSTSRequest r")
    case False
    from serve_state(1) [OF False request(2)] show ?thesis using get_state [OF g] assms(3) by auto
  qed (use absent_exchange [OF assms(1) _ request(2) assms(3,4)] in simp)
next
  case (revoke akid resp)
  have g: "inv (ss_store st)" using assms(1) by (simp add: good_def)
  obtain got s where s: "st_get (sv_store sv) akid (ss_store st) = (got, s)" by fastforce
  obtain x s2 where s2: "st_delete (sv_store sv) akid s = (x, s2)" by fastforce
  have f: "inv s" "abs s = abs (ss_store st)" using cred.get_frame [OF g s] by simp_all
  have "ss_store st' \<in> {s, s2}"
    using revoke(2) s s2 unfolding handleRevoke_def Let_def by (auto split: sum.splits option.splits)
  then show ?thesis using absent_shrink [of s2 k s] cred.delete_origin [OF f(1) s2, of k] f(2) assms(3) by auto
next
  case (probe clk resp)
  obtain n s where n: "st_count (sv_store sv) (clk At_count) (ss_store st) = (n, s)" by fastforce
  then have "ss_store st' = s" using probe(2) by (auto simp: readyz_def split: sum.splits)
  then show ?thesis using cred.count_frame [OF _ n] assms(1,3) by (simp add: good_def)
next
  case (scrape clk sample s)
  obtain n s' where n: "st_count (sv_store sv) (clk At_count) (ss_store st) = (n, s')" by fastforce
  then have "s = s'" using scrape(3) by (auto simp: collectStore_def split: sum.splits)
  then show ?thesis using cred.count_frame [OF _ n] scrape(2) assms(1,3) by (simp add: good_def)
next
  case (sweep now)
  then show ?thesis using bg_origin [of "ss_store st" now k] absent_shrink [of "ss_store st'" k "ss_store st"] assms(1,3) by (auto simp: good_def)
qed

lemma absent_run:
  assumes "sys_run sv bg st0 evs st" "good evs0 st0" "abs (ss_store st0) k = None"
    and "\<forall>p \<ge> rs_pos (ss_rand st0). akid_at (ss_rand st0) p \<noteq> k"
  shows "good (evs0 @ evs) st \<and> abs (ss_store st) k = None \<and> later (ss_rand st0) (ss_rand st)"
  using assms(1)
proof induction
  case start
  then show ?case using assms(2,3) by simp
next
  case (step evs st e st')
  then have fresh: "\<forall>p \<ge> rs_pos (ss_rand st). akid_at (ss_rand st) p \<noteq> k"
    using assms(4) later_akid [of "ss_rand st0" "ss_rand st"] by (auto simp: later_def)
  have "later (ss_rand st0) (ss_rand st')" using step.IH step_rand [OF step.hyps(2)] later_trans by blast
  moreover have "good (evs0 @ evs @ [e]) st'" using good_step [OF _ step.hyps(2), of "evs0 @ evs"] step.IH by simp
  moreover have "abs (ss_store st') k = None" using absent_step [OF _ step.hyps(2) _ fresh] step.IH by blast
  ultimately show ?case by blast
qed

lemma revoke_absent:
  assumes "good evs st" "handleRevoke sv akid st = (resp, st')" "rp_status resp = 204"
  shows "abs (ss_store st') akid = None"
proof -
  have g: "inv (ss_store st)" using assms(1) by (simp add: good_def)
  obtain got s where s: "st_get (sv_store sv) akid (ss_store st) = (got, s)" by fastforce
  obtain x s2 where s2: "st_delete (sv_store sv) akid s = (x, s2)" by fastforce
  have "inv s" using cred.get_frame [OF g s] by simp
  moreover have "x = None" "ss_store st' = s2"
    using assms(2,3) s s2 unfolding handleRevoke_def Let_def
    by (auto simp: http_error_def split: sum.splits option.splits)
  ultimately show ?thesis using cred.delete_ok [of s akid s2] s2 by simp
qed

end

section \<open>Requests with an absent access key ID\<close>

lemma serveSigV4_unknown:
  assumes "parseAuthorization hdr = Inr auth"
    "fst (st_get (sv_store sv) (au_access_key_id auth) (ss_store st)) = Inr None"
  shows "fst (serveSigV4 sv clk r hdr reqID st) =
    Answered (s3err_write 403 CodeInvalidAccessKeyID unknownKeyMessage (u_path (r_url r)) reqID)"
  using assms by (simp add: serveSigV4_def Let_def split_def)

lemma servePresigned_unknown:
  assumes "parsePresigned r = Inr auth"
    "fst (st_get (sv_store sv) (au_access_key_id auth) (ss_store st)) = Inr None"
  shows "fst (servePresigned sv clk r reqID st) =
    Answered (s3err_write 403 CodeInvalidAccessKeyID unknownKeyMessage (u_path (r_url r)) reqID)"
  using assms by (simp add: servePresigned_def Let_def split_def)

text \<open>A request that presents an access key ID, in its header or in its query.\<close>

definition presents :: "request \<Rightarrow> string \<Rightarrow> bool" where
  "presents r akid \<longleftrightarrow> \<not> isSTSRequest r \<and>
     (let h = req_get r ''Authorization'' in
      if isSigV4 h then (case parseAuthorization h of Inr auth \<Rightarrow> au_access_key_id auth = akid | Inl _ \<Rightarrow> False)
      else h = [] \<and> isPresigned r \<and>
        (case parsePresigned r of Inr auth \<Rightarrow> au_access_key_id auth = akid | Inl _ \<Rightarrow> False))"

lemma serve_unknown:
  assumes "presents r akid" "\<And>g. fst (st_get (sv_store sv) akid (ss_store (st\<lparr>ss_rand := g\<rparr>))) = Inr None"
  shows "\<exists>reqID. fst (serve sv clk r st) =
    Answered (s3err_write 403 CodeInvalidAccessKeyID unknownKeyMessage (u_path (r_url r)) reqID)"
proof -
  obtain reqID g where g: "server_newRequestID (ss_rand st) = (reqID, g)" by fastforce
  have nb: "\<not> has_prefix ''Bearer '' h" if "isSigV4 h" for h
    using that by (cases h) (auto simp: isSigV4_def has_prefix_def Algorithm_def)
  have nb0: "\<not> has_prefix ''Bearer '' []" "\<not> isSigV4 []" by code_simp+
  show ?thesis
    using assms g nb nb0
    by (auto simp: presents_def serve_def Let_def serveSigV4_unknown servePresigned_unknown split: if_splits sum.splits)
qed


text \<open>Credentials are minted, revoked, others are minted, and the first are used.\<close>

definition once_rand :: rand_source where
  "once_rand = \<lparr>rs_byte = (\<lambda>i. if i < 100 then char_of i else CHR 0x00), rs_fails = (\<lambda>_. False), rs_pos = 0, rs_reads = 0\<rparr>"

definition fresh_state :: "(memory, unit validator) state" where
  "fresh_state = memory_state sample_cfg () once_rand"

definition minted_state :: "(memory, unit validator) state" where
  "minted_state = snd (serve sample_server sample_clock sts_request fresh_state)"

definition revoked_state :: "(memory, unit validator) state" where
  "revoked_state = snd (handleRevoke sample_server ''OZPXWXYZ0123456789AB'' minted_state)"

definition reminted_state :: "(memory, unit validator) state" where
  "reminted_state = snd (serve sample_server sample_clock sts_request revoked_state)"

definition revoked_request :: request where
  "revoked_request = bearer_request\<lparr>r_header := [(''Authorization'',
     [authHeader ''OZPXWXYZ0123456789AB'' ''20231114'' ''us-east-1'' ''s3'' ''host;x-amz-date'' junkSignature])]\<rparr>"

lemma mint_pos: "mint u i t g = (Inr c, g') \<Longrightarrow> rs_pos g' = rs_pos g + 78"
  by (auto simp: mint_def randCrockford_def randBase64URL_def rand_read_def split: prod.splits option.splits if_splits)

lemma once_ids:
  "snd (server_newRequestID once_rand) = once_rand\<lparr>rs_pos := 12, rs_reads := 1\<rparr>"
  "snd (newRequestID (once_rand\<lparr>rs_pos := 12, rs_reads := 1\<rparr>)) = once_rand\<lparr>rs_pos := 28, rs_reads := 2\<rparr>"
  by (simp_all add: server_newRequestID_def newRequestID_def rand_read_def once_rand_def)

lemma sample_exchange:
  "\<exists>resp res w. exchange sample_server sample_clock sts_request fresh_state = (resp, res, w) \<and> sr_code res = []"
proof -
  have params: "exchange_params sample_quote [] sts_request = Inr (''jwt-alice'', ''arn:x'', ''web-identity'', 900)" by code_simp
  have body: "limit_body maxSTSBodyBytes sts_request = sts_request"
    by (simp add: limit_body_def maxSTSBodyBytes_def sts_request_def)
  obtain ident v where i: "Validate sample_jose sample_clock ''jwt-alice'' (newValidator sample_cfg ()) = (Inr ident, v)"
    using sample_validate by (auto simp: sample_state_def memory_state_def)
  have "map_sum id id_expiry (fst (Validate sample_jose sample_clock ''jwt-alice'' (newValidator sample_cfg ())))
      = Inr 1700001000000000000" by code_simp
  then have "id_expiry ident = 1700001000000000000" using i by simp
  moreover have "0 < effectiveTTL 3600 900 1700001000000000000 (sample_clock At_exchange)" by code_simp
  moreover have "\<exists>s. st_put memory_impl c (newMemory []) = (None, s)" for c
    by (simp add: memory_impl_def memory_put_def)
  ultimately show ?thesis
    using params i unfolding exchange_def body
    by (intro sts_serve_ok)
      (simp_all add: sample_server_def sample_cfg_def fresh_state_def memory_state_def memory_server_def once_ids,
        simp_all add: once_rand_def)
qed

lemma minted_facts:
  "memory_abs (ss_store minted_state) ''OZPXWXYZ0123456789AB'' \<noteq> None" "rs_pos (ss_rand minted_state) = 106"
proof -
  from sample_exchange obtain resp res w where
    x: "exchange sample_server sample_clock sts_request fresh_state = (resp, res, w)" "sr_code res = []" by blast
  have "minted_state = snd (serve sample_server sample_clock sts_request fresh_state)" by (fact minted_state_def)
  then obtain reply where s: "serve sample_server sample_clock sts_request fresh_state = (reply, minted_state)"
    by (cases "serve sample_server sample_clock sts_request fresh_state") simp
  obtain w' where "exchange sample_server sample_clock sts_request fresh_state = (resp, res, w')"
    "ss_store minted_state = sw_store w'" "ss_rand minted_state = sw_rand w'"
    by (rule serve_sts [OF sample_sts s]) (simp add: x)
  then have st: "ss_store minted_state = sw_store w" "ss_rand minted_state = sw_rand w" using x(1) by simp_all
  obtain u i t creds reqID g0 where
    id: "newRequestID (once_rand\<lparr>rs_pos := 12, rs_reads := 1\<rparr>) = (reqID, g0)"
    and mint: "mint u i t g0 = (Inr creds, sw_rand w)"
    and put: "st_put memory_impl creds (ss_store fresh_state) = (None, sw_store w)"
    by (rule sts_serve_success [OF x(1) [unfolded exchange_def] x(2)])
      (simp add: sample_server_def fresh_state_def memory_state_def once_ids)
  have g0: "g0 = once_rand\<lparr>rs_pos := 28, rs_reads := 2\<rparr>" using id once_ids(2) by simp
  have "akid_at (once_rand\<lparr>rs_pos := 28, rs_reads := 2\<rparr>) 28 = ''OZPXWXYZ0123456789AB''"
    by (simp add: akid_at_def once_rand_def akidPrefix_def crockford32_def upt_rec)
  then have "cr_access_key_id creds = ''OZPXWXYZ0123456789AB''" using mint_akid [OF mint] g0 by simp
  then show "memory_abs (ss_store minted_state) ''OZPXWXYZ0123456789AB'' \<noteq> None"
    using put [symmetric] st(1) by (auto simp: memory_impl_def memory_put_def memory_abs_def update_conv')
  show "rs_pos (ss_rand minted_state) = 106" using mint_pos [OF mint] g0 st(2) by simp
qed

lemma serve_run: "sys_run sv bg st [Served clk r (fst (serve sv clk r st))] (snd (serve sv clk r st))"
  using sys_run.step [OF sys_run.start sys_step.request [OF prod.collapse [symmetric]]] by fastforce

lemma fresh_start:
  "start_memory sample_cfg sample_jose sample_up sample_quote sample_errtext () once_rand = Some (sample_server, fresh_state)"
proof -
  have "url_parse (uc_s3_endpoint (cf_upstream sample_cfg)) = Some sample_target" by code_simp
  then show ?thesis by (simp add: start_memory_Some sample_server_def fresh_state_def)
qed


end
