(* ===== verification/Go_Path.thy ===== *)
theory Go_Path
  imports Go_Strings
begin

text \<open>Package \<open>path/filepath\<close> on Unix, as far as the commands use it.\<close>

text \<open>\<open>filepath.Clean\<close> and \<open>filepath.Join\<close> on Unix: empty and dot elements vanish, a parent
  element removes the element before it and is dropped at the root.\<close>

fun clean_elements :: "bool \<Rightarrow> string list \<Rightarrow> string list \<Rightarrow> string list" where
  "clean_elements rooted [] out = rev out"
| "clean_elements rooted (e # es) out =
     (if e = [] \<or> e = ''.'' then clean_elements rooted es out
      else if e = ''..'' then
        (case out of
           [] \<Rightarrow> clean_elements rooted es (if rooted then [] else [e])
         | x # xs \<Rightarrow> clean_elements rooted es (if x = ''..'' then e # out else xs))
      else clean_elements rooted es (e # out))"

definition path_clean :: "string \<Rightarrow> string" where
  "path_clean p =
     (let rooted = has_prefix ''/'' p; es = clean_elements rooted (split_on (CHR ''/'') p) []
      in if rooted then CHR ''/'' # join ''/'' es else if es = [] then ''.'' else join ''/'' es)"

definition path_join :: "string list \<Rightarrow> string" where
  "path_join es =
     (let xs = filter (\<lambda>e. e \<noteq> []) es in if xs = [] then [] else path_clean (join ''/'' xs))"

end
