(* ===== verification/Go_Mux.thy ===== *)
theory Go_Mux
  imports Go_Xml Go_Path
begin

text \<open>
  \<open>http.ServeMux\<close> for the patterns that the programs register: paths of literal segments and
  wildcards for one segment, with or without a method, and the pattern \<open>/\<close> for all other paths.
  Where several of these patterns match, the mux prefers the more specific one; the patterns
  of a program overlap only with \<open>/\<close>, so the first that matches is taken here.
\<close>

datatype segment = Lit string | Wild

datatype 'h route = Route "string option" "segment list" 'h

record 'h mux =
  mx_routes :: "'h route list"
  mx_root :: "'h option"

section \<open>Paths\<close>

text \<open>\<open>cleanPath\<close> keeps a trailing slash.\<close>

definition clean_path :: "string \<Rightarrow> string" where
  "clean_path p =
     (let p' = (if has_prefix ''/'' p then p else CHR ''/'' # p); np = path_clean p'
      in if last p' = CHR ''/'' \<and> np \<noteq> ''/'' then np @ ''/'' else np)"

text \<open>The segments of an escaped path. A trailing slash is a segment of its own; the others are
  unescaped, or left as they are when that fails.\<close>

definition segment_text :: "string \<Rightarrow> string" where
  "segment_text s = (case path_unescape s of Some t \<Rightarrow> t | None \<Rightarrow> s)"

definition path_segments :: "string \<Rightarrow> string list" where
  "path_segments p =
     (let ss = split_on (CHR ''/'') (drop 1 p) in map segment_text (butlast ss) @ [if last ss = [] then ''/'' else segment_text (last ss)])"

text \<open>The values of the wildcards.\<close>

fun match_segments :: "segment list \<Rightarrow> string list \<Rightarrow> string list option" where
  "match_segments [] [] = Some []"
| "match_segments (Lit l # ps) (s # ss) = (if s = l then match_segments ps ss else None)"
| "match_segments (Wild # ps) (s # ss) = (if s \<noteq> ''/'' then map_option ((#) s) (match_segments ps ss) else None)"
| "match_segments _ _ = None"

definition match_path :: "segment list \<Rightarrow> string \<Rightarrow> string list option" where
  "match_path ps p = (if p = [] then None else match_segments ps (path_segments p))"

section \<open>Routing\<close>

datatype 'h target =
    Handle 'h "string list"
  | RedirectTo string
  | MethodNotAllowed "string list"
  | NotRouted
  | BadTarget

text \<open>A pattern for \<open>GET\<close> takes \<open>HEAD\<close> as well.\<close>

definition method_matches :: "string option \<Rightarrow> string \<Rightarrow> bool" where
  "method_matches pm m \<longleftrightarrow> pm = None \<or> pm = Some m \<or> pm = Some ''GET'' \<and> m = ''HEAD''"

fun find_route :: "'h route list \<Rightarrow> string \<Rightarrow> string \<Rightarrow> ('h \<times> string list) option" where
  "find_route [] m p = None"
| "find_route (Route pm ps h # rs) m p =
     (case match_path ps p of
        Some vs \<Rightarrow> if method_matches pm m then Some (h, vs) else find_route rs m p
      | None \<Rightarrow> find_route rs m p)"

text \<open>\<open>matchingMethods\<close>, for the field \<open>Allow\<close>; the path is tried with a trailing slash too.\<close>

definition route_methods :: "string \<Rightarrow> 'h route \<Rightarrow> string list" where
  "route_methods p r = (case r of Route pm ps h \<Rightarrow>
     if match_path ps p \<noteq> None \<or> \<not> has_suffix ''/'' p \<and> match_path ps (p @ ''/'') \<noteq> None
     then (case pm of None \<Rightarrow> [] | Some m \<Rightarrow> if m = ''GET'' then [m, ''HEAD''] else [m]) else [])"

definition allowed_methods :: "'h route list \<Rightarrow> string \<Rightarrow> string list" where
  "allowed_methods rs p = sort (remdups (concat (map (route_methods p) rs)))"

text \<open>\<open>findHandler\<close>. The paths of \<open>CONNECT\<close> requests are not cleaned.\<close>

definition route_path :: "'h mux \<Rightarrow> request \<Rightarrow> string" where
  "route_path mx r =
     (let p = escaped_path (r_url r) in
      if r_method r = ''CONNECT'' then if p = [] \<and> mx_root mx \<noteq> None then ''/'' else p else clean_path p)"

definition location :: "string \<Rightarrow> string \<Rightarrow> string" where
  "location p q = escape_path p @ (if q \<noteq> [] then CHR ''?'' # q else [])"

definition mux_route :: "'h mux \<Rightarrow> request \<Rightarrow> 'h target" where
  "mux_route mx r =
     (let p = escaped_path (r_url r) in
      if r_request_uri r = ''*'' then BadTarget
      else if route_path mx r \<noteq> p then RedirectTo (location (route_path mx r) (u_raw_query (r_url r)))
      else case find_route (mx_routes mx) (r_method r) p of
        Some (h, vs) \<Rightarrow> Handle h vs
      | None \<Rightarrow>
          (case mx_root mx of
             Some h \<Rightarrow> if p = [] then NotRouted else Handle h []
           | None \<Rightarrow> if allowed_methods (mx_routes mx) p \<noteq> [] then MethodNotAllowed (allowed_methods (mx_routes mx) p) else NotRouted))"

section \<open>Answers of the mux\<close>

definition html_quote :: "char \<Rightarrow> string" where
  "html_quote c =
     (if c = CHR ''&'' then ''&amp;'' else if c = CHR ''<'' then ''&lt;'' else if c = CHR ''>'' then ''&gt;''
      else if ord c = 34 then ''&#34;'' else if ord c = 39 then ''&#39;'' else [c])"

definition hex_escape_non_ascii :: "string \<Rightarrow> string" where
  "hex_escape_non_ascii s = concat (map (\<lambda>c. if ord c < 128 then [c] else CHR ''%'' # hex_encode [c]) s)"

text \<open>\<open>http.Redirect\<close> with status 301.\<close>

definition redirect :: "request \<Rightarrow> string \<Rightarrow> response" where
  "redirect r loc =
     \<lparr>rp_status = 301,
      rp_header = header_set (if r_method r \<in> {''GET'', ''HEAD''} then header_set [] ''Content-Type'' ''text/html; charset=utf-8'' else [])
        ''Location'' (hex_escape_non_ascii loc),
      rp_body = (if r_method r = ''GET'' then
        ''<a href='' @ [CHR 34] @ concat (map html_quote loc) @ [CHR 34] @ ''>Moved Permanently</a>.'' @ [CHR 0x0A, CHR 0x0A] else [])\<rparr>"

text \<open>The response when no handler is called. The field \<open>Connection\<close> is set for HTTP/1.1 and later.\<close>

definition mux_refusal :: "request \<Rightarrow> 'h target \<Rightarrow> response" where
  "mux_refusal r t =
     (case t of
        RedirectTo loc \<Rightarrow> redirect r loc
      | MethodNotAllowed ms \<Rightarrow>
          (let e = http_error ''Method Not Allowed'' 405 in e\<lparr>rp_header := header_set (rp_header e) ''Allow'' (join '', '' ms)\<rparr>)
      | BadTarget \<Rightarrow> \<lparr>rp_status = 400, rp_header = header_set [] ''Connection'' ''close'', rp_body = []\<rparr>
      | _ \<Rightarrow> http_error ''404 page not found'' 404)"

section \<open>Facts\<close>

text \<open>A path of plain segments is its own escaped and cleaned form.\<close>

definition plain_segment :: "string \<Rightarrow> bool" where
  "plain_segment s \<longleftrightarrow> s \<notin> {[], ''.'', ''..''} \<and> list_all unreserved s"

lemma unreserved_excludes: "unreserved c \<Longrightarrow> c \<noteq> CHR ''/'' \<and> c \<noteq> CHR ''%'' \<and> c \<noteq> CHR ''+''"
  by (auto simp: unreserved_def char_class_defs)

lemma plain_segment_excludes:
  assumes "plain_segment s"
  shows "CHR ''/'' \<notin> set s" "CHR ''%'' \<notin> set s" "CHR ''+'' \<notin> set s" "s \<noteq> []"
  using assms unreserved_excludes by (auto simp: plain_segment_def list_all_iff)

lemma alnum_plain_segment: "s \<noteq> [] \<Longrightarrow> list_all is_alnum s \<Longrightarrow> plain_segment s"
  by (auto simp: plain_segment_def list_all_iff unreserved_def char_class_defs)

lemma clean_elements_plain:
  "\<forall>e \<in> set es. e \<notin> {[], ''.'', ''..''} \<Longrightarrow> clean_elements b es out = rev out @ es"
  by (induction es arbitrary: out) auto

lemma last_join:
  "xs \<noteq> [] \<Longrightarrow> last xs \<noteq> [] \<Longrightarrow> join sep xs \<noteq> [] \<and> last (join sep xs) = last (last xs)"
proof (induction xs)
  case (Cons x xs)
  then show ?case by (cases "xs = []") (auto simp: join_Cons)
qed simp

locale plain_path =
  fixes ss :: "string list" and p :: string
  assumes segments: "ss \<noteq> []" "\<forall>s \<in> set ss. plain_segment s" and p_def: "p = CHR ''/'' # join ''/'' ss"
begin

lemma split: "split_on (CHR ''/'') (join ''/'' ss) = ss"
  using segments plain_segment_excludes(1) by (intro split_on_join) auto

lemma join_chars: "c \<in> set (join ''/'' ss) \<Longrightarrow> c = CHR ''/'' \<or> unreserved c"
  using set_join [of "''/''" ss] segments(2) by (auto simp: plain_segment_def list_all_iff)

lemma escape_id: "escape_path p = p"
proof -
  have "escape_path s = s" if "\<forall>c \<in> set s. \<not> escape_in_path c" for s
    using that by (induction s) (auto simp: escape_path_def)
  moreover have "\<forall>c \<in> set p. \<not> escape_in_path c" using join_chars by (auto simp: p_def escape_in_path_def)
  ultimately show ?thesis by blast
qed

lemma clean_id: "clean_path p = p"
proof -
  have "path_clean p = p"
    using clean_elements_plain [of ss True "[]"] segments(2) split
    by (auto simp: path_clean_def p_def has_prefix_def plain_segment_def Let_def)
  moreover have "last p \<noteq> CHR ''/''"
  proof -
    have l: "last ss \<in> set ss" using segments(1) by simp
    then have n: "plain_segment (last ss)" using segments(2) by blast
    then have "last (join ''/'' ss) = last (last ss)" "join ''/'' ss \<noteq> []"
      using last_join [OF segments(1)] plain_segment_excludes(4) by blast+
    moreover have "last (last ss) \<noteq> CHR ''/''" using plain_segment_excludes(1,4) [OF n] last_in_set by metis
    ultimately show ?thesis by (simp add: p_def)
  qed
  ultimately show ?thesis by (simp add: clean_path_def p_def has_prefix_def Let_def)
qed

lemma segments_of: "path_segments p = ss"
proof -
  have t: "segment_text s = s" "s \<noteq> []" if "s \<in> set ss" for s
    using segments(2) that plain_segment_excludes [of s] url_unescape_plain [of s False] by (auto simp: segment_text_def)
  have "map segment_text (butlast ss) = butlast ss" using t(1) in_set_butlastD by (metis map_idI)
  then show ?thesis
    using split t(1) [of "last ss"] t(2) [of "last ss"] segments(1) by (simp add: path_segments_def p_def)
qed

text \<open>Such a path is routed by its segments.\<close>

lemma routed:
  assumes "u_path (r_url r) = p" "u_raw_path (r_url r) = []" "r_request_uri r \<noteq> ''*''"
    and "find_route (mx_routes mx) (r_method r) p = Some (h, vs)"
  shows "mux_route mx r = Handle h vs"
proof -
  have "escaped_path (r_url r) = p" using assms(1,2) escape_id by (auto simp: escaped_path_def p_def)
  moreover from this have "route_path mx r = p" using clean_id by (simp add: route_path_def p_def Let_def)
  ultimately show ?thesis using assms(3,4) by (simp add: mux_route_def)
qed

lemma match_path_segments: "match_path ps p = match_segments ps ss"
  by (simp add: match_path_def segments_of) (simp add: p_def)

end

text \<open>A handler is called only for a path that its pattern matches.\<close>

lemma find_route_Some:
  "find_route rs m p = Some (h, vs) \<Longrightarrow>
   \<exists>pm ps. Route pm ps h \<in> set rs \<and> match_path ps p = Some vs \<and> method_matches pm m"
proof (induction rs m p rule: find_route.induct)
  case (2 pm ps h' rs m p)
  show ?case
  proof (cases "match_path ps p \<noteq> None \<and> method_matches pm m")
    case True
    then have "h' = h" "match_path ps p = Some vs" using "2.prems" by auto
    then show ?thesis using True by auto
  next
    case False
    then have "find_route rs m p = Some (h, vs)" using "2.prems" by (auto split: option.splits if_splits)
    then show ?thesis using "2.IH" False by (cases "match_path ps p") fastforce+
  qed
qed simp

lemma mux_route_Handle:
  assumes "mux_route mx r = Handle h vs" "mx_root mx = None"
  shows "\<exists>pm ps. Route pm ps h \<in> set (mx_routes mx) \<and> match_path ps (escaped_path (r_url r)) = Some vs \<and>
    method_matches pm (r_method r)"
  using assms by (auto simp: mux_route_def Let_def split: if_splits option.splits dest!: find_route_Some)

end
