(* ===== verification/Admin.thy ===== *)
theory Admin
  imports Revocation Go_Mux
begin

text \<open>
  The admin surface, \<open>AdminHandler\<close> of \<open>server.go\<close>: what its mux routes and what its handlers do to
  the proxy. The rendering of the metrics page is the parameter \<open>render\<close> of the Prometheus library,
  over the counters and the sample of the store.
\<close>

datatype admin_route = Healthz | Readyz | MetricsPage | Credentials

definition admin_mux :: "admin_route mux" where
  "admin_mux = \<lparr>mx_routes =
     [Route None [Lit ''healthz''] Healthz, Route None [Lit ''readyz''] Readyz, Route None [Lit ''metrics''] MetricsPage,
      Route (Some ''DELETE'') [Lit ''credentials'', Wild] Credentials], mx_root = None\<rparr>"

definition admin_call ::
  "('s, 'v) server \<Rightarrow> (request \<Rightarrow> metrics \<Rightarrow> nat \<times> nat option \<Rightarrow> response) \<Rightarrow> clock \<Rightarrow> request \<Rightarrow>
   admin_route \<Rightarrow> string list \<Rightarrow> ('s, 'v) state \<Rightarrow> response \<times> ('s, 'v) state" where
  "admin_call sv render clk r h vs st =
     (case h of
        Healthz \<Rightarrow> (healthz, st)
      | Readyz \<Rightarrow> readyz sv clk st
      | MetricsPage \<Rightarrow>
          (case collectStore (sv_store sv) clk (ss_store st) of (sample, s) \<Rightarrow>
             (render r (ss_metrics st) sample, st\<lparr>ss_store := s\<rparr>))
      | Credentials \<Rightarrow> handleRevoke sv (hd vs) st)"

definition AdminHandler ::
  "('s, 'v) server \<Rightarrow> (request \<Rightarrow> metrics \<Rightarrow> nat \<times> nat option \<Rightarrow> response) \<Rightarrow> clock \<Rightarrow> request \<Rightarrow>
   ('s, 'v) state \<Rightarrow> response \<times> ('s, 'v) state" where
  "AdminHandler sv render clk r st =
     (case mux_route admin_mux r of
        Handle h vs \<Rightarrow> admin_call sv render clk r h vs st
      | t \<Rightarrow> (mux_refusal r t, st))"

section \<open>Facts\<close>

text \<open>The request line of a revocation, whatever the escaping of its path.\<close>

definition revokes :: "request \<Rightarrow> string \<Rightarrow> bool" where
  "revokes r akid \<longleftrightarrow> r_method r = ''DELETE'' \<and> path_segments (escaped_path (r_url r)) = [''credentials'', akid]"

lemma match_segments_credentials:
  "match_segments [Lit ''credentials'', Wild] ss = Some vs \<Longrightarrow> \<exists>akid. ss = [''credentials'', akid] \<and> vs = [akid]"
  by (cases ss; cases "tl ss"; cases "tl (tl ss)") (auto split: if_splits)

lemma admin_route_credentials:
  assumes "mux_route admin_mux r = Handle Credentials vs"
  shows "revokes r (hd vs)"
proof -
  have "match_path [Lit ''credentials'', Wild] (escaped_path (r_url r)) = Some vs" "r_method r = ''DELETE''"
    using mux_route_Handle [OF assms] by (auto simp: admin_mux_def method_matches_def)
  then show ?thesis using match_segments_credentials by (fastforce simp: match_path_def revokes_def split: if_splits)
qed

text \<open>A request to the admin surface is a step of the system or leaves it as it is.\<close>

lemma admin_step:
  assumes "AdminHandler sv render clk r st = (resp, st')"
  shows "st' = st \<or> (\<exists>e. sys_step sv bg st e st' \<and>
    ((\<exists>x. e = Probed clk x) \<or> (\<exists>x. e = Scraped clk x) \<or> (\<exists>akid. e = Revoked akid resp \<and> revokes r akid)))"
proof (cases "mux_route admin_mux r")
  case (Handle h vs)
  have call: "admin_call sv render clk r h vs st = (resp, st')" using assms Handle by (simp add: AdminHandler_def)
  show ?thesis
  proof (cases h)
    case Readyz
    then have "sys_step sv bg st (Probed clk resp) st'" using call by (intro sys_step.probe) (simp add: admin_call_def)
    then show ?thesis by blast
  next
    case MetricsPage
    obtain sample s where c: "collectStore (sv_store sv) clk (ss_store st) = (sample, s)" by fastforce
    have "sys_step sv bg st (Scraped clk sample) st'"
      using sys_step.scrape [OF c, of bg] call MetricsPage c by (simp add: admin_call_def)
    then show ?thesis by blast
  next
    case Credentials
    then have "sys_step sv bg st (Revoked (hd vs) resp) st'" using call by (intro sys_step.revoke) (simp add: admin_call_def)
    then show ?thesis using admin_route_credentials [of r vs] Handle Credentials by blast
  qed (use call in \<open>simp add: admin_call_def\<close>)
qed (use assms in \<open>simp_all add: AdminHandler_def\<close>)

text \<open>A plain access key ID is routed to its revocation.\<close>

lemma admin_revoke_routed:
  assumes "plain_segment akid" "r_method r = ''DELETE''" "u_path (r_url r) = ''/credentials/'' @ akid"
    and "u_raw_path (r_url r) = []" "r_request_uri r \<noteq> ''*''"
  shows "AdminHandler sv render clk r st = handleRevoke sv akid st"
proof -
  obtain p where p: "p = ''/credentials/'' @ akid" by blast
  have "plain_segment ''credentials''" by code_simp
  then have pp: "plain_path [''credentials'', akid] p" using assms(1) p by unfold_locales simp_all
  have "akid \<noteq> ''/''" using plain_segment_excludes(1) [OF assms(1)] by auto
  then have "find_route (mx_routes admin_mux) (r_method r) p = Some (Credentials, [akid])"
    using assms(2) by (simp add: admin_mux_def plain_path.match_path_segments [OF pp] method_matches_def)
  from plain_path.routed [OF pp assms(3) [folded p] assms(4,5) this] show ?thesis
    by (simp add: AdminHandler_def admin_call_def)
qed

text \<open>The probes and the metrics page are found under their paths.\<close>

interpretation healthz_path: plain_path "[''healthz'']" "''/healthz''"
  by unfold_locales (simp, code_simp, simp)

interpretation readyz_path: plain_path "[''readyz'']" "''/readyz''"
  by unfold_locales (simp, code_simp, simp)

interpretation metrics_path: plain_path "[''metrics'']" "''/metrics''"
  by unfold_locales (simp, code_simp, simp)

lemma admin_probes_routed:
  assumes "u_raw_path (r_url r) = []" "r_request_uri r \<noteq> ''*''"
  shows "u_path (r_url r) = ''/healthz'' \<Longrightarrow> AdminHandler sv render clk r st = (healthz, st)"
    and "u_path (r_url r) = ''/readyz'' \<Longrightarrow> AdminHandler sv render clk r st = readyz sv clk st"
    and "u_path (r_url r) = ''/metrics'' \<Longrightarrow> AdminHandler sv render clk r st =
      (case collectStore (sv_store sv) clk (ss_store st) of (sample, s) \<Rightarrow> (render r (ss_metrics st) sample, st\<lparr>ss_store := s\<rparr>))"
  using healthz_path.routed [OF _ assms, of admin_mux Healthz "[]"] readyz_path.routed [OF _ assms, of admin_mux Readyz "[]"]
    metrics_path.routed [OF _ assms, of admin_mux MetricsPage "[]"]
  by (simp_all add: AdminHandler_def admin_call_def admin_mux_def method_matches_def
      healthz_path.match_path_segments readyz_path.match_path_segments metrics_path.match_path_segments)

context proxy_system
begin

text \<open>What a revocation does to the records.\<close>

lemma revoke_records:
  assumes "inv (ss_store st)" "handleRevoke sv akid st = (resp, st')"
  shows "(abs (ss_store st') = abs (ss_store st) \<or> abs (ss_store st') = (abs (ss_store st))(akid := None)) \<and>
    (rp_status resp = 204 \<longrightarrow> abs (ss_store st) akid \<noteq> None \<and> abs (ss_store st') = (abs (ss_store st))(akid := None))"
proof -
  obtain got s where s: "st_get (sv_store sv) akid (ss_store st) = (got, s)" by fastforce
  obtain x s2 where s2: "st_delete (sv_store sv) akid s = (x, s2)" by fastforce
  have f: "inv s" "abs s = abs (ss_store st)" using cred.get_frame [OF assms(1) s] by simp_all
  have del: "abs s2 \<in> {abs s, (abs s)(akid := None)}" "x = None \<Longrightarrow> abs s2 = (abs s)(akid := None)"
    using cred.delete_ok [OF f(1), of akid s2] cred.delete_error [OF f(1), of akid _ s2] s2 by (cases x; auto)+
  have "got = Inr r \<Longrightarrow> r = abs (ss_store st) akid" for r using cred.get_ok [OF assms(1)] s by blast
  then show ?thesis
    using assms(2) s s2 del f(2) unfolding handleRevoke_def Let_def
    by (auto simp: http_error_def split: sum.splits option.splits)
qed

lemma admin_records:
  assumes "good evs st" "AdminHandler sv render clk r st = (resp, st')" "abs (ss_store st') k \<noteq> abs (ss_store st) k"
  shows "revokes r k \<and> abs (ss_store st') = (abs (ss_store st))(k := None)"
proof -
  have inv: "inv (ss_store st)" using assms(1) by (simp add: good_def)
  obtain e where e: "sys_step sv bg st e st'"
    "(\<exists>x. e = Probed clk x) \<or> (\<exists>x. e = event.Scraped clk x) \<or> (\<exists>akid. e = Revoked akid resp \<and> revokes r akid)"
    using admin_step [OF assms(2), of bg] assms(3) by auto
  have count: "abs s = abs (ss_store st)" if "st_count (sv_store sv) t (ss_store st) = (n, s)" for t n s
    using cred.count_frame [OF inv that] by simp
  from e(1) show ?thesis
  proof cases
    case (revoke akid resp')
    then have "revokes r akid" using e(2) by auto
    moreover have "k = akid \<and> abs (ss_store st') = (abs (ss_store st))(akid := None)"
      using revoke_records [OF inv revoke(2)] assms(3) by (auto split: if_splits)
    ultimately show ?thesis by simp
  next
    case (probe clk' x)
    then show ?thesis using assms(3) count by (auto simp: readyz_def split: prod.splits sum.splits)
  next
    case (scrape clk' x s)
    then show ?thesis using assms(3) count by (auto simp: collectStore_def split: prod.splits sum.splits)
  qed (use e(2) in auto)
qed

end

section \<open>Properties\<close>

text \<open>C5: what the admin surface can do. In every run of the proxy on the memory store, a request to
  the admin surface, with any method and any path, leaves the proxy as it is or makes a step
  of the system. The records in the store change only when the request is \<open>DELETE\<close> of a path whose
  two segments are \<open>credentials\<close> and, after unescaping, an access key ID in the store; then exactly
  the record of this ID goes.\<close>

theorem admin_surface:
  assumes "start_memory cfg j up quote errtext cache g = Some (sv, st0)" "sys_run sv memory_tick st0 evs st"
    and "AdminHandler sv render clk r st = (resp, st')"
  shows "(st' = st \<or> (\<exists>e. sys_run sv memory_tick st0 (evs @ [e]) st')) \<and>
    (\<forall>k. memory_abs (ss_store st') k \<noteq> memory_abs (ss_store st) k \<longrightarrow>
       revokes r k \<and> memory_abs (ss_store st) k \<noteq> None \<and> memory_abs (ss_store st') = (memory_abs (ss_store st))(k := None))"
proof -
  from assms(1) obtain target where sv: "sv = memory_server cfg target j up quote errtext"
    and st0: "st0 = memory_state cfg cache g" by (auto simp: start_memory_Some)
  note good = ms.good_run [OF assms(2) [unfolded sv st0] memory_state_good]
  have "st' = st \<or> (\<exists>e. sys_run sv memory_tick st0 (evs @ [e]) st')"
    using admin_step [OF assms(3), of memory_tick] sys_run.step [OF assms(2)] by blast
  moreover have "revokes r k \<and> memory_abs (ss_store st) k \<noteq> None \<and>
      memory_abs (ss_store st') = (memory_abs (ss_store st))(k := None)"
    if "memory_abs (ss_store st') k \<noteq> memory_abs (ss_store st) k" for k
    using ms.admin_records [OF good assms(3) [unfolded sv] that] that by (metis fun_upd_same)
  ultimately show ?thesis by blast
qed

lemma minted_run:
  "sys_run sample_server memory_tick fresh_state
     [Served sample_clock sts_request (fst (serve sample_server sample_clock sts_request fresh_state))] minted_state"
  unfolding minted_state_def by (rule serve_run)

definition delete_request :: "string \<Rightarrow> request" where
  "delete_request p = bearer_request\<lparr>r_method := ''DELETE'', r_url := (r_url bearer_request)\<lparr>u_path := p, u_raw_path := []\<rparr>\<rparr>"

theorem admin_surface_witness:
  "\<not> revokes (delete_request ''/credentials/OZPX/x'') ''OZPXWXYZ0123456789AB'' \<and>
   memory_abs (ss_store (snd (AdminHandler sample_server (\<lambda>_ _ _. healthz) sample_clock
     (delete_request ''/credentials/OZPX/x'') minted_state))) ''OZPXWXYZ0123456789AB'' \<noteq> None"
proof -
  obtain resp st' where a: "AdminHandler sample_server (\<lambda>_ _ _. healthz) sample_clock
      (delete_request ''/credentials/OZPX/x'') minted_state = (resp, st')" by fastforce
  have "\<not> revokes (delete_request ''/credentials/OZPX/x'') ''OZPXWXYZ0123456789AB''" by code_simp
  then show ?thesis using admin_surface [OF fresh_start minted_run a] minted_facts(1) a by force
qed

text \<open>C6: revocation by an operator. In every run of the proxy on the memory store, when a record is
  in the store, \<open>DELETE /credentials/<akid>\<close> with its access key ID on the admin surface is
  answered with 204, and the record is gone while all others stay.\<close>

theorem operator_revocation:
  assumes "start_memory cfg j up quote errtext cache g = Some (sv, st0)" "sys_run sv memory_tick st0 evs st"
    and "memory_abs (ss_store st) akid = Some c" "r_method r = ''DELETE''" "u_path (r_url r) = ''/credentials/'' @ akid"
    and "u_raw_path (r_url r) = []" "r_request_uri r \<noteq> ''*''"
  shows "\<exists>resp st'. AdminHandler sv render clk r st = (resp, st') \<and> rp_status resp = 204 \<and>
    memory_abs (ss_store st') = (memory_abs (ss_store st))(akid := None)"
proof -
  from assms(1) obtain target where sv: "sv = memory_server cfg target j up quote errtext"
    and st0: "st0 = memory_state cfg cache g" by (auto simp: start_memory_Some)
  note good = ms.good_run [OF assms(2) [unfolded sv st0] memory_state_good]
  have "exchanged sv evs c" "cr_access_key_id c = akid" using good assms(3) unfolding ms.good_def sv by auto
  then obtain u i t gr gr' where m: "mint u i t gr = (Inr c, gr')" unfolding exchanged_def minted_at_def by blast
  then have "akid \<noteq> []" "list_all is_alnum akid"
    using mint_akid_alnum [OF m] mint_akid [OF m] \<open>cr_access_key_id c = akid\<close> by (auto simp: akid_at_def akidPrefix_def)
  then have "AdminHandler sv render clk r st = handleRevoke sv akid st"
    using assms(4-7) by (intro admin_revoke_routed alnum_plain_segment)
  then show ?thesis
    using assms(3) by (simp add: sv handleRevoke_def memory_impl_def memory_get_def memory_delete_def memory_abs_def
        on_metrics_def delete_conv')
qed

theorem operator_revocation_witness:
  "\<exists>resp st'. AdminHandler sample_server (\<lambda>_ _ _. healthz) sample_clock
     (delete_request ''/credentials/OZPXWXYZ0123456789AB'') minted_state = (resp, st') \<and>
   rp_status resp = 204 \<and> memory_abs (ss_store st') ''OZPXWXYZ0123456789AB'' = None"
proof -
  let ?r = "delete_request ''/credentials/OZPXWXYZ0123456789AB''"
  have r: "r_method ?r = ''DELETE''" "u_path (r_url ?r) = ''/credentials/'' @ ''OZPXWXYZ0123456789AB''"
    "u_raw_path (r_url ?r) = []" "r_request_uri ?r \<noteq> ''*''" by code_simp+
  obtain c where "memory_abs (ss_store minted_state) ''OZPXWXYZ0123456789AB'' = Some c" using minted_facts(1) by blast
  from operator_revocation [OF fresh_start minted_run this r] show ?thesis by fastforce
qed

end
