(* ===== verification/Aes_Gcm.thy ===== *)
theory Aes_Gcm
  imports Go_Strings
begin

unbundle bit_operations_syntax

text \<open>
  AES-256 in Galois counter mode, what \<open>crypto/aes\<close> and \<open>crypto/cipher\<close> give the program: a
  nonce of 12 bytes, a tag of 16 bytes, additional data that is authenticated and not
  encrypted. The block cipher is written from FIPS 197 and the mode from NIST SP 800-38D, on
  bytes as 8-bit words. The S-box is computed from its definition in the field of 256 elements.
  Decryption undoes encryption and accepts nothing but what encryption yields; both facts hold
  for every block cipher.
\<close>

type_synonym byte = "8 word"

section \<open>The block cipher\<close>

definition xtime :: "byte \<Rightarrow> byte" where
  "xtime b = push_bit 1 b XOR (if bit b 7 then 27 else 0)"

fun gf_mul_from :: "nat \<Rightarrow> nat \<Rightarrow> byte \<Rightarrow> byte \<Rightarrow> byte" where
  "gf_mul_from 0 i a b = 0"
| "gf_mul_from (Suc n) i a b = (if bit b i then a else 0) XOR gf_mul_from n (i + 1) (xtime a) b"

definition gf_mul :: "byte \<Rightarrow> byte \<Rightarrow> byte" where
  "gf_mul a b = gf_mul_from 8 0 a b"

text \<open>The inverse is the power 254; zero is sent to zero.\<close>

definition gf_inv :: "byte \<Rightarrow> byte" where
  "gf_inv a = ((gf_mul a) ^^ 253) a"

definition sub_byte :: "byte \<Rightarrow> byte" where
  "sub_byte a = (let b = gf_inv a in
     b XOR word_rotl 1 b XOR word_rotl 2 b XOR word_rotl 3 b XOR word_rotl 4 b XOR 99)"

definition xor_bytes :: "byte list \<Rightarrow> byte list \<Rightarrow> byte list" where
  "xor_bytes xs ys = map2 (XOR) xs ys"

definition shift_rows :: "byte list \<Rightarrow> byte list" where
  "shift_rows s = map (\<lambda>i. s ! (4 * ((i div 4 + i mod 4) mod 4) + i mod 4)) [0..<16]"

fun mix_columns :: "byte list \<Rightarrow> byte list" where
  "mix_columns (a # b # c # d # s) =
     (gf_mul 2 a XOR gf_mul 3 b XOR c XOR d) # (a XOR gf_mul 2 b XOR gf_mul 3 c XOR d) #
     (a XOR b XOR gf_mul 2 c XOR gf_mul 3 d) # (gf_mul 3 a XOR b XOR c XOR gf_mul 2 d) # mix_columns s"
| "mix_columns s = []"

text \<open>The key schedule on four-byte words: word \<open>i\<close> depends on the words \<open>i - 1\<close> and \<open>i - 8\<close>.\<close>

definition next_key_word :: "byte list list \<Rightarrow> byte list" where
  "next_key_word ws =
     (let i = length ws; t = ws ! (i - 1);
          t' = (if i mod 8 = 0 then xor_bytes (map sub_byte (rotate1 t)) [(xtime ^^ (i div 8 - 1)) 1, 0, 0, 0]
                else if i mod 8 = 4 then map sub_byte t else t)
      in xor_bytes (ws ! (i - 8)) t')"

fun chunks :: "nat \<Rightarrow> 'a list \<Rightarrow> 'a list list" where
  "chunks n [] = []"
| "chunks n (x # xs) = take (Suc n) (x # xs) # chunks n (drop n xs)"

fun expand_key :: "nat \<Rightarrow> byte list list \<Rightarrow> byte list list" where
  "expand_key 0 ws = ws"
| "expand_key (Suc n) ws = expand_key n (ws @ [next_key_word ws])"

definition round_keys :: "byte list \<Rightarrow> byte list list" where
  "round_keys key = chunks 15 (concat (expand_key 52 (chunks 3 key)))"

definition aes_round :: "byte list \<Rightarrow> byte list \<Rightarrow> byte list" where
  "aes_round k s = xor_bytes (mix_columns (shift_rows (map sub_byte s))) k"

definition aes_block :: "byte list \<Rightarrow> byte list \<Rightarrow> byte list" where
  "aes_block key blk =
     (let ks = round_keys key;
          s = fold aes_round (butlast (tl ks)) (xor_bytes blk (hd ks))
      in xor_bytes (shift_rows (map sub_byte s)) (last ks))"

section \<open>Galois counter mode\<close>

definition block_word :: "byte list \<Rightarrow> 128 word" where
  "block_word bs = foldl (\<lambda>n b. push_bit 8 n OR ucast b) 0 bs"

definition word_block :: "128 word \<Rightarrow> byte list" where
  "word_block w = map (\<lambda>i. ucast (drop_bit (8 * (15 - i)) w)) [0..<16]"

fun ghash_mul_from :: "nat \<Rightarrow> 128 word \<Rightarrow> 128 word \<Rightarrow> 128 word \<Rightarrow> 128 word" where
  "ghash_mul_from 0 x v z = z"
| "ghash_mul_from (Suc n) x v z = ghash_mul_from n x
     (if bit v 0 then drop_bit 1 v XOR push_bit 120 225 else drop_bit 1 v)
     (if bit x n then z XOR v else z)"

definition ghash :: "128 word \<Rightarrow> byte list list \<Rightarrow> 128 word" where
  "ghash h blocks = foldl (\<lambda>y b. ghash_mul_from 128 (y XOR block_word b) h 0) 0 blocks"

definition pad16 :: "byte list \<Rightarrow> byte list" where
  "pad16 s = s @ replicate ((16 - length s mod 16) mod 16) 0"

definition counter_block :: "byte list \<Rightarrow> nat \<Rightarrow> byte list" where
  "counter_block nonce n = nonce @ map (\<lambda>i. word_of_nat (n div 256 ^ (3 - i))) [0..<4]"

definition length_block :: "byte list \<Rightarrow> byte list \<Rightarrow> byte list" where
  "length_block a c =
     word_block (push_bit 64 (word_of_nat (8 * length a)) OR word_of_nat (8 * length c))"

text \<open>The counter starts at 1, whose block masks the tag; the data starts at 2.\<close>

fun gctr :: "(byte list \<Rightarrow> byte list) \<Rightarrow> byte list \<Rightarrow> nat \<Rightarrow> byte list list \<Rightarrow> byte list list" where
  "gctr e nonce n [] = []"
| "gctr e nonce n (b # bs) = xor_bytes b (take (length b) (e (counter_block nonce n))) # gctr e nonce (n + 1) bs"

definition gcm_crypt :: "(byte list \<Rightarrow> byte list) \<Rightarrow> byte list \<Rightarrow> byte list \<Rightarrow> byte list" where
  "gcm_crypt e nonce s = concat (gctr e nonce 2 (chunks 15 s))"

definition gcm_tag :: "(byte list \<Rightarrow> byte list) \<Rightarrow> byte list \<Rightarrow> byte list \<Rightarrow> byte list \<Rightarrow> byte list" where
  "gcm_tag e nonce c a =
     xor_bytes (word_block (ghash (block_word (e (replicate 16 0)))
       (chunks 15 (pad16 a) @ chunks 15 (pad16 c) @ [length_block a c])))
       (e (counter_block nonce 1))"

definition gcm_seal :: "(byte list \<Rightarrow> byte list) \<Rightarrow> byte list \<Rightarrow> byte list \<Rightarrow> byte list \<Rightarrow> byte list" where
  "gcm_seal e nonce plain aad =
     (let c = gcm_crypt e nonce plain in c @ gcm_tag e nonce c aad)"

definition gcm_open :: "(byte list \<Rightarrow> byte list) \<Rightarrow> byte list \<Rightarrow> byte list \<Rightarrow> byte list \<Rightarrow> byte list option" where
  "gcm_open e nonce s aad =
     (if length s < 16 then None
      else let c = take (length s - 16) s in
        if drop (length s - 16) s = gcm_tag e nonce c aad then Some (gcm_crypt e nonce c) else None)"

section \<open>The cipher as the program calls it\<close>

definition to_bytes :: "string \<Rightarrow> byte list" where
  "to_bytes s = map (\<lambda>c. word_of_nat (ord c)) s"

definition of_bytes :: "byte list \<Rightarrow> string" where
  "of_bytes s = map (\<lambda>b. char_of (unat b)) s"

definition nonceSize :: nat where "nonceSize = 12"

definition aead_seal :: "string \<Rightarrow> string \<Rightarrow> string \<Rightarrow> string \<Rightarrow> string" where
  "aead_seal key nonce plain aad =
     of_bytes (gcm_seal (aes_block (to_bytes key)) (to_bytes nonce) (to_bytes plain) (to_bytes aad))"

definition aead_open :: "string \<Rightarrow> string \<Rightarrow> string \<Rightarrow> string \<Rightarrow> string option" where
  "aead_open key nonce sealed aad =
     map_option of_bytes (gcm_open (aes_block (to_bytes key)) (to_bytes nonce) (to_bytes sealed) (to_bytes aad))"

section \<open>Decryption inverts encryption\<close>

lemma length_xor_bytes [simp]: "length (xor_bytes xs ys) = min (length xs) (length ys)"
  by (simp add: xor_bytes_def)

lemma xor_bytes_twice: "length xs \<le> length ys \<Longrightarrow> xor_bytes (xor_bytes xs ys) ys = xs"
  by (rule nth_equalityI) (simp_all add: xor_bytes_def xor.assoc)

lemma concat_chunks: "concat (chunks n xs) = xs"
  by (induction n xs rule: chunks.induct) auto

lemma chunks_length: "b \<in> set (chunks n xs) \<Longrightarrow> length b \<le> Suc n"
  by (induction n xs rule: chunks.induct) auto

lemma chunks_full:
  "k dvd length xs \<Longrightarrow> k = Suc n \<Longrightarrow> b \<in> set (chunks n xs) \<Longrightarrow> length b = k"
proof (induction n xs rule: chunks.induct)
  case (2 n x xs)
  from "2.prems" have l: "Suc n \<le> length (x # xs)" by (intro dvd_imp_le) auto
  then have "k dvd length (drop n xs)"
    using "2.prems"(1,2) dvd_diff_nat [of k "length (x # xs)" k] by simp
  then show ?case using 2 l by auto
qed simp

lemma length_chunks: "k = Suc n \<Longrightarrow> length xs = k * m \<Longrightarrow> length (chunks n xs) = m"
proof (induction n xs arbitrary: m rule: chunks.induct)
  case (2 n x xs)
  then obtain m' where m: "m = Suc m'" by (cases m) auto
  then have "length (drop n xs) = k * m'" using "2.prems" by simp
  then show ?case using 2 m by simp
qed simp

text \<open>The cutting into chunks depends on the length alone.\<close>

lemma chunks_same_lengths:
  "map length cs = map length (chunks n xs) \<Longrightarrow> chunks n (concat cs) = cs"
proof (induction n xs arbitrary: cs rule: chunks.induct)
  case (2 n x xs)
  then obtain c cs' where cs: "cs = c # cs'" by (cases cs) auto
  with "2.prems" have lc: "length c = Suc (min n (length xs))" and ls: "map length cs' = map length (chunks n (drop n xs))"
    by auto
  have IH: "chunks n (concat cs') = cs'" using 2 ls by blast
  obtain y ys where c: "c = y # ys" using lc by (cases c) auto
  show ?case
  proof (cases "length xs < n")
    case True
    then have "cs' = []" using ls by simp
    then show ?thesis using cs c lc True by simp
  next
    case False
    then have "length ys = n" using c lc by simp
    then show ?thesis using cs c IH by simp
  qed
qed simp

text \<open>The key schedule yields fifteen round keys of sixteen bytes, so a block stays a block.\<close>

lemma next_key_word_length:
  assumes "8 \<le> length ws" "\<forall>w \<in> set ws. length w = 4"
  shows "length (next_key_word ws) = 4"
  using assms by (simp add: next_key_word_def Let_def)

lemma expand_words:
  "8 \<le> length ws \<Longrightarrow> \<forall>w \<in> set ws. length w = 4 \<Longrightarrow>
   length (expand_key n ws) = length ws + n \<and> (\<forall>w \<in> set (expand_key n ws). length w = 4)"
  by (induction n ws rule: expand_key.induct) (simp_all add: next_key_word_length)

lemma length_concat_uniform: "\<forall>w \<in> set ws. length w = k \<Longrightarrow> length (concat ws) = k * length ws"
  by (induction ws) auto

lemma round_keys_lengths:
  assumes "length key = 32"
  shows "length (round_keys key) = 15" "k \<in> set (round_keys key) \<Longrightarrow> length k = 16"
proof -
  define ws where "ws = expand_key 52 (chunks 3 key)"
  have c: "length (chunks 3 key) = 8" by (rule length_chunks [of 4]) (simp_all add: assms)
  have "4 dvd length key" unfolding assms by simp
  then have f: "\<forall>w \<in> set (chunks 3 key). length w = 4"
    by (intro ballI) (rule chunks_full [of 4 key 3], simp_all)
  have w: "length ws = 60" "\<forall>w \<in> set ws. length w = 4"
    using expand_words [OF _ f, of 52] c unfolding ws_def by simp_all
  have l: "length (concat ws) = 240" unfolding length_concat_uniform [OF w(2)] w(1) by simp
  have r: "round_keys key = chunks 15 (concat ws)" unfolding round_keys_def ws_def ..
  show "length (round_keys key) = 15" unfolding r by (rule length_chunks [of 16], simp, unfold l, simp)
  have "16 dvd length (concat ws)" unfolding l by simp
  then show "k \<in> set (round_keys key) \<Longrightarrow> length k = 16" unfolding r by (rule chunks_full) simp_all
qed

lemma aes_block_length:
  assumes "length key = 32"
  shows "length (aes_block key blk) = 16"
proof -
  have "last (round_keys key) \<in> set (round_keys key)" using round_keys_lengths(1) [OF assms] by (intro last_in_set) auto
  then show ?thesis using round_keys_lengths(2) [OF assms] by (simp add: aes_block_def Let_def shift_rows_def)
qed

text \<open>From here on the block cipher is any function that yields blocks.\<close>

lemma gctr_lengths:
  assumes "\<And>b. length (e b) = 16" "\<forall>b \<in> set bs. length b \<le> 16"
  shows "map length (gctr e nonce n bs) = map length bs"
  using assms(2) by (induction bs arbitrary: n) (auto simp: assms(1))

lemma gctr_twice:
  assumes "\<And>b. length (e b) = 16" "\<forall>b \<in> set bs. length b \<le> 16"
  shows "gctr e nonce n (gctr e nonce n bs) = bs"
  using assms(2) by (induction bs arbitrary: n) (auto simp: assms(1) xor_bytes_twice)

lemma gcm_crypt_twice:
  assumes "\<And>b. length (e b) = 16"
  shows "gcm_crypt e nonce (gcm_crypt e nonce s) = s"
proof -
  let ?bs = "chunks 15 s"
  have le: "\<forall>b \<in> set ?bs. length b \<le> 16" using chunks_length [of _ 15 s] by auto
  have "chunks 15 (concat (gctr e nonce 2 ?bs)) = gctr e nonce 2 ?bs"
    using gctr_lengths [OF assms le] by (rule chunks_same_lengths)
  then show ?thesis using gctr_twice [OF assms le] by (simp add: gcm_crypt_def concat_chunks)
qed

lemma gcm_tag_length: "(\<And>b. length (e b) = 16) \<Longrightarrow> length (gcm_tag e nonce c a) = 16"
  by (simp add: gcm_tag_def word_block_def)

lemma gcm_open_seal:
  assumes "\<And>b. length (e b) = 16"
  shows "gcm_open e nonce (gcm_seal e nonce p a) a = Some p"
  using gcm_tag_length [OF assms] gcm_crypt_twice [OF assms] by (simp add: gcm_open_def gcm_seal_def Let_def)

text \<open>Nothing else is accepted.\<close>

lemma gcm_open_only:
  assumes "\<And>b. length (e b) = 16" "gcm_open e nonce s a = Some p"
  shows "s = gcm_seal e nonce p a"
proof -
  define c where "c = take (length s - 16) s"
  have "drop (length s - 16) s = gcm_tag e nonce c a" "p = gcm_crypt e nonce c"
    using assms(2) by (auto simp: gcm_open_def c_def Let_def split: if_splits)
  then show ?thesis using gcm_crypt_twice [OF assms(1)] append_take_drop_id [of "length s - 16" s]
    by (simp add: gcm_seal_def Let_def c_def)
qed

lemma unat_byte: "n < 256 \<Longrightarrow> unat (word_of_nat n :: byte) = n"
  by (simp add: unat_of_nat take_bit_nat_eq_self)

lemma of_to_bytes [simp]: "of_bytes (to_bytes s) = s"
  by (simp add: of_bytes_def to_bytes_def comp_def unat_byte)

lemma to_of_bytes [simp]: "to_bytes (of_bytes s) = s"
proof -
  have "unat b < 256" for b :: byte using unsigned_less [of b] by simp
  then have "word_of_nat (ord (char_of (unat b) :: char)) = b" for b :: byte by (simp add: ord_char_of)
  then show ?thesis by (simp add: of_bytes_def to_bytes_def comp_def)
qed

lemma length_to_bytes [simp]: "length (to_bytes s) = length s"
  by (simp add: to_bytes_def)

lemma aead_open_seal:
  assumes "length key = 32"
  shows "aead_open key nonce (aead_seal key nonce p a) a = Some p"
  using gcm_open_seal [OF aes_block_length [of "to_bytes key"]] assms by (simp add: aead_open_def aead_seal_def)

lemma aead_open_only:
  assumes "length key = 32" "aead_open key nonce s a = Some p"
  shows "s = aead_seal key nonce p a"
proof -
  obtain q where q: "gcm_open (aes_block (to_bytes key)) (to_bytes nonce) (to_bytes s) (to_bytes a) = Some q" "p = of_bytes q"
    using assms(2) by (auto simp: aead_open_def)
  have "to_bytes s = gcm_seal (aes_block (to_bytes key)) (to_bytes nonce) q (to_bytes a)"
    using gcm_open_only [OF aes_block_length q(1)] assms(1) by simp
  then have "of_bytes (to_bytes s) = aead_seal key nonce p a" using q(2) by (simp add: aead_seal_def)
  then show ?thesis by simp
qed

end
