(* ===== verification/Valkey.thy ===== *)
theory Valkey
  imports Store Go_Json Aes_Gcm
begin

text \<open>
  \<open>internal/store/valkey.go\<close>: the shared credential store. Records are written as JSON, sealed
  with AES-256-GCM under the proxy's key with the access key ID as additional data, and kept in
  a Valkey server. The client library \<open>valkey-go\<close> is the parameter \<open>valkey_client\<close> with the
  server (and the client-side cache) as its state; what the program relies on is
  \<open>valkey_lawful\<close>. JSON and the cipher are those of the Go library and are modelled.
\<close>

section \<open>The client library\<close>

datatype get_reply = GetValue string | GetNil | GetError string

text \<open>\<open>SET key value PX ms\<close>, \<open>GET key\<close> through the cache, \<open>DEL key\<close> and
  \<open>SCAN cursor MATCH pattern COUNT n\<close>, which gives the next cursor and the elements found.\<close>

record 'v valkey_client =
  vc_set :: "string \<Rightarrow> string \<Rightarrow> int \<Rightarrow> 'v \<Rightarrow> string option \<times> 'v"
  vc_get :: "string \<Rightarrow> duration \<Rightarrow> 'v \<Rightarrow> get_reply \<times> 'v"
  vc_del :: "string \<Rightarrow> 'v \<Rightarrow> string option \<times> 'v"
  vc_scan :: "nat \<Rightarrow> string \<Rightarrow> nat \<Rightarrow> 'v \<Rightarrow> (string + nat \<times> string list) \<times> 'v"

text \<open>The documented behaviour, with \<open>kv\<close> for the contents of the server: SET and DEL change one
  key when they report success and may have done so when they report an error; GET and SCAN
  change nothing, and GET answers what is stored (invalidations have reached the cache).\<close>

definition valkey_lawful :: "'v valkey_client \<Rightarrow> ('v \<Rightarrow> string \<rightharpoonup> string) \<Rightarrow> bool" where
  "valkey_lawful cl kv \<longleftrightarrow>
     (\<forall>k x px v e v'. vc_set cl k x px v = (e, v') \<longrightarrow>
        kv v' = (kv v)(k \<mapsto> x) \<or> e \<noteq> None \<and> kv v' = kv v) \<and>
     (\<forall>k v e v'. vc_del cl k v = (e, v') \<longrightarrow> kv v' = (kv v)(k := None) \<or> e \<noteq> None \<and> kv v' = kv v) \<and>
     (\<forall>k ttl v r v'. vc_get cl k ttl v = (r, v') \<longrightarrow> kv v' = kv v \<and>
        (r = GetNil \<longrightarrow> kv v k = None) \<and> (\<forall>x. r = GetValue x \<longrightarrow> kv v k = Some x)) \<and>
     (\<forall>c p n v r v'. vc_scan cl c p n v = (r, v') \<longrightarrow> kv v' = kv v)"

lemma lawful_set:
  assumes "valkey_lawful cl kv" "vc_set cl k x px v = (e, v')"
  shows "kv v' = (kv v)(k \<mapsto> x) \<or> e \<noteq> None \<and> kv v' = kv v"
  using assms(1) [unfolded valkey_lawful_def, THEN conjunct1] assms(2) by simp

lemma lawful_del:
  assumes "valkey_lawful cl kv" "vc_del cl k v = (e, v')"
  shows "kv v' = (kv v)(k := None) \<or> e \<noteq> None \<and> kv v' = kv v"
  using assms(1) [unfolded valkey_lawful_def, THEN conjunct2, THEN conjunct1] assms(2) by simp

lemma lawful_get:
  assumes "valkey_lawful cl kv" "vc_get cl k ttl v = (r, v')"
  shows "kv v' = kv v" "r = GetNil \<Longrightarrow> kv v k = None" "r = GetValue x \<Longrightarrow> kv v k = Some x"
  using assms(1) [unfolded valkey_lawful_def, THEN conjunct2, THEN conjunct2, THEN conjunct1] assms(2) by auto

lemma lawful_scan: "valkey_lawful cl kv \<Longrightarrow> vc_scan cl c p n v = (r, v') \<Longrightarrow> kv v' = kv v"
  unfolding valkey_lawful_def by (elim conjE) simp

section \<open>The store\<close>

definition valkeyPrefix :: string where "valkeyPrefix = ''ozpx:cred:''"

definition StoreKeyBytes :: nat where "StoreKeyBytes = 32"

definition ParseStoreKey :: "string \<Rightarrow> string + bytes" where
  "ParseStoreKey s = (case b64std_decode s of
     None \<Rightarrow> Inl ''store key is not valid base64''
   | Some key \<Rightarrow>
       if length key \<noteq> StoreKeyBytes then Inl (''store key must decode to 32 bytes, got '' @ itoa_nat (length key))
       else Inr key)"

text \<open>The AES-GCM cipher is its key. The clock of the store is a sequence of readings, of which
  the first \<open>vk_reads\<close> have been made.\<close>

record 'v valkey =
  vk_client :: 'v
  vk_aead :: bytes
  vk_retention :: duration
  vk_cacheTTL :: duration
  vk_clock :: "nat \<Rightarrow> time"
  vk_reads :: nat
  vk_rand :: rand_source

definition withValkeyRetention :: "duration \<Rightarrow> 'v valkey \<Rightarrow> 'v valkey" where
  "withValkeyRetention d v = v\<lparr>vk_retention := d\<rparr>"

definition withValkeyCacheTTL :: "duration \<Rightarrow> 'v valkey \<Rightarrow> 'v valkey" where
  "withValkeyCacheTTL d v = v\<lparr>vk_cacheTTL := d\<rparr>"

definition withValkeyClock :: "(nat \<Rightarrow> time) \<Rightarrow> 'v valkey \<Rightarrow> 'v valkey" where
  "withValkeyClock now v = v\<lparr>vk_clock := now\<rparr>"

definition newAEAD :: "bytes \<Rightarrow> string + bytes" where
  "newAEAD key = (if length key \<noteq> StoreKeyBytes then Inl (''store key must be 32 bytes, got '' @ itoa_nat (length key))
     else Inr key)"

text \<open>\<open>connect\<close> is \<open>valkey.NewClient\<close>; \<open>clk\<close> and \<open>g\<close> are the system's clock and random source.\<close>

definition newValkey ::
  "(string \<Rightarrow> string + 'v) \<Rightarrow> (nat \<Rightarrow> time) \<Rightarrow> rand_source \<Rightarrow> string \<Rightarrow> bytes \<Rightarrow>
   ('v valkey \<Rightarrow> 'v valkey) list \<Rightarrow> string + 'v valkey" where
  "newValkey connect clk g addr key opts =
     res_bind (newAEAD key) (\<lambda>aead.
       case connect addr of
         Inl e \<Rightarrow> Inl (''valkey connect '' @ addr @ '': '' @ e)
       | Inr client \<Rightarrow> Inr (fold (\<lambda>opt. opt) opts
           \<lparr>vk_client = client, vk_aead = aead, vk_retention = hour, vk_cacheTTL = 10 * second,
            vk_clock = clk, vk_reads = 0, vk_rand = g\<rparr>))"

definition valkey_now :: "'v valkey \<Rightarrow> time \<times> 'v valkey" where
  "valkey_now v = (vk_clock v (vk_reads v), v\<lparr>vk_reads := vk_reads v + 1\<rparr>)"

text \<open>\<open>json.Marshal\<close> and \<open>json.Unmarshal\<close> of a record.\<close>

definition credentials_marshal :: "credentials \<Rightarrow> string option" where
  "credentials_marshal c = map_option (\<lambda>t. json_object
     [(''AccessKeyID'', json_escape (cr_access_key_id c)), (''SecretAccessKey'', json_escape (cr_secret_access_key c)),
      (''SessionToken'', json_escape (cr_session_token c)), (''Username'', json_escape (cr_username c)),
      (''Issuer'', json_escape (cr_issuer c)), (''ExpiresAt'', t)]) (time_marshal (cr_expires_at c))"

definition credentials_unmarshal :: "string \<Rightarrow> credentials option" where
  "credentials_unmarshal s = do {
     v \<leftarrow> json_unmarshal s;
     ms \<leftarrow> json_members v;
     akid \<leftarrow> json_field to_string ''AccessKeyID'' ms [];
     secret \<leftarrow> json_field to_string ''SecretAccessKey'' ms [];
     token \<leftarrow> json_field to_string ''SessionToken'' ms [];
     user \<leftarrow> json_field to_string ''Username'' ms [];
     issuer \<leftarrow> json_field to_string ''Issuer'' ms [];
     expires \<leftarrow> json_field to_time ''ExpiresAt'' ms zero_time;
     Some \<lparr>cr_access_key_id = akid, cr_secret_access_key = secret, cr_session_token = token,
       cr_username = user, cr_issuer = issuer, cr_expires_at = expires\<rparr>
   }"

definition valkey_seal :: "bytes \<Rightarrow> string \<Rightarrow> string \<Rightarrow> rand_source \<Rightarrow> string option \<times> rand_source" where
  "valkey_seal aead plain aad g = (case rand_read nonceSize g of
     (None, g') \<Rightarrow> (None, g')
   | (Some nonce, g') \<Rightarrow> (Some (nonce @ aead_seal aead nonce plain aad), g'))"

definition valkey_open :: "bytes \<Rightarrow> string \<Rightarrow> string \<Rightarrow> string option" where
  "valkey_open aead sealed aad =
     (if length sealed < nonceSize then None
      else aead_open aead (take nonceSize sealed) (drop nonceSize sealed) aad)"

definition valkey_put :: "'v valkey_client \<Rightarrow> credentials \<Rightarrow> 'v valkey \<Rightarrow> string option \<times> 'v valkey" where
  "valkey_put cl creds v =
     (case credentials_marshal creds of
        None \<Rightarrow> (Some ''marshal'', v)
      | Some plain \<Rightarrow>
          (case valkey_now v of (now, v1) \<Rightarrow>
             let left = time_sub (time_add (cr_expires_at creds) (vk_retention v1)) now;
                 ttl = (if left \<le> 0 then vk_retention v1 else left)
             in case valkey_seal (vk_aead v1) plain (cr_access_key_id creds) (vk_rand v1) of
                  (None, g) \<Rightarrow> (Some ''rand'', v1\<lparr>vk_rand := g\<rparr>)
                | (Some sealed, g) \<Rightarrow>
                    (case vc_set cl (valkeyPrefix @ cr_access_key_id creds) sealed (ttl div 1000000) (vk_client v1) of
                       (e, c) \<Rightarrow> (e, v1\<lparr>vk_rand := g, vk_client := c\<rparr>))))"

definition valkey_get ::
  "'v valkey_client \<Rightarrow> string \<Rightarrow> 'v valkey \<Rightarrow> (string + credentials option) \<times> 'v valkey" where
  "valkey_get cl akid v =
     (case vc_get cl (valkeyPrefix @ akid) (vk_cacheTTL v) (vk_client v) of
        (r, c) \<Rightarrow>
          ((case r of
              GetNil \<Rightarrow> Inr None
            | GetError e \<Rightarrow> Inl (''valkey get: '' @ e)
            | GetValue data \<Rightarrow>
                (case valkey_open (vk_aead v) data akid of
                   None \<Rightarrow> Inl ''credential record failed decryption (store key mismatch or record/key mismatch?)''
                 | Some plain \<Rightarrow>
                     (case credentials_unmarshal plain of
                        None \<Rightarrow> Inl ''credential record corrupt''
                      | Some creds \<Rightarrow> Inr (Some creds)))),
           v\<lparr>vk_client := c\<rparr>))"

definition valkey_delete :: "'v valkey_client \<Rightarrow> string \<Rightarrow> 'v valkey \<Rightarrow> string option \<times> 'v valkey" where
  "valkey_delete cl akid v =
     (case vc_del cl (valkeyPrefix @ akid) (vk_client v) of (e, c) \<Rightarrow> (e, v\<lparr>vk_client := c\<rparr>))"

text \<open>The scan follows the server's cursors until one is 0; \<open>None\<close> when none ever is.\<close>

partial_function (option) scan_loop ::
  "'v valkey_client \<Rightarrow> nat \<Rightarrow> nat \<Rightarrow> 'v \<Rightarrow> ((string + nat) \<times> 'v) option" where
  "scan_loop cl cursor n c =
     (case vc_scan cl cursor (valkeyPrefix @ ''*'') 1000 c of
        (Inl e, c') \<Rightarrow> Some (Inl (''valkey scan: '' @ e), c')
      | (Inr (cursor', elements), c') \<Rightarrow>
          if cursor' = 0 then Some (Inr (n + length elements), c')
          else scan_loop cl cursor' (n + length elements) c')"

definition valkey_count :: "'v valkey_client \<Rightarrow> 'v valkey \<Rightarrow> ((string + nat) \<times> 'v valkey) option" where
  "valkey_count cl v =
     map_option (\<lambda>(r, c). (r, v\<lparr>vk_client := c\<rparr>)) (scan_loop cl 0 0 (vk_client v))"

text \<open>As the program's \<open>Store\<close>. The callers of \<open>Count\<close> give it a deadline, which ends a scan that
  would not end.\<close>

definition valkey_impl :: "'v valkey_client \<Rightarrow> 'v valkey store_impl" where
  "valkey_impl cl = \<lparr>st_put = valkey_put cl, st_get = valkey_get cl, st_delete = valkey_delete cl,
     st_count = (\<lambda>now v. case valkey_count cl v of
        Some r \<Rightarrow> r
      | None \<Rightarrow> (Inl ''valkey scan: context deadline exceeded'', v))\<rparr>"

section \<open>Records survive the store\<close>

definition storable :: "credentials \<Rightarrow> bool" where
  "storable c \<longleftrightarrow> utf8_valid (cr_access_key_id c) \<and> utf8_valid (cr_secret_access_key c) \<and>
     utf8_valid (cr_session_token c) \<and> utf8_valid (cr_username c) \<and> utf8_valid (cr_issuer c)"

lemma credentials_roundtrip:
  assumes "storable c" "credentials_marshal c = Some s"
  shows "credentials_unmarshal s = Some c"
proof -
  define names where "names = [''AccessKeyID'', ''SecretAccessKey'', ''SessionToken'', ''Username'', ''Issuer'', ''ExpiresAt'']"
  obtain t where t: "time_marshal (cr_expires_at c) = Some t" and
    s: "s = json_object (zip names [json_escape (cr_access_key_id c), json_escape (cr_secret_access_key c),
      json_escape (cr_session_token c), json_escape (cr_username c), json_escape (cr_issuer c), t])"
    using assms(2) by (auto simp: credentials_marshal_def names_def)
  let ?ms = "zip names (map JStr [json_escape (cr_access_key_id c), json_escape (cr_secret_access_key c),
      json_escape (cr_session_token c), json_escape (cr_username c), json_escape (cr_issuer c), t])"
  have asc: "list_all is_ascii names" unfolding names_def by code_simp
  then have "unquote (json_escape k) = k" if "k \<in> set names" for k
    using that by (intro unquote_json_escape utf8_valid_ascii) (simp add: list_all_iff is_ascii_def)
  then have esc: "map (\<lambda>k. unquote (json_escape k)) names = names" by (intro map_idI) simp
  have "json_unmarshal s = Some (JObj (map json_pair (zip names [json_escape (cr_access_key_id c), json_escape (cr_secret_access_key c),
      json_escape (cr_session_token c), json_escape (cr_username c), json_escape (cr_issuer c), t])))"
    unfolding s by (rule json_unmarshal_object)
      (simp_all add: names_def scannable_json_escape scannable_time [OF t])
  moreover have "json_members (JObj (map json_pair (zip names [json_escape (cr_access_key_id c), json_escape (cr_secret_access_key c),
      json_escape (cr_session_token c), json_escape (cr_username c), json_escape (cr_issuer c), t]))) = Some ?ms"
    using esc by (simp add: json_members_def json_pair_def names_def)
  moreover have "same_field x y \<longleftrightarrow> x = y" if "x \<in> set names" "y \<in> set names" for x y
  proof -
    have "distinct (map (map upper_char) names)" unfolding names_def by code_simp
    then have "inj_on (map upper_char) (set names)" by (simp add: distinct_map)
    then show ?thesis using that asc by (auto simp: list_all_iff same_field_ascii inj_on_eq_iff)
  qed
  ultimately show ?thesis
    using assms(1) time_marshal_unmarshal [OF t]
    by (simp add: credentials_unmarshal_def to_string_def to_time_def storable_def names_def unquote_json_escape)
qed

lemma valkey_seal_Some:
  assumes "valkey_seal aead p a g = (Some s, g')"
  shows "\<exists>nonce. length nonce = nonceSize \<and> s = nonce @ aead_seal aead nonce p a"
proof -
  obtain r g1 where r: "rand_read nonceSize g = (r, g1)" by fastforce
  then obtain nonce where "r = Some nonce" "s = nonce @ aead_seal aead nonce p a"
    using assms by (cases r) (simp_all add: valkey_seal_def)
  then show ?thesis using rand_read_length r by blast
qed

lemma valkey_open_seal:
  assumes "valkey_seal aead p a g = (Some s, g')" "length aead = 32"
  shows "valkey_open aead s a = Some p"
proof -
  obtain nonce where "length nonce = nonceSize" "s = nonce @ aead_seal aead nonce p a"
    using valkey_seal_Some [OF assms(1)] by blast
  then show ?thesis using aead_open_seal [OF assms(2)] by (simp add: valkey_open_def)
qed

text \<open>What opens was sealed: with the same key, nonce, additional data and plain text.\<close>

lemma valkey_open_only:
  assumes "valkey_open aead s a = Some p" "length aead = 32"
  shows "nonceSize \<le> length s \<and> s = take nonceSize s @ aead_seal aead (take nonceSize s) p a"
  using assms aead_open_only [OF assms(2), of "take nonceSize s" "drop nonceSize s" a p]
  by (auto simp: valkey_open_def split: if_splits) (metis append_take_drop_id)

section \<open>The contract of a store\<close>

text \<open>The record a value stands for under an access key ID; a value that does not open or does
  not decode stands for none.\<close>

definition record_of :: "bytes \<Rightarrow> string \<Rightarrow> string \<Rightarrow> credentials option" where
  "record_of aead akid data = Option.bind (valkey_open aead data akid) credentials_unmarshal"

definition records :: "bytes \<Rightarrow> (string \<rightharpoonup> string) \<Rightarrow> string \<rightharpoonup> credentials" where
  "records aead m k = Option.bind (m (valkeyPrefix @ k)) (record_of aead k)"

definition valkey_abs :: "('v \<Rightarrow> string \<rightharpoonup> string) \<Rightarrow> 'v valkey \<Rightarrow> string \<rightharpoonup> credentials" where
  "valkey_abs kv v = records (vk_aead v) (kv (vk_client v))"

lemma records_update:
  "records aead (m(valkeyPrefix @ k := x)) = (records aead m)(k := Option.bind x (record_of aead k))"
  by (rule ext) (simp add: records_def)

definition valkey_inv :: "'v valkey \<Rightarrow> bool" where
  "valkey_inv v \<longleftrightarrow> length (vk_aead v) = StoreKeyBytes"

lemma record_of_put:
  assumes "storable c" "credentials_marshal c = Some p" "valkey_seal aead p (cr_access_key_id c) g = (Some s, g')"
    "length aead = 32"
  shows "record_of aead (cr_access_key_id c) s = Some c"
  using valkey_open_seal [OF assms(3,4)] credentials_roundtrip [OF assms(1,2)] by (simp add: record_of_def)

lemma valkey_put_state:
  assumes "valkey_lawful cl kv" "valkey_inv v" "storable c" "valkey_put cl c v = (e, v')"
  shows "valkey_inv v' \<and> (valkey_abs kv v' = (valkey_abs kv v)(cr_access_key_id c \<mapsto> c) \<or>
    e \<noteq> None \<and> valkey_abs kv v' = valkey_abs kv v)"
proof (cases "credentials_marshal c")
  case None
  then show ?thesis using assms by (auto simp: valkey_put_def)
next
  case (Some p)
  obtain sealed g where g: "valkey_seal (vk_aead v) p (cr_access_key_id c) (vk_rand v) = (sealed, g)" by fastforce
  show ?thesis
  proof (cases sealed)
    case None
    then show ?thesis using assms(2,4) Some g
      by (auto simp: valkey_put_def valkey_now_def valkey_inv_def valkey_abs_def Let_def)
  next
    case (Some s)
    obtain px c' where v': "vc_set cl (valkeyPrefix @ cr_access_key_id c) s px (vk_client v) = (e, c')"
      "vk_client v' = c'" "vk_aead v' = vk_aead v"
      using assms(4) \<open>credentials_marshal c = Some p\<close> g Some
      by (auto simp: valkey_put_def valkey_now_def Let_def split: prod.splits)
    have "record_of (vk_aead v) (cr_access_key_id c) s = Some c"
      using record_of_put [OF assms(3) \<open>credentials_marshal c = Some p\<close> g [unfolded Some]] assms(2)
      by (simp add: valkey_inv_def StoreKeyBytes_def)
    moreover have "kv c' = (kv (vk_client v))(valkeyPrefix @ cr_access_key_id c \<mapsto> s) \<or> e \<noteq> None \<and> kv c' = kv (vk_client v)"
      using lawful_set [OF assms(1) v'(1)] .
    ultimately show ?thesis using v' assms(2) by (auto simp: valkey_inv_def valkey_abs_def records_update)
  qed
qed

lemma valkey_get_state:
  assumes "valkey_lawful cl kv" "valkey_get cl k v = (r, v')"
  shows "valkey_abs kv v' = valkey_abs kv v \<and> vk_aead v' = vk_aead v \<and> (\<forall>x. r = Inr x \<longrightarrow> x = valkey_abs kv v k)"
proof -
  obtain g c where g: "vc_get cl (valkeyPrefix @ k) (vk_cacheTTL v) (vk_client v) = (g, c)" by fastforce
  note law = lawful_get [OF assms(1) g]
  have "v' = v\<lparr>vk_client := c\<rparr>" using assms(2) g by (simp add: valkey_get_def)
  moreover have "x = valkey_abs kv v k" if "r = Inr x" for x
    using assms(2) g law(2,3) that
    by (auto simp: valkey_get_def valkey_abs_def records_def record_of_def split: get_reply.splits option.splits)
  ultimately show ?thesis using law(1) by (auto simp: valkey_abs_def)
qed

lemma valkey_delete_state:
  assumes "valkey_lawful cl kv" "valkey_delete cl k v = (e, v')"
  shows "vk_aead v' = vk_aead v \<and>
    (valkey_abs kv v' = (valkey_abs kv v)(k := None) \<or> e \<noteq> None \<and> valkey_abs kv v' = valkey_abs kv v)"
proof -
  obtain c where c: "vc_del cl (valkeyPrefix @ k) (vk_client v) = (e, c)" "v' = v\<lparr>vk_client := c\<rparr>"
    using assms(2) by (cases "vc_del cl (valkeyPrefix @ k) (vk_client v)") (simp add: valkey_delete_def)
  have "kv c = (kv (vk_client v))(valkeyPrefix @ k := None) \<or> e \<noteq> None \<and> kv c = kv (vk_client v)"
    using lawful_del [OF assms(1) c(1)] .
  then show ?thesis
    using records_update [of "vk_aead v" "kv (vk_client v)" k None] by (auto simp: valkey_abs_def c(2))
qed

lemma scan_loop_state:
  assumes "scan_loop cl cursor n c = Some p" "valkey_lawful cl kv"
  shows "kv (snd p) = kv c"
  using assms(2)
proof (induction cl cursor n c p rule: scan_loop.raw_induct)
  case (1 loop cl cursor n c p)
  obtain r c' where s: "vc_scan cl cursor (valkeyPrefix @ ''*'') 1000 c = (r, c')" by fastforce
  have k: "kv c' = kv c" by (rule lawful_scan [OF "1.prems" s])
  show ?case
  proof (cases r)
    case (Inl e)
    then show ?thesis using "1.hyps" s k by auto
  next
    case (Inr q)
    then show ?thesis using "1.IH" "1.hyps" "1.prems" s k by (cases q) (auto split: if_splits)
  qed
qed (rule assms(1))

text \<open>The shared store keeps the contract of a store for every record in UTF-8.\<close>

lemma valkey_credential_store:
  assumes "valkey_lawful cl kv"
  shows "credential_store (valkey_impl cl) (valkey_abs kv) valkey_inv storable"
proof
  note law = assms
  show "valkey_inv s' \<and> valkey_abs kv s' = (valkey_abs kv s)(cr_access_key_id c \<mapsto> c)"
    if "valkey_inv s" "storable c" "st_put (valkey_impl cl) c s = (None, s')" for s c s'
    using valkey_put_state [OF law that(1,2)] that(3) by (fastforce simp: valkey_impl_def)
  show "valkey_inv s' \<and> (valkey_abs kv s' = valkey_abs kv s \<or> valkey_abs kv s' = (valkey_abs kv s)(cr_access_key_id c \<mapsto> c))"
    if "valkey_inv s" "storable c" "st_put (valkey_impl cl) c s = (Some e, s')" for s c e s'
    using valkey_put_state [OF law that(1,2)] that(3) by (fastforce simp: valkey_impl_def)
  show "valkey_inv s' \<and> valkey_abs kv s' = valkey_abs kv s \<and> r = valkey_abs kv s k"
    if "valkey_inv s" "st_get (valkey_impl cl) k s = (Inr r, s')" for s k r s'
    using valkey_get_state [OF law, of k s "Inr r" s'] that by (simp add: valkey_impl_def valkey_inv_def)
  show "valkey_inv s' \<and> valkey_abs kv s' = valkey_abs kv s"
    if "valkey_inv s" "st_get (valkey_impl cl) k s = (Inl e, s')" for s k e s'
    using valkey_get_state [OF law, of k s "Inl e" s'] that by (simp add: valkey_impl_def valkey_inv_def)
  show "valkey_inv s' \<and> valkey_abs kv s' = (valkey_abs kv s)(k := None)"
    if "valkey_inv s" "st_delete (valkey_impl cl) k s = (None, s')" for s k s'
    using valkey_delete_state [OF law, of k s None s'] that by (simp add: valkey_impl_def valkey_inv_def)
  show "valkey_inv s' \<and> (valkey_abs kv s' = valkey_abs kv s \<or> valkey_abs kv s' = (valkey_abs kv s)(k := None))"
    if "valkey_inv s" "st_delete (valkey_impl cl) k s = (Some e, s')" for s k e s'
    using valkey_delete_state [OF law, of k s "Some e" s'] that by (auto simp: valkey_impl_def valkey_inv_def)
  show "valkey_inv s' \<and> valkey_abs kv s' = valkey_abs kv s"
    if "valkey_inv s" "st_count (valkey_impl cl) now s = (n, s')" for s now n s'
  proof (cases "scan_loop cl 0 0 (vk_client s)")
    case None
    then show ?thesis using that by (simp add: valkey_impl_def valkey_count_def)
  next
    case (Some p)
    then show ?thesis using that scan_loop_state [OF Some law]
      by (auto simp: valkey_impl_def valkey_count_def valkey_abs_def valkey_inv_def split: prod.splits)
  qed
qed

section \<open>Properties\<close>

text \<open>The pages of a scan that starts at a cursor and ends.\<close>

inductive scan_pages :: "'v valkey_client \<Rightarrow> nat \<Rightarrow> 'v \<Rightarrow> string list list \<Rightarrow> 'v \<Rightarrow> bool"
  for cl :: "'v valkey_client" where
  last_page: "vc_scan cl cursor (valkeyPrefix @ ''*'') 1000 c = (Inr (0, es), c') \<Longrightarrow>
    scan_pages cl cursor c [es] c'"
| page: "vc_scan cl cursor (valkeyPrefix @ ''*'') 1000 c = (Inr (k, es), c') \<Longrightarrow> k \<noteq> 0 \<Longrightarrow>
    scan_pages cl k c' pages c'' \<Longrightarrow> scan_pages cl cursor c (es # pages) c''"

lemma scan_loop_pages:
  "scan_pages cl cursor c pages c' \<Longrightarrow> scan_loop cl cursor n c = Some (Inr (n + length (concat pages)), c')"
proof (induction arbitrary: n rule: scan_pages.induct)
  case (last_page cursor c es c')
  then show ?case by (subst scan_loop.simps) simp
next
  case (page cursor c k es c' pages c'')
  then show ?case by (subst scan_loop.simps) (simp add: add.assoc)
qed

text \<open>A server that is a map and a scan that lists it in pages of one key, for the examples.\<close>

definition demo_client :: "((string \<times> string) list) valkey_client" where
  "demo_client =
     \<lparr>vc_set = (\<lambda>k x px m. (None, AList.update k x m)),
      vc_get = (\<lambda>k ttl m. (case map_of m k of None \<Rightarrow> GetNil | Some x \<Rightarrow> GetValue x, m)),
      vc_del = (\<lambda>k m. (None, AList.delete k m)),
      vc_scan = (\<lambda>c p n m. (Inr (if c + 1 < length m then c + 1 else 0, map fst (take 1 (drop c m))), m))\<rparr>"

definition demo_valkey :: "((string \<times> string) list) valkey" where
  "demo_valkey = \<lparr>vk_client = [], vk_aead = replicate 32 (CHR ''k''), vk_retention = hour, vk_cacheTTL = 10 * second,
     vk_clock = (\<lambda>_. 20), vk_reads = 0,
     vk_rand = \<lparr>rs_byte = (\<lambda>_. CHR ''n''), rs_fails = (\<lambda>_. False), rs_pos = 0, rs_reads = 0\<rparr>\<rparr>"

lemma demo_client_lawful: "valkey_lawful demo_client map_of"
  by (auto simp: valkey_lawful_def demo_client_def update_conv' delete_conv' split: option.splits)

lemma demo_creds_storable: "storable (demo_creds ''A'' 10)"
  by (simp add: storable_def demo_creds_def utf8_valid_ascii)

lemma demo_put: "\<exists>v. valkey_put demo_client (demo_creds ''A'' 10) demo_valkey = (None, v) \<and> valkey_inv v \<and>
    (\<exists>x. vk_client v = [(''ozpx:cred:A'', x)])"
proof -
  have "four_digit_year (cr_expires_at (demo_creds ''A'' 10))" by code_simp
  then obtain p where "credentials_marshal (demo_creds ''A'' 10) = Some p"
    by (simp add: credentials_marshal_def time_marshal_def)
  then show ?thesis
    by (simp add: valkey_put_def valkey_now_def valkey_seal_def rand_read_def demo_valkey_def demo_client_def Let_def
        valkey_inv_def StoreKeyBytes_def valkeyPrefix_def demo_creds_def)
qed

lemma demo_get: "valkey_abs map_of v k = Some c \<Longrightarrow> \<exists>v'. valkey_get demo_client k v = (Inr (Some c), v')"
  by (auto simp: valkey_get_def demo_client_def valkey_abs_def records_def record_of_def bind_eq_Some_conv)

lemma demo_put_abs:
  assumes "valkey_put demo_client (demo_creds ''A'' 10) demo_valkey = (None, v)"
  shows "valkey_inv v" "valkey_abs map_of v ''A'' = Some (demo_creds ''A'' 10)"
proof -
  have "valkey_inv demo_valkey" by code_simp
  from valkey_put_state [OF demo_client_lawful this demo_creds_storable assms]
  show "valkey_inv v" "valkey_abs map_of v ''A'' = Some (demo_creds ''A'' 10)" by (auto simp: demo_creds_def)
qed

text \<open>C13: a record survives the shared store. When a put of a record in UTF-8 reports success and
  the following get reports no error, the get returns the very record that was put: sealing and
  opening, encoding and decoding lose nothing, to the nanosecond of the expiry.\<close>

theorem valkey_put_get:
  assumes "valkey_lawful cl kv" "valkey_inv v" "storable c"
    and "valkey_put cl c v = (None, v1)" "valkey_get cl (cr_access_key_id c) v1 = (Inr r, v2)"
  shows "r = Some c"
  using credential_store.put_get [OF valkey_credential_store [OF assms(1)] assms(2,3)] assms(4,5)
  by (simp add: valkey_impl_def)

theorem valkey_put_get_witness:
  "\<exists>v1 v2. valkey_put demo_client (demo_creds ''A'' 10) demo_valkey = (None, v1) \<and>
     valkey_get demo_client ''A'' v1 = (Inr (Some (demo_creds ''A'' 10)), v2)"
proof -
  obtain v1 where v1: "valkey_put demo_client (demo_creds ''A'' 10) demo_valkey = (None, v1)"
    using demo_put by blast
  obtain r v2 where g: "valkey_get demo_client (cr_access_key_id (demo_creds ''A'' 10)) v1 = (Inr r, v2)"
    using demo_get [OF demo_put_abs(2) [OF v1]] by (auto simp: demo_creds_def)
  have "valkey_inv demo_valkey" by code_simp
  from valkey_put_get [OF demo_client_lawful this demo_creds_storable v1 g] v1 g show ?thesis
    by (auto simp: demo_creds_def)
qed

text \<open>C14: a value read from the shared store is authentic. Whatever the server holds, a get that
  returns a record has found a value that was sealed under the proxy's key with this very
  access key ID as additional data: a value sealed for another access key ID does not pass.\<close>

theorem valkey_get_authentic:
  assumes "valkey_lawful cl kv" "valkey_inv v" "valkey_get cl akid v = (Inr (Some c), v')"
  shows "\<exists>nonce plain. kv (vk_client v) (valkeyPrefix @ akid) = Some (nonce @ aead_seal (vk_aead v) nonce plain akid) \<and>
    length nonce = nonceSize \<and> credentials_unmarshal plain = Some c"
proof -
  have "valkey_abs kv v akid = Some c" using valkey_get_state [OF assms(1,3)] by simp
  then obtain s p where s: "kv (vk_client v) (valkeyPrefix @ akid) = Some s" "valkey_open (vk_aead v) s akid = Some p"
    "credentials_unmarshal p = Some c"
    by (auto simp: valkey_abs_def records_def record_of_def bind_eq_Some_conv)
  have "length (vk_aead v) = 32" using assms(2) by (simp add: valkey_inv_def StoreKeyBytes_def)
  from valkey_open_only [OF s(2) this] s(1,3) show ?thesis
    by (intro exI [of _ "take nonceSize s"] exI [of _ p]) simp
qed

theorem valkey_get_authentic_witness:
  "\<exists>(v :: ((string \<times> string) list) valkey) nonce plain. map_of (vk_client v) ''ozpx:cred:A'' = Some (nonce @ aead_seal (vk_aead v) nonce plain ''A'') \<and>
     credentials_unmarshal plain = Some (demo_creds ''A'' 10)"
proof -
  obtain v1 where v1: "valkey_put demo_client (demo_creds ''A'' 10) demo_valkey = (None, v1)"
    using demo_put by blast
  obtain v2 where g: "valkey_get demo_client ''A'' v1 = (Inr (Some (demo_creds ''A'' 10)), v2)"
    using demo_get [OF demo_put_abs(2) [OF v1]] by blast
  from valkey_get_authentic [OF demo_client_lawful demo_put_abs(1) [OF v1] g] show ?thesis
    by (auto simp: valkeyPrefix_def intro!: exI [of _ v1])
qed



end
