(* ===== verification/Shared_Store.thy ===== *)
theory Shared_Store
  imports Samples Valkey
begin

text \<open>
  The rest of \<open>cmd/proxy/main.go\<close>: which credential store the configuration asks for
  (\<open>newStore\<close>), and the proxy wired to the shared store. The locale \<open>proxy_system\<close> applies to
  this wiring too, for a lawful client library and a configuration in UTF-8.
\<close>

section \<open>Choosing the store\<close>

definition envOr :: "(string \<Rightarrow> string) \<Rightarrow> string \<Rightarrow> string \<Rightarrow> string" where
  "envOr env key fallback = (if env key \<noteq> [] then env key else fallback)"

datatype 'v built_store = MemoryStore memory | ValkeyStore "'v valkey"

definition newStore ::
  "(string \<Rightarrow> string) \<Rightarrow> (string \<Rightarrow> string + 'v) \<Rightarrow> (nat \<Rightarrow> time) \<Rightarrow> rand_source \<Rightarrow> config \<Rightarrow> string + 'v built_store" where
  "newStore env connect clk g cfg =
     (let cs = cf_credential_store cfg in
      if cs_type cs = StoreValkey then
        let raw = env (cs_valkey_key_env cs) in
        if raw = [] then Inl (''credential_store.type '' @ [CHR 0x22] @ StoreValkey @ [CHR 0x22] @ '' requires the '' @ cs_valkey_key_env cs @
          '' environment variable (32-byte base64 key)'')
        else case ParseStoreKey raw of
          Inl e \<Rightarrow> Inl (cs_valkey_key_env cs @ '': '' @ e)
        | Inr key \<Rightarrow> map_sum id ValkeyStore (newValkey connect clk g (cs_valkey_addr cs) key [])
      else Inr (MemoryStore (newMemory [])))"

lemma ParseStoreKey_length: "ParseStoreKey s = Inr key \<Longrightarrow> length key = StoreKeyBytes"
  by (auto simp: ParseStoreKey_def split: option.splits if_splits)

text \<open>The proxy never runs on the shared store without a key of 256 bits. When \<open>newStore\<close>
  succeeds on a configuration that asks for Valkey, the store seals with the 32 bytes that the
  environment variable decodes to, keeps records for one hour after their expiry and is
  connected to the configured address; it never falls back to the memory store.\<close>

theorem newStore_valkey:
  assumes "newStore env connect clk g cfg = Inr st" "cs_type (cf_credential_store cfg) = StoreValkey"
  shows "\<exists>v. st = ValkeyStore v \<and> b64std_decode (env (cs_valkey_key_env (cf_credential_store cfg))) = Some (vk_aead v) \<and>
    valkey_inv v \<and> vk_retention v = hour \<and> connect (cs_valkey_addr (cf_credential_store cfg)) = Inr (vk_client v)"
proof -
  let ?raw = "env (cs_valkey_key_env (cf_credential_store cfg))"
  obtain key where key: "ParseStoreKey ?raw = Inr key"
    and st: "map_sum id ValkeyStore (newValkey connect clk g (cs_valkey_addr (cf_credential_store cfg)) key []) = Inr st"
    using assms by (auto simp: newStore_def Let_def split: if_splits sum.splits)
  have "b64std_decode ?raw = Some key" using key by (auto simp: ParseStoreKey_def split: option.splits if_splits)
  then show ?thesis
    using st ParseStoreKey_length [OF key] by (auto simp: newValkey_def newAEAD_def valkey_inv_def split: sum.splits)
qed

section \<open>The proxy on the shared store\<close>

definition valkey_server ::
  "config \<Rightarrow> url \<Rightarrow> ('c, 'k, 'set) jose \<Rightarrow> (request \<Rightarrow> upstream_result) \<Rightarrow> (string \<Rightarrow> string) \<Rightarrow>
   (sigv4_error \<Rightarrow> string) \<Rightarrow> 'w valkey_client \<Rightarrow> ('w valkey, 'c validator) server" where
  "valkey_server cfg target j up quote errtext cl =
     \<lparr>sv_cfg = cfg, sv_target = target, sv_store = valkey_impl cl, sv_validate = Validate j,
      sv_upstream = up, sv_quote = quote, sv_error_text = errtext\<rparr>"

definition valkey_state :: "config \<Rightarrow> 'w valkey \<Rightarrow> 'c \<Rightarrow> rand_source \<Rightarrow> ('w valkey, 'c validator) state" where
  "valkey_state cfg v cache g =
     \<lparr>ss_store = v, ss_validator = newValidator cfg cache, ss_rand = g, ss_metrics = newMetrics\<rparr>"

lemma valkey_server_simps [simp]:
  "sv_cfg (valkey_server cfg target j up quote errtext cl) = cfg"
  "sv_target (valkey_server cfg target j up quote errtext cl) = target"
  "sv_store (valkey_server cfg target j up quote errtext cl) = valkey_impl cl"
  "sv_validate (valkey_server cfg target j up quote errtext cl) = Validate j"
  "sv_upstream (valkey_server cfg target j up quote errtext cl) = up"
  by (simp_all add: valkey_server_def)

text \<open>Minted credentials are in UTF-8 when the username and the issuer's name are.\<close>

lemma b64url_char_ascii: "ord (b64url_char n) < 128"
  by (auto simp: b64url_char_def ord_char_of)

lemma b64url_encode_ascii: "c \<in> set (b64url_encode s) \<Longrightarrow> ord c < 128"
  by (induction s rule: b64url_encode.induct) (auto simp: b64url_char_ascii)

lemma mint_storable:
  assumes "mint u i t g = (Inr c, g')" "utf8_valid u" "utf8_valid i"
  shows "storable c"
proof -
  have b64: "\<forall>x \<in> set s. ord x < 128" if "randBase64URL n h = (Some s, h')" for n h s h'
    using that b64url_encode_ascii by (auto simp: randBase64URL_def split: prod.splits option.splits)
  have "\<forall>x \<in> set (cr_access_key_id c). ord x < 128"
    using mint_akid_alnum [OF assms(1)] by (auto simp: list_all_iff char_class_defs)
  moreover have "(\<forall>x \<in> set (cr_secret_access_key c). ord x < 128) \<and> (\<forall>x \<in> set (cr_session_token c). ord x < 128)"
    using assms(1) b64 unfolding mint_def by (auto split: prod.splits option.splits)
  moreover have "cr_username c = u" "cr_issuer c = i" using assms(1) by (auto elim: mint_Inr)
  ultimately show ?thesis using assms(2,3) by (simp add: storable_def utf8_valid_ascii)
qed

definition utf8_config :: "config \<Rightarrow> bool" where
  "utf8_config cfg \<longleftrightarrow> (\<forall>u. policy_validate (cf_username_policy cfg) u \<longrightarrow> utf8_valid u) \<and>
     (\<forall>iss \<in> set (cf_issuers cfg). utf8_valid (is_name iss))"

lemma Validate_issuer_name:
  assumes "validator_inv cfg v" "Validate j clk raw v = (Inr ident, v')"
  shows "\<exists>iss \<in> set (cf_issuers cfg). id_issuer_name ident = is_name iss"
proof -
  obtain url iss t where "map_of (va_by_issuer_url v) url = Some iss" "identityOf (va_policy v) (ist_cfg iss) t = Inr ident"
    using Validate_Inr [OF assms(2)] by metis
  then show ?thesis using validator_inv_lookup [OF assms(1)] identityOf_Inr by metis
qed

text \<open>What the server drops on its own, when a time to live ends, only shrinks its contents.\<close>

lemma valkey_proxy_system:
  assumes "valkey_lawful cl kv" "utf8_config cfg"
    and "\<And>now v. kv (vk_client (bg now v)) \<subseteq>\<^sub>m kv (vk_client v)" "\<And>now v. vk_aead (bg now v) = vk_aead v"
  shows "proxy_system (valkey_server cfg target j up quote errtext cl) (valkey_abs kv) valkey_inv storable
    (validator_inv cfg) (policy_validate (cf_username_policy cfg)) bg"
  unfolding proxy_system_def proxy_system_axioms_def valkey_server_simps
proof (intro conjI allI impI valkey_credential_store [OF assms(1)] oidc.token_validator_axioms)
  show "valkey_inv (bg now s)" if "valkey_inv s" for s now
    using that assms(4) by (simp add: valkey_inv_def)
  show "valkey_abs kv s k = Some c" if a: "valkey_abs kv (bg now s) k = Some c" for s now k c
  proof -
    obtain x where "kv (vk_client (bg now s)) (valkeyPrefix @ k) = Some x" "record_of (vk_aead s) k x = Some c"
      using a assms(4) by (auto simp: valkey_abs_def records_def bind_eq_Some_conv)
    moreover from this(1) have "kv (vk_client s) (valkeyPrefix @ k) = Some x"
      using assms(3) [of now s] by (metis domI map_le_def)
    ultimately show ?thesis by (simp add: valkey_abs_def records_def)
  qed
  show "storable c" if "validator_inv cfg v" "Validate j clk token v = (Inr ident, v')"
    "mint (id_username ident) (id_issuer_name ident) t g = (Inr c, g')" for v clk token ident v' t g c g'
    using mint_storable [OF that(3)] Validate_policy [OF that(1,2)] Validate_issuer_name [OF that(1,2)] assms(2)
    by (auto simp: utf8_config_def)
qed

end
