(* ===== verification/Go_Float.thy ===== *)
theory Go_Float
  imports Complex_Main Go_Encoding
begin

text \<open>
  Go's \<open>float64\<close>: binary64 values with the sign of zero, infinities and NaN, rounding to nearest,
  ties to even, the arithmetic that the program uses, and \<open>strconv.ParseFloat\<close>.
\<close>

section \<open>Values\<close>

text \<open>\<open>Fin s m e\<close> is \<open>m * 2 ^ e\<close>, negated when \<open>s\<close>; the mantissa has at most 53 bits, and the exponent of zero is 0.\<close>

datatype float64 = Fin bool int int | Infinite bool | NaN

section \<open>Rounding\<close>

function bitlen :: "int \<Rightarrow> int" where
  "bitlen n = (if n \<le> 0 then 0 else 1 + bitlen (n div 2))"
  by pat_completeness auto
termination
  by (relation "measure nat") auto

declare bitlen.simps [simp del]

text \<open>\<open>p / q\<close> divided by \<open>2 ^ e\<close>, as a fraction.\<close>

definition scaled :: "int \<Rightarrow> int \<Rightarrow> int \<Rightarrow> int \<times> int" where
  "scaled p q e = (if 0 \<le> e then (p, q * 2 ^ nat e) else (p * 2 ^ nat (- e), q))"

definition round_even :: "int \<Rightarrow> int \<Rightarrow> int" where
  "round_even n d = (let k = n div d; r = n mod d in if 2 * r < d \<or> 2 * r = d \<and> even k then k else k + 1)"

text \<open>The exponent of the nearest float of a positive fraction, before rounding.\<close>

definition float_exp :: "int \<Rightarrow> int \<Rightarrow> int" where
  "float_exp p q =
     (let e = bitlen p - bitlen q - 53; (n, d) = scaled p q e
      in max (- 1074) (if 2 ^ 53 * d \<le> n then e + 1 else e))"

definition of_frac :: "bool \<Rightarrow> int \<Rightarrow> int \<Rightarrow> float64" where
  "of_frac s p q =
     (if p = 0 then Fin s 0 0
      else
        let e = float_exp p q; (n, d) = scaled p q e; m = round_even n d;
            (m', e') = (if m = 2 ^ 53 then (2 ^ 52, e + 1) else (m, e))
        in if 971 < e' then Infinite s else Fin s m' e')"

definition of_dyadic :: "bool \<Rightarrow> int \<Rightarrow> int \<Rightarrow> float64" where
  "of_dyadic s n e = (if 0 \<le> e then of_frac s (n * 2 ^ nat e) 1 else of_frac s n (2 ^ nat (- e)))"

section \<open>Arithmetic\<close>

definition float_of_int :: "int \<Rightarrow> float64" where
  "float_of_int n = of_frac (n < 0) \<bar>n\<bar> 1"

definition with_sign :: "bool \<Rightarrow> int \<Rightarrow> int" where
  "with_sign s m = (if s then - m else m)"

fun fneg :: "float64 \<Rightarrow> float64" where
  "fneg (Fin s m e) = Fin (\<not> s) m e"
| "fneg (Infinite s) = Infinite (\<not> s)"
| "fneg NaN = NaN"

fun fadd :: "float64 \<Rightarrow> float64 \<Rightarrow> float64" where
  "fadd (Fin s1 m1 e1) (Fin s2 m2 e2) =
     (let e = min e1 e2;
          n = with_sign s1 m1 * 2 ^ nat (e1 - e) + with_sign s2 m2 * 2 ^ nat (e2 - e)
      in if n = 0 then Fin (s1 \<and> s2) 0 0 else of_dyadic (n < 0) \<bar>n\<bar> e)"
| "fadd (Infinite s1) (Infinite s2) = (if s1 = s2 then Infinite s1 else NaN)"
| "fadd (Infinite s) (Fin _ _ _) = Infinite s"
| "fadd (Fin _ _ _) (Infinite s) = Infinite s"
| "fadd NaN _ = NaN"
| "fadd _ NaN = NaN"

definition fsub :: "float64 \<Rightarrow> float64 \<Rightarrow> float64" where
  "fsub x y = fadd x (fneg y)"

fun fmul :: "float64 \<Rightarrow> float64 \<Rightarrow> float64" where
  "fmul (Fin s1 m1 e1) (Fin s2 m2 e2) = of_dyadic (s1 \<noteq> s2) (m1 * m2) (e1 + e2)"
| "fmul (Infinite s1) (Infinite s2) = Infinite (s1 \<noteq> s2)"
| "fmul (Infinite s1) (Fin s2 m _) = (if m = 0 then NaN else Infinite (s1 \<noteq> s2))"
| "fmul (Fin s1 m _) (Infinite s2) = (if m = 0 then NaN else Infinite (s1 \<noteq> s2))"
| "fmul NaN _ = NaN"
| "fmul _ NaN = NaN"

fun fdiv :: "float64 \<Rightarrow> float64 \<Rightarrow> float64" where
  "fdiv (Fin s1 m1 e1) (Fin s2 m2 e2) =
     (if m2 = 0 then (if m1 = 0 then NaN else Infinite (s1 \<noteq> s2))
      else if e2 \<le> e1 then of_frac (s1 \<noteq> s2) (m1 * 2 ^ nat (e1 - e2)) m2
      else of_frac (s1 \<noteq> s2) m1 (m2 * 2 ^ nat (e2 - e1)))"
| "fdiv (Infinite s1) (Infinite s2) = NaN"
| "fdiv (Infinite s1) (Fin s2 _ _) = Infinite (s1 \<noteq> s2)"
| "fdiv (Fin s1 _ _) (Infinite s2) = Fin (s1 \<noteq> s2) 0 0"
| "fdiv NaN _ = NaN"
| "fdiv _ NaN = NaN"

text \<open>The order; every comparison with NaN is false.\<close>

fun fless :: "float64 \<Rightarrow> float64 \<Rightarrow> bool" where
  "fless (Fin s1 m1 e1) (Fin s2 m2 e2) \<longleftrightarrow>
     with_sign s1 m1 * 2 ^ nat (e1 - min e1 e2) < with_sign s2 m2 * 2 ^ nat (e2 - min e1 e2)"
| "fless (Infinite s1) (Infinite s2) \<longleftrightarrow> s1 \<and> \<not> s2"
| "fless (Infinite s) (Fin _ _ _) \<longleftrightarrow> s"
| "fless (Fin _ _ _) (Infinite s) \<longleftrightarrow> \<not> s"
| "fless NaN _ \<longleftrightarrow> False"
| "fless _ NaN \<longleftrightarrow> False"

definition fle :: "float64 \<Rightarrow> float64 \<Rightarrow> bool" where
  "fle x y \<longleftrightarrow> x \<noteq> NaN \<and> y \<noteq> NaN \<and> \<not> fless y x"

text \<open>The conversion to \<open>int\<close> drops the fraction; what does not fit gives the smallest integer, as
  on amd64 (the language leaves it open).\<close>

definition float_trunc :: "float64 \<Rightarrow> int" where
  "float_trunc x = (case x of
     Fin s m e \<Rightarrow>
       let n = with_sign s (if 0 \<le> e then m * 2 ^ nat e else m div 2 ^ nat (- e))
       in if min_int64 \<le> n \<and> n \<le> max_int64 then n else min_int64
   | _ \<Rightarrow> min_int64)"

section \<open>Text to numbers\<close>

text \<open>\<open>underscoreOK\<close>: underscores must separate digits; a base prefix counts as a digit. \<open>saw\<close> is the
  kind of the last byte.\<close>

definition lower_x :: "char \<Rightarrow> bool" where "lower_x c \<longleftrightarrow> c = CHR ''x'' \<or> c = CHR ''X''"

fun underscores_from :: "bool \<Rightarrow> char \<Rightarrow> string \<Rightarrow> bool" where
  "underscores_from hex saw [] \<longleftrightarrow> saw \<noteq> CHR ''_''"
| "underscores_from hex saw (c # s) =
     (if is_digit c \<or> hex \<and> unhex c \<noteq> None then underscores_from hex (CHR ''0'') s
      else if c = CHR ''_'' then saw = CHR ''0'' \<and> underscores_from hex c s
      else saw \<noteq> CHR ''_'' \<and> underscores_from hex (CHR ''!'') s)"

definition strip_sign :: "string \<Rightarrow> string" where
  "strip_sign s = (if take 1 s = ''-'' \<or> take 1 s = ''+'' then drop 1 s else s)"

definition underscoreOK :: "string \<Rightarrow> bool" where
  "underscoreOK s =
     (let t = strip_sign s in
      if 2 \<le> length t \<and> t ! 0 = CHR ''0'' \<and> lower_char (t ! 1) \<in> set ''box''
      then underscores_from (lower_x (t ! 1)) (CHR ''0'') (drop 2 t)
      else underscores_from False (CHR ''^'') t)"

text \<open>\<open>Inf\<close>, \<open>Infinity\<close> and \<open>NaN\<close>, in any case.\<close>

definition special_float :: "string \<Rightarrow> float64 option" where
  "special_float s =
     (if to_lower (strip_sign s) \<in> {''inf'', ''infinity''} then Some (Infinite (take 1 s = ''-''))
      else if to_lower s = ''nan'' then Some NaN else None)"

definition float_digit :: "bool \<Rightarrow> char \<Rightarrow> bool" where
  "float_digit hex c \<longleftrightarrow> c = CHR ''_'' \<or> is_digit c \<or> hex \<and> unhex c \<noteq> None"

definition digits_in :: "int \<Rightarrow> string \<Rightarrow> int" where
  "digits_in base ds = foldl (\<lambda>n c. n * base + int (the (unhex c))) 0 ds"

definition no_underscores :: "string \<Rightarrow> string" where "no_underscores s = filter (\<lambda>c. c \<noteq> CHR ''_'') s"

text \<open>The exponent after its letter: a sign and digits, with the cap of the source.\<close>

definition read_exponent :: "string \<Rightarrow> int option" where
  "read_exponent s =
     (let ds = strip_sign s in
      if ds = [] \<or> \<not> is_digit (hd ds) \<or> \<not> list_all (\<lambda>c. c = CHR ''_'' \<or> is_digit c) ds then None
      else
        let e = foldl (\<lambda>e c. if e < 10000 then e * 10 + int (digit_val c) else e) 0 (no_underscores ds)
        in Some (if take 1 s = ''-'' then - e else e))"

text \<open>The digits before and after the point and the exponent, for the base 10 or 16.\<close>

definition read_float :: "string \<Rightarrow> (bool \<times> string \<times> string \<times> int) option" where
  "read_float s =
     (let t = strip_sign s;
          hex = (2 < length t \<and> t ! 0 = CHR ''0'' \<and> lower_x (t ! 1));
          body = (if hex then drop 2 t else t);
          ip = takeWhile (float_digit hex) body; r = dropWhile (float_digit hex) body;
          dot = (take 1 r = ''.'');
          fp = (if dot then takeWhile (float_digit hex) (drop 1 r) else []);
          r1 = (if dot then dropWhile (float_digit hex) (drop 1 r) else r)
      in if no_underscores (ip @ fp) = [] \<or> CHR ''_'' \<in> set s \<and> \<not> underscoreOK s then None
         else case r1 of
           [] \<Rightarrow> if hex then None else Some (hex, no_underscores ip, no_underscores fp, 0)
         | c # x \<Rightarrow>
             if lower_char c = (if hex then CHR ''p'' else CHR ''e'')
             then map_option (\<lambda>e. (hex, no_underscores ip, no_underscores fp, e)) (read_exponent x) else None)"

text \<open>\<open>strconv.ParseFloat\<close> to 64 bits; a number out of range is an error.\<close>

definition parse_float :: "string \<Rightarrow> float64 option" where
  "parse_float s =
     (case special_float s of
        Some x \<Rightarrow> Some x
      | None \<Rightarrow> (case read_float s of
            None \<Rightarrow> None
          | Some (hex, ip, fp, e) \<Rightarrow>
              let neg = (take 1 s = ''-'');
                  x = (if hex then of_dyadic neg (digits_in 16 (ip @ fp)) (e - 4 * int (length fp))
                       else
                         let n = digits_in 10 (ip @ fp); k = e - int (length fp)
                         in if 0 \<le> k then of_frac neg (n * 10 ^ nat k) 1 else of_frac neg n (10 ^ nat (- k)))
              in (case x of Infinite _ \<Rightarrow> None | _ \<Rightarrow> Some x)))"

section \<open>The order as an order\<close>

definition fval :: "float64 \<Rightarrow> int \<times> rat" where
  "fval x = (case x of
     Fin s m e \<Rightarrow> (0, of_int (with_sign s m) * 2 powi e)
   | Infinite s \<Rightarrow> (if s then - 1 else 1, 0)
   | NaN \<Rightarrow> (2, 0))"

lemma scale_powi:
  assumes "e \<le> e'"
  shows "(of_int (n * 2 ^ nat (e' - e)) :: rat) * 2 powi e = of_int n * 2 powi e'"
proof -
  have "(2 :: rat) powi e' = 2 powi (e + int (nat (e' - e)))" using assms by simp
  also have "\<dots> = 2 powi e * 2 ^ nat (e' - e)" by (subst power_int_add) (simp, simp only: power_int_of_nat)
  finally show ?thesis by simp
qed

lemma fless_iff: "fless x y \<longleftrightarrow> x \<noteq> NaN \<and> y \<noteq> NaN \<and> fval x < fval y"
proof (cases "\<exists>s1 m1 e1 s2 m2 e2. x = Fin s1 m1 e1 \<and> y = Fin s2 m2 e2")
  case True
  then obtain s1 m1 e1 s2 m2 e2 where xy: "x = Fin s1 m1 e1" "y = Fin s2 m2 e2" by blast
  let ?e = "min e1 e2"
  let ?a = "with_sign s1 m1 * 2 ^ nat (e1 - ?e)" and ?b = "with_sign s2 m2 * 2 ^ nat (e2 - ?e)"
  have "?a < ?b \<longleftrightarrow> (of_int ?a :: rat) * 2 powi ?e < of_int ?b * 2 powi ?e"
    by (subst mult_less_cancel_right_pos) (simp_all only: of_int_less_iff zero_less_power_int zero_less_numeral)
  then show ?thesis
    unfolding xy fless.simps(1) scale_powi [OF min.cobounded1] scale_powi [OF min.cobounded2] by (simp add: fval_def)
next
  case False
  then show ?thesis by (cases x; cases y) (auto simp: fval_def)
qed

lemma fle_iff: "fle x y \<longleftrightarrow> x \<noteq> NaN \<and> y \<noteq> NaN \<and> fval x \<le> fval y"
  by (auto simp: fle_def fless_iff)

section \<open>Rounding is exact on representable numbers\<close>

lemma bitlen_bounds: "0 < p \<Longrightarrow> 0 < bitlen p \<and> 2 ^ nat (bitlen p - 1) \<le> p \<and> p < 2 ^ nat (bitlen p)"
proof (induction p rule: bitlen.induct)
  case (1 p)
  have b: "bitlen p = 1 + bitlen (p div 2)" using 1(2) by (simp add: bitlen.simps [of p])
  show ?case
  proof (cases "p = 1")
    case True
    then have "bitlen p = 1" by (simp add: b) (simp add: bitlen.simps)
    then show ?thesis using True by simp
  next
    case False
    then have "0 < p div 2" using 1(2) by simp
    then have h: "0 < bitlen (p div 2)" "2 ^ nat (bitlen (p div 2) - 1) \<le> p div 2" "p div 2 < 2 ^ nat (bitlen (p div 2))"
      using 1(1) 1(2) by simp_all
    have "nat (bitlen (p div 2)) = Suc (nat (bitlen (p div 2) - 1))" "nat (1 + bitlen (p div 2)) = Suc (nat (bitlen (p div 2)))"
      using h(1) by simp_all
    then have "(2 :: int) ^ nat (bitlen (p div 2)) = 2 * 2 ^ nat (bitlen (p div 2) - 1)"
      "(2 :: int) ^ nat (1 + bitlen (p div 2)) = 2 * 2 ^ nat (bitlen (p div 2))" by simp_all
    moreover have "2 * (p div 2) \<le> p" "p < 2 * (p div 2) + 2" by simp_all
    ultimately have "2 ^ nat (bitlen (p div 2)) \<le> p" "p < 2 ^ nat (1 + bitlen (p div 2))" using h(2,3) by linarith+
    then show ?thesis using h(1) b by simp
  qed
qed

abbreviation two_powi :: "int \<Rightarrow> rat" where "two_powi e \<equiv> 2 powi e"

lemma two_powi_nat: "0 \<le> e \<Longrightarrow> two_powi e = of_int (2 ^ nat e)"
  by (simp add: power_int_def)

lemma bitlen_powi:
  assumes "0 < p"
  shows "two_powi (bitlen p - 1) \<le> of_int p" "of_int p < two_powi (bitlen p)"
  using bitlen_bounds [OF assms] two_powi_nat [of "bitlen p - 1"] two_powi_nat [of "bitlen p"]
  by (auto simp: of_int_le_iff of_int_less_iff simp del: of_int_power)

lemma scaled_frac:
  assumes "0 < q" "scaled p q e = (n, d)"
  shows "0 < d" "(of_int n :: rat) / of_int d = of_int p / of_int q * two_powi (- e)"
proof -
  show "0 < d" using assms by (auto simp: scaled_def split: if_splits)
  show "(of_int n :: rat) / of_int d = of_int p / of_int q * two_powi (- e)"
  proof (cases "0 \<le> e")
    case True
    then show ?thesis using assms two_powi_nat [OF True] by (auto simp: scaled_def power_int_minus field_simps)
  next
    case False
    then show ?thesis using assms two_powi_nat [of "- e"] by (auto simp: scaled_def)
  qed
qed

text \<open>The exponent normalizes the fraction, unless it is subnormal.\<close>

lemma frac_bounds:
  assumes "0 < p" "0 < q"
  shows "two_powi (bitlen p - bitlen q - 1) < of_int p / of_int q" "of_int p / of_int q < two_powi (bitlen p - bitlen q + 1)"
proof -
  have pos: "0 < (of_int p :: rat)" "0 < (of_int q :: rat)" using assms by simp_all
  note bp = bitlen_powi [OF assms(1)] and bq = bitlen_powi [OF assms(2)]
  have "two_powi (bitlen p - bitlen q - 1) = two_powi (bitlen p - 1) / two_powi (bitlen q)"
    by (simp flip: power_int_diff) (simp add: algebra_simps)
  also have "\<dots> < of_int p / of_int q" using bp(1) bq(2) pos by (intro frac_less2) simp_all
  finally show "two_powi (bitlen p - bitlen q - 1) < of_int p / of_int q" .
  have "of_int p / of_int q < two_powi (bitlen p) / two_powi (bitlen q - 1)"
    using bp(2) bq(1) pos by (intro frac_less) simp_all
  also have "\<dots> = two_powi (bitlen p - bitlen q + 1)"
    by (simp flip: power_int_diff) (simp add: algebra_simps)
  finally show "of_int p / of_int q < two_powi (bitlen p - bitlen q + 1)" .
qed

lemma float_exp_bounds:
  assumes "0 < p" "0 < q"
  shows "\<exists>F. float_exp p q = max (- 1074) F \<and> 2 ^ 52 \<le> of_int p / of_int q * two_powi (- F) \<and>
    of_int p / of_int q * two_powi (- F) < (2 ^ 53 :: rat)"
proof -
  define x :: rat where "x = of_int p / of_int q"
  define E where "E = bitlen p - bitlen q - 53"
  obtain n d where nd: "scaled p q E = (n, d)" by fastforce
  note sc = scaled_frac [OF assms(2) nd, folded x_def]
  have sum: "two_powi a * two_powi b = two_powi (a + b)" for a b by (rule power_int_add [symmetric]) simp
  have "two_powi (E + 52) < x" "x < two_powi (E + 54)"
    using frac_bounds [OF assms] by (simp_all add: x_def E_def algebra_simps)
  then have "two_powi (E + 52) * two_powi (- E) < x * two_powi (- E)" "x * two_powi (- E) < two_powi (E + 54) * two_powi (- E)"
    by (simp_all add: mult_less_cancel_right_pos)
  then have lo: "2 ^ 52 < x * two_powi (- E)" and hi: "x * two_powi (- E) < 2 ^ 54" unfolding sum by simp_all
  have half: "x * two_powi (- (E + 1)) = x * two_powi (- E) / 2"
    using sum [of "- E" "- 1"] by (simp add: algebra_simps)
  have le: "2 ^ 53 * d \<le> n \<longleftrightarrow> 2 ^ 53 \<le> x * two_powi (- E)"
  proof -
    have "2 ^ 53 * d \<le> n \<longleftrightarrow> (of_int (2 ^ 53 * d) :: rat) \<le> of_int n" by (simp only: of_int_le_iff)
    also have "\<dots> \<longleftrightarrow> 2 ^ 53 \<le> (of_int n :: rat) / of_int d" using sc(1) by (simp add: pos_le_divide_eq)
    finally show ?thesis by (simp only: sc(2))
  qed
  show ?thesis
    unfolding x_def [symmetric]
  proof (cases "2 ^ 53 * d \<le> n")
    case True
    then have "float_exp p q = max (- 1074) (E + 1)" by (simp add: float_exp_def nd [unfolded E_def] E_def Let_def)
    moreover have "2 ^ 52 \<le> x * two_powi (- (E + 1))" "x * two_powi (- (E + 1)) < 2 ^ 53"
      using True le hi unfolding half by simp_all
    ultimately show "\<exists>F. float_exp p q = max (- 1074) F \<and> 2 ^ 52 \<le> x * two_powi (- F) \<and> x * two_powi (- F) < 2 ^ 53"
      by blast
  next
    case False
    then have "float_exp p q = max (- 1074) E" by (simp add: float_exp_def nd [unfolded E_def] E_def Let_def)
    moreover have "2 ^ 52 \<le> x * two_powi (- E)" "x * two_powi (- E) < 2 ^ 53" using False le lo by simp_all
    ultimately show "\<exists>F. float_exp p q = max (- 1074) F \<and> 2 ^ 52 \<le> x * two_powi (- F) \<and> x * two_powi (- F) < 2 ^ 53"
      by blast
  qed
qed

lemma round_even_exact: "0 < d \<Longrightarrow> round_even (k * d) d = k"
  by (simp add: round_even_def)

lemma of_frac_exact:
  assumes "0 < p" "0 < q" "0 < m" "m < 2 ^ 53" "- 1074 \<le> e" "e \<le> 971"
    and "(of_int p :: rat) / of_int q = of_int m * two_powi e"
  shows "\<exists>m' e'. of_frac s p q = Fin s m' e' \<and> of_int m' * two_powi e' = (of_int m :: rat) * two_powi e \<and>
    0 < m' \<and> m' < 2 ^ 53 \<and> - 1074 \<le> e' \<and> e' \<le> e"
proof -
  obtain F where F: "float_exp p q = max (- 1074) F" "2 ^ 52 \<le> of_int p / of_int q * two_powi (- F)"
    "of_int p / of_int q * two_powi (- F) < (2 ^ 53 :: rat)"
    using float_exp_bounds [OF assms(1,2)] by blast
  have sum: "two_powi a * two_powi b = two_powi (a + b)" for a b by (rule power_int_add [symmetric]) simp
  have "F \<le> e"
  proof (rule ccontr)
    assume "\<not> F \<le> e"
    then have "two_powi (e - F) \<le> two_powi (- 1)" by (intro power_int_increasing) simp_all
    then have "of_int m * two_powi (e - F) \<le> of_int m * (1 / 2)" using assms(3) by (intro mult_left_mono) simp_all
    moreover have "(of_int m :: rat) < 2 ^ 53"
      using assms(4) by (metis of_int_less_iff of_int_numeral of_int_power)
    ultimately have "of_int m * two_powi (e - F) < 2 ^ 52" by simp
    then show False using F(2) unfolding assms(7) mult.assoc sum by simp
  qed
  define f where "f = float_exp p q"
  have f: "- 1074 \<le> f" "f \<le> e" using F(1) \<open>F \<le> e\<close> assms(5) by (simp_all add: f_def)
  obtain n d where nd: "scaled p q f = (n, d)" by fastforce
  note sc = scaled_frac [OF assms(2) nd]
  define k where "k = m * 2 ^ nat (e - f)"
  have "(of_int n :: rat) / of_int d = of_int k"
  proof -
    have "(of_int n :: rat) / of_int d = of_int m * two_powi (e - f)" using sc(2) unfolding assms(7) mult.assoc sum by simp
    also have "\<dots> = of_int k" using two_powi_nat [of "e - f"] f(2) by (simp add: k_def)
    finally show ?thesis .
  qed
  then have "(of_int n :: rat) = of_int (k * d)" using sc(1) by (simp add: field_simps)
  then have n: "n = k * d" by (simp only: of_int_eq_iff)
  have val: "of_int k * two_powi f = (of_int m :: rat) * two_powi e" using scale_powi [OF f(2), of m] by (simp add: k_def)
  have pos: "0 < k" using assms(3) by (simp add: k_def)
  have "(of_int k :: rat) < 2 ^ 53"
  proof -
    have "(of_int k :: rat) = of_int p / of_int q * two_powi (- f)"
      using sc(2) n sc(1) by simp
    also have "\<dots> \<le> of_int p / of_int q * two_powi (- F)"
      using assms(1,2) F(1) by (intro mult_left_mono power_int_increasing) (simp_all add: f_def)
    finally show ?thesis using F(3) by simp
  qed
  then have k: "k < 2 ^ 53" by (metis of_int_less_iff of_int_numeral of_int_power)
  have "of_frac s p q = Fin s k f"
    using nd n k round_even_exact [OF sc(1), of k] f(2) assms(1,6) by (simp add: of_frac_def Let_def f_def)
  then show ?thesis using val pos k f by blast
qed

section \<open>Whole numbers\<close>

text \<open>Integers of at most 53 bits are floats.\<close>

lemma of_frac_int:
  assumes "0 \<le> n" "n < 2 ^ 53"
  shows "fval (of_frac s n 1) = (0, of_int (with_sign s n))"
proof (cases "n = 0")
  case False
  then obtain m e where "of_frac s n 1 = Fin s m e" "of_int m * two_powi e = (of_int n :: rat)"
    using of_frac_exact [of n 1 n 0 s] assms by auto
  then show ?thesis by (auto simp: fval_def with_sign_def)
qed (simp add: of_frac_def fval_def with_sign_def)

lemma float_of_int_exact: "\<bar>n\<bar> < 2 ^ 53 \<Longrightarrow> fval (float_of_int n) = (0, of_int n)"
  unfolding float_of_int_def by (subst of_frac_int) (simp_all add: with_sign_def)

text \<open>Arithmetic on them is exact as long as the results stay in this range.\<close>

definition float_is :: "float64 \<Rightarrow> int \<Rightarrow> bool" where
  "float_is x n \<longleftrightarrow> (\<exists>m e. x = Fin False m e \<and> 0 < m \<and> of_int m * two_powi e = (of_int n :: rat))"

lemma float_is_frac:
  assumes "0 < p" "0 < q" "0 < n" "n < 2 ^ 53" "(of_int p :: rat) / of_int q = of_int n"
  shows "float_is (of_frac False p q) n"
proof -
  obtain m e where "of_frac False p q = Fin False m e" "of_int m * two_powi e = (of_int n :: rat)" "0 < m"
    using of_frac_exact [OF assms(1-4), of 0 False] assms(5) by auto
  then show ?thesis by (auto simp: float_is_def)
qed

lemma float_is_int: "0 < n \<Longrightarrow> n < 2 ^ 53 \<Longrightarrow> float_is (float_of_int n) n"
  using float_is_frac [of n 1 n] by (simp add: float_of_int_def)

lemma float_is_mul:
  assumes "float_is x a" "float_is y b" "0 < a * b" "a * b < 2 ^ 53"
  shows "float_is (fmul x y) (a * b)"
proof -
  obtain m1 e1 m2 e2 where x: "x = Fin False m1 e1" "0 < m1" "of_int m1 * two_powi e1 = (of_int a :: rat)"
    and y: "y = Fin False m2 e2" "0 < m2" "of_int m2 * two_powi e2 = (of_int b :: rat)"
    using assms(1,2) by (auto simp: float_is_def)
  have v: "of_int (m1 * m2) * two_powi (e1 + e2) = (of_int (a * b) :: rat)"
    using power_int_add [of "2 :: rat" e1 e2] by (simp flip: x(3) y(3))
  show ?thesis
  proof (cases "0 \<le> e1 + e2")
    case True
    then have "float_is (of_frac False (m1 * m2 * 2 ^ nat (e1 + e2)) 1) (a * b)"
      using x(2) y(2) v two_powi_nat [OF True] assms(3,4) by (intro float_is_frac) simp_all
    then show ?thesis using True x(1) y(1) by (simp add: of_dyadic_def)
  next
    case False
    have "two_powi (e1 + e2) = 1 / of_int (2 ^ nat (- (e1 + e2)))"
      using False two_powi_nat [of "- (e1 + e2)"] power_int_minus [of "2 :: rat" "- (e1 + e2)"] by (simp add: field_simps)
    then have "float_is (of_frac False (m1 * m2) (2 ^ nat (- (e1 + e2)))) (a * b)"
      using x(2) y(2) v assms(3,4) by (intro float_is_frac) simp_all
    then show ?thesis using False x(1) y(1) by (simp add: of_dyadic_def)
  qed
qed

lemma float_is_div:
  assumes "float_is x (k * b)" "float_is y b" "0 < k" "k < 2 ^ 53"
  shows "float_is (fdiv x y) k"
proof -
  obtain m1 e1 m2 e2 where x: "x = Fin False m1 e1" "0 < m1" "of_int m1 * two_powi e1 = (of_int (k * b) :: rat)"
    and y: "y = Fin False m2 e2" "0 < m2" "of_int m2 * two_powi e2 = (of_int b :: rat)"
    using assms(1,2) by (auto simp: float_is_def)
  have eq: "of_int m1 * two_powi e1 = of_int k * (of_int m2 * two_powi e2)" using x(3) y(3) by simp
  show ?thesis
  proof (cases "e2 \<le> e1")
    case True
    have "of_int (m1 * 2 ^ nat (e1 - e2)) * two_powi e2 = of_int (k * m2) * two_powi e2"
      unfolding scale_powi [OF True] eq by simp
    then have "(of_int (m1 * 2 ^ nat (e1 - e2)) :: rat) / of_int m2 = of_int k" using y(2) by (simp add: field_simps)
    then have "float_is (of_frac False (m1 * 2 ^ nat (e1 - e2)) m2) k"
      using x(2) y(2) assms(3,4) by (intro float_is_frac) simp_all
    then show ?thesis using True x(1) y(1,2) by simp
  next
    case False
    then have le: "e1 \<le> e2" by simp
    have "of_int m1 * two_powi e1 = of_int (k * (m2 * 2 ^ nat (e2 - e1))) * two_powi e1"
      using eq scale_powi [OF le, of m2] by (simp only: of_int_mult mult.assoc)
    then have "(of_int m1 :: rat) / of_int (m2 * 2 ^ nat (e2 - e1)) = of_int k" using y(2) by (simp add: field_simps)
    then have "float_is (of_frac False m1 (m2 * 2 ^ nat (e2 - e1))) k"
      using x(2) y(2) assms(3,4) by (intro float_is_frac) simp_all
    then show ?thesis using False x(1) y(1,2) by simp
  qed
qed

lemma float_is_trunc:
  assumes "float_is x n" "n \<le> max_int64"
  shows "float_trunc x = n"
proof -
  obtain m e where x: "x = Fin False m e" "0 < m" "of_int m * two_powi e = (of_int n :: rat)"
    using assms(1) by (auto simp: float_is_def)
  have "(0 :: rat) < of_int n" using x(2) by (simp flip: x(3))
  then have pos: "0 < n" by simp
  have "(if 0 \<le> e then m * 2 ^ nat e else m div 2 ^ nat (- e)) = n"
  proof (cases "0 \<le> e")
    case True
    then have "(of_int (m * 2 ^ nat e) :: rat) = of_int n" using x(3) two_powi_nat [OF True] by simp
    then show ?thesis using True by (simp only: of_int_eq_iff) simp
  next
    case False
    then have "(of_int m :: rat) = of_int (n * 2 ^ nat (- e))"
      using scale_powi [of e 0 "n"] scale_powi [of e 0 n] x(3) False
      by (metis (no_types, opaque_lifting) diff_0 linorder_linear mult_cancel_right mult.right_neutral power_int_0_right
          power_int_not_zero zero_neq_numeral)
    then have "m = n * 2 ^ nat (- e)" by (simp only: of_int_eq_iff)
    then show ?thesis using False by simp
  qed
  then show ?thesis using assms(2) pos x(1) by (simp add: float_trunc_def with_sign_def min_int64_def)
qed

end
