(* ===== verification/Go_Flag.thy ===== *)
theory Go_Flag
  imports Go_Float "HOL-Library.AList"
begin

text \<open>
  Go's package \<open>flag\<close>: \<open>flag.Parse\<close> on the arguments of a command. A flag has a name, a default
  and the conversion of its argument; a boolean flag needs no argument. Parsing stops at the
  first argument that is not a flag and after \<open>--\<close>. An error ends the command with status 2,
  \<open>-h\<close> and \<open>-help\<close> with status 0, unless a flag has this name.
\<close>

datatype flag_value = FlagString string | FlagBool bool | FlagInt int | FlagFloat float64

record flag =
  fl_name :: string
  fl_bool :: bool
  fl_default :: flag_value
  fl_parse :: "string \<Rightarrow> flag_value option"

datatype flag_outcome = FlagsParsed "(string \<times> flag_value) list" "string list" | FlagsExit nat

definition string_flag :: "string \<Rightarrow> string \<Rightarrow> flag" where
  "string_flag name v = \<lparr>fl_name = name, fl_bool = False, fl_default = FlagString v, fl_parse = (\<lambda>s. Some (FlagString s))\<rparr>"

definition bool_flag :: "string \<Rightarrow> bool \<Rightarrow> flag" where
  "bool_flag name v = \<lparr>fl_name = name, fl_bool = True, fl_default = FlagBool v,
     fl_parse = (\<lambda>s. map_option FlagBool (parse_bool s))\<rparr>"

text \<open>\<open>strconv.ParseInt\<close> with base 0: the prefix gives the base, underscores may separate digits.\<close>

definition parse_int :: "string \<Rightarrow> int option" where
  "parse_int s =
     (let t = strip_sign s;
          prefix = (if 3 \<le> length t \<and> t ! 0 = CHR ''0'' then lower_char (t ! 1) else CHR ''?'');
          (base, ds) = (if prefix = CHR ''b'' then (2, drop 2 t) else if prefix = CHR ''o'' then (8, drop 2 t)
            else if prefix = CHR ''x'' then (16, drop 2 t) else if take 1 t = ''0'' then (8, drop 1 t) else (10, t));
          n = digits_in (int base) (no_underscores ds); v = (if take 1 s = ''-'' then - n else n)
      in if t = [] \<or> CHR ''_'' \<in> set t \<and> \<not> underscoreOK t \<or>
            \<not> list_all (\<lambda>c. case unhex c of None \<Rightarrow> False | Some d \<Rightarrow> d < base) (no_underscores ds) \<or>
            v < min_int64 \<or> max_int64 < v
         then None else Some v)"

definition int_flag :: "string \<Rightarrow> int \<Rightarrow> flag" where
  "int_flag name v = \<lparr>fl_name = name, fl_bool = False, fl_default = FlagInt v,
     fl_parse = (\<lambda>s. map_option FlagInt (parse_int s))\<rparr>"

definition float_flag :: "string \<Rightarrow> float64 \<Rightarrow> flag" where
  "float_flag name v = \<lparr>fl_name = name, fl_bool = False, fl_default = FlagFloat v,
     fl_parse = (\<lambda>s. map_option FlagFloat (parse_float s))\<rparr>"

text \<open>The head of an argument list: not a flag, the mark \<open>--\<close>, a syntax error, or a name with the
  value after an equals sign, if there is one. The sign is looked for after the first byte.\<close>

datatype flag_head = NoFlag | EndOfFlags | BadFlag | FlagNamed string "string option"

definition flag_head :: "string \<Rightarrow> flag_head" where
  "flag_head s =
     (if length s < 2 \<or> take 1 s \<noteq> ''-'' then NoFlag
      else if s = ''--'' then EndOfFlags
      else
        let name = (if take 2 s = ''--'' then drop 2 s else drop 1 s) in
        if name = [] \<or> hd name = CHR ''-'' \<or> hd name = CHR ''='' then BadFlag
        else (case cut (CHR ''='') (tl name) of (n, v, found) \<Rightarrow>
          FlagNamed (hd name # n) (if found then Some v else None)))"

fun parse_flags :: "flag list \<Rightarrow> (string \<times> flag_value) list \<Rightarrow> string list \<Rightarrow> flag_outcome" where
  "parse_flags fs vals [] = FlagsParsed vals []"
| "parse_flags fs vals (s # args) =
     (case flag_head s of
        NoFlag \<Rightarrow> FlagsParsed vals (s # args)
      | EndOfFlags \<Rightarrow> FlagsParsed vals args
      | BadFlag \<Rightarrow> FlagsExit 2
      | FlagNamed name v \<Rightarrow>
          (case find (\<lambda>f. fl_name f = name) fs of
             None \<Rightarrow> FlagsExit (if name = ''help'' \<or> name = ''h'' then 0 else 2)
           | Some f \<Rightarrow>
               (case v of
                  Some x \<Rightarrow> (case fl_parse f x of
                      None \<Rightarrow> FlagsExit 2 | Some y \<Rightarrow> parse_flags fs (AList.update name y vals) args)
                | None \<Rightarrow>
                    if fl_bool f then parse_flags fs (AList.update name (FlagBool True) vals) args
                    else (case args of
                        [] \<Rightarrow> FlagsExit 2
                      | x # rest \<Rightarrow> (case fl_parse f x of
                            None \<Rightarrow> FlagsExit 2 | Some y \<Rightarrow> parse_flags fs (AList.update name y vals) rest)))))"

definition flag_parse :: "flag list \<Rightarrow> string list \<Rightarrow> flag_outcome" where
  "flag_parse fs args = parse_flags fs (map (\<lambda>f. (fl_name f, fl_default f)) fs) args"

definition flag_string :: "(string \<times> flag_value) list \<Rightarrow> string \<Rightarrow> string" where
  "flag_string vals name = (case map_of vals name of Some (FlagString s) \<Rightarrow> s | _ \<Rightarrow> [])"

definition flag_bool :: "(string \<times> flag_value) list \<Rightarrow> string \<Rightarrow> bool" where
  "flag_bool vals name = (case map_of vals name of Some (FlagBool b) \<Rightarrow> b | _ \<Rightarrow> False)"

definition flag_int :: "(string \<times> flag_value) list \<Rightarrow> string \<Rightarrow> int" where
  "flag_int vals name = (case map_of vals name of Some (FlagInt n) \<Rightarrow> n | _ \<Rightarrow> 0)"

definition flag_float :: "(string \<times> flag_value) list \<Rightarrow> string \<Rightarrow> float64" where
  "flag_float vals name = (case map_of vals name of Some (FlagFloat x) \<Rightarrow> x | _ \<Rightarrow> NaN)"

section \<open>Facts\<close>

lemma flag_parse_none [simp]: "flag_parse fs [] = FlagsParsed (map (\<lambda>f. (fl_name f, fl_default f)) fs) []"
  by (simp add: flag_parse_def)

end
