(* ===== verification/Proxy_Main.thy ===== *)
theory Proxy_Main
  imports Shared_Store Go_Flag
begin

text \<open>
  The life of the proxy process, \<open>main\<close> of \<open>cmd/proxy/main.go\<close>: the flag and the configuration
  file, the store, the validator and the server, the two listeners, and the shutdown when a
  signal arrives or a listener returns. A run is the sequence of what the process does, up to
  its exit status. The file system, the YAML decoder, the regular expression compiler and the
  Valkey client are parameters, and so is what ends the wait in the \<open>select\<close>: when a signal
  and a listener are both ready, Go picks either.
\<close>

datatype wake = SignalReceived | ListenerReturned bool

datatype process_event =
    Logged string
  | ListenAndServe string
  | ShutdownListener string
  | StoreClosed
  | ExitStatus nat

record 'v process =
  ps_args :: "string list"
  ps_env :: "string \<Rightarrow> string"
  ps_read_file :: "string \<Rightarrow> string option"
  ps_decode :: "string \<Rightarrow> config_error + config"
  ps_compile :: "string \<Rightarrow> (string \<Rightarrow> bool) option"
  ps_connect :: "string \<Rightarrow> string + 'v"
  ps_clock :: "nat \<Rightarrow> time"
  ps_rand :: rand_source
  ps_wake :: wake

text \<open>\<open>Load\<close>.\<close>

definition load_config ::
  "(string \<Rightarrow> string option) \<Rightarrow> (string \<Rightarrow> config_error + config) \<Rightarrow> (string \<Rightarrow> (string \<Rightarrow> bool) option) \<Rightarrow>
   (string \<Rightarrow> string) \<Rightarrow> string \<Rightarrow> config_error + config" where
  "load_config read_file decode compile env path =
     (case read_file path of
        None \<Rightarrow> Inl [''read config'']
      | Some raw \<Rightarrow> parse_config decode compile env raw)"

definition proxy_flags :: "(string \<Rightarrow> string) \<Rightarrow> flag list" where
  "proxy_flags env = [string_flag ''config'' (envOr env ''OZPX_CONFIG'' ''/etc/ozone-oidc-proxy/config.yaml'')]"

definition process_config :: "'v process \<Rightarrow> string \<Rightarrow> config_error + config" where
  "process_config ps path = load_config (ps_read_file ps) (ps_decode ps) (ps_compile ps) (ps_env ps) path"

definition process_store :: "'v process \<Rightarrow> config \<Rightarrow> string + 'v built_store" where
  "process_store ps cfg = newStore (ps_env ps) (ps_connect ps) (ps_clock ps) (ps_rand ps) cfg"

text \<open>The listeners run until one of them returns or a signal arrives. A listener that returns
  with \<open>ErrServerClosed\<close> (\<open>ListenerReturned True\<close>) is not reported. On the way out the deferred
  calls close the store.\<close>

definition serve_until :: "config \<Rightarrow> wake \<Rightarrow> process_event list" where
  "serve_until cfg w =
     [ListenAndServe (cf_listen cfg), ListenAndServe (cf_admin_listen cfg), Logged ''ozone-oidc-proxy started''] @
     (case w of
        SignalReceived \<Rightarrow> [Logged ''signal received, shutting down'']
      | ListenerReturned graceful \<Rightarrow> if graceful then [] else [Logged ''listener failed'']) @
     [ShutdownListener (cf_listen cfg), ShutdownListener (cf_admin_listen cfg), StoreClosed, ExitStatus 0]"

definition proxy_main :: "'v process \<Rightarrow> process_event list" where
  "proxy_main ps =
     (case flag_parse (proxy_flags (ps_env ps)) (ps_args ps) of
        FlagsExit n \<Rightarrow> [ExitStatus n]
      | FlagsParsed vals _ \<Rightarrow>
          (case process_config ps (flag_string vals ''config'') of
             Inl _ \<Rightarrow> [Logged ''configuration rejected'', ExitStatus 1]
           | Inr cfg \<Rightarrow>
               (case process_store ps cfg of
                  Inl _ \<Rightarrow> [Logged ''credential store init failed'', ExitStatus 1]
                | Inr _ \<Rightarrow>
                    (case url_parse (uc_s3_endpoint (cf_upstream cfg)) of
                       None \<Rightarrow> [Logged ''server init failed'', ExitStatus 1]
                     | Some _ \<Rightarrow> serve_until cfg (ps_wake ps)))))"

section \<open>Facts\<close>

lemma parse_config_validated:
  assumes "parse_config decode compile env raw = Inr c"
  shows "config_ok c" "defaults_ok c"
  using assms validate_ok validate_keeps applyDefaults_ok by (auto simp: parse_config_def res_iff)

lemma process_config_validated:
  assumes "process_config ps path = Inr cfg"
  shows "config_ok cfg" "defaults_ok cfg"
  using assms parse_config_validated by (auto simp: process_config_def load_config_def split: option.splits)

text \<open>A process that gets to its listeners.\<close>

lemma proxy_main_listens:
  assumes "ListenAndServe a \<in> set (proxy_main ps)"
  obtains vals rest cfg st where "flag_parse (proxy_flags (ps_env ps)) (ps_args ps) = FlagsParsed vals rest"
    "process_config ps (flag_string vals ''config'') = Inr cfg" "process_store ps cfg = Inr st"
    "a \<in> {cf_listen cfg, cf_admin_listen cfg}" "proxy_main ps = serve_until cfg (ps_wake ps)"
proof -
  from assms obtain vals rest cfg st u where
    s: "flag_parse (proxy_flags (ps_env ps)) (ps_args ps) = FlagsParsed vals rest"
    "process_config ps (flag_string vals ''config'') = Inr cfg" "process_store ps cfg = Inr st"
    "url_parse (uc_s3_endpoint (cf_upstream cfg)) = Some u"
    unfolding proxy_main_def by (auto split: flag_outcome.splits sum.splits option.splits)
  then have "proxy_main ps = serve_until cfg (ps_wake ps)" by (simp add: proxy_main_def)
  then show thesis
    using that [OF s(1-3)] assms by (auto simp: serve_until_def split: wake.splits if_splits)
qed

section \<open>Properties\<close>


text \<open>C26: the exit status. The process ends with status 1 exactly when its configuration or its
  store is refused; in every other case that gets past the flags it listens, shuts both
  listeners down, closes the store and ends with status 0, also when it ends because a
  listener failed, for example because the port was taken.\<close>

theorem proxy_exit_status:
  assumes "flag_parse (proxy_flags (ps_env ps)) (ps_args ps) = FlagsParsed vals rest"
  shows "(last (proxy_main ps) = ExitStatus 1 \<longleftrightarrow>
      isl (process_config ps (flag_string vals ''config'')) \<or>
      (\<exists>cfg. process_config ps (flag_string vals ''config'') = Inr cfg \<and> isl (process_store ps cfg))) \<and>
    (last (proxy_main ps) \<noteq> ExitStatus 1 \<longrightarrow> last (proxy_main ps) = ExitStatus 0 \<and> StoreClosed \<in> set (proxy_main ps)) \<and>
    (Logged ''listener failed'' \<in> set (proxy_main ps) \<longrightarrow> last (proxy_main ps) = ExitStatus 0)"
proof (cases "process_config ps (flag_string vals ''config'')")
  case (Inl e)
  then show ?thesis using assms by (simp add: proxy_main_def)
next
  case (Inr cfg)
  obtain target where "url_parse (uc_s3_endpoint (cf_upstream cfg)) = Some target"
    using process_config_validated(1) [OF Inr] by (auto simp: config_ok_def)
  then show ?thesis
    using assms Inr by (cases "process_store ps cfg") (simp_all add: proxy_main_def serve_until_def)
qed

definition demo_process :: "wake \<Rightarrow> unit process" where
  "demo_process w = \<lparr>ps_args = [''-config'', ''/etc/p.yaml''], ps_env = (\<lambda>_. []),
     ps_read_file = (\<lambda>p. if p = ''/etc/p.yaml'' then Some [] else None), ps_decode = (\<lambda>_. Inr demo_document),
     ps_compile = (\<lambda>_. Some default_username), ps_connect = (\<lambda>_. Inl ''refused''), ps_clock = (\<lambda>_. 0),
     ps_rand = sample_rand, ps_wake = w\<rparr>"

lemma demo_process_run:
  "proxy_main (demo_process (ListenerReturned False)) =
     [ListenAndServe ''0.0.0.0:9000'', ListenAndServe ''0.0.0.0:9090'', Logged ''ozone-oidc-proxy started'',
      Logged ''listener failed'', ShutdownListener ''0.0.0.0:9000'', ShutdownListener ''0.0.0.0:9090'', StoreClosed, ExitStatus 0]"
  by code_simp


theorem proxy_exit_status_witness:
  "last (proxy_main (demo_process (ListenerReturned False))) = ExitStatus 0"
proof -
  have f: "flag_parse (proxy_flags (ps_env (demo_process (ListenerReturned False)))) (ps_args (demo_process (ListenerReturned False))) =
     FlagsParsed [(''config'', FlagString ''/etc/p.yaml'')] []" by code_simp
  have "Logged ''listener failed'' \<in> set (proxy_main (demo_process (ListenerReturned False)))"
    unfolding demo_process_run by simp
  then show ?thesis using proxy_exit_status [OF f] by blast
qed

end
