(* ===== verification/Go_Duration.thy ===== *)
theory Go_Duration
  imports Go_Float Go_Json
begin

text \<open>
  Durations as text: \<open>time.ParseDuration\<close>, \<open>Duration.String\<close> and \<open>Duration.Round\<close>. The accumulator
  of the parser is a 64-bit word without sign, the fraction of a unit is computed in floating
  point.
\<close>

definition two63 :: int where "two63 = 9223372036854775808"

definition duration_unit :: "string \<Rightarrow> int option" where
  "duration_unit = map_of
     [(''ns'', 1), (''us'', 1000), ([CHR 0xC2, CHR 0xB5] @ ''s'', 1000), ([CHR 0xCE, CHR 0xBC] @ ''s'', 1000),
      (''ms'', 1000000), (''s'', second), (''m'', minute), (''h'', hour)]"

section \<open>Parsing\<close>

text \<open>\<open>leadingFraction\<close>: digits are dropped once the number would overflow.\<close>

fun leading_fraction :: "int \<Rightarrow> float64 \<Rightarrow> string \<Rightarrow> int \<times> float64" where
  "leading_fraction x scale [] = (x, scale)"
| "leading_fraction x scale (c # ds) =
     (let y = x * 10 + int (digit_val c) in
      if (two63 - 1) div 10 < x \<or> two63 < y then (x, scale) else leading_fraction y (fmul scale (float_of_int 10)) ds)"

text \<open>One number with its unit: the nanoseconds and the rest. The checks of \<open>leadingInt\<close> amount to
  the bound on the number.\<close>

definition duration_part :: "string \<Rightarrow> (int \<times> string) option" where
  "duration_part s =
     (let ds = takeWhile is_digit s; r = dropWhile is_digit s; dot = (take 1 r = ''.'');
          fs = (if dot then takeWhile is_digit (drop 1 r) else []);
          r1 = (if dot then dropWhile is_digit (drop 1 r) else r);
          u = takeWhile (\<lambda>c. c \<noteq> CHR ''.'' \<and> \<not> is_digit c) r1;
          r2 = dropWhile (\<lambda>c. c \<noteq> CHR ''.'' \<and> \<not> is_digit c) r1;
          v = int (digits_val ds)
      in if two63 < v \<or> ds = [] \<and> fs = [] \<or> u = [] then None
         else case duration_unit u of
           None \<Rightarrow> None
         | Some unit \<Rightarrow>
             if two63 div unit < v then None
             else
               let (f, scale) = leading_fraction 0 (float_of_int 1) fs;
                   w = (if 0 < f then v * unit + float_trunc (fmul (float_of_int f) (fdiv (float_of_int unit) scale))
                        else v * unit)
               in if two63 < w then None else Some (w, r2))"

lemma duration_part_shorter: "duration_part s = Some (v, r) \<Longrightarrow> length r < length s"
proof -
  assume a: "duration_part s = Some (v, r)"
  define r1 where "r1 = (if take 1 (dropWhile is_digit s) = ''.'' then dropWhile is_digit (drop 1 (dropWhile is_digit s))
    else dropWhile is_digit s)"
  let ?P = "\<lambda>c. c \<noteq> CHR ''.'' \<and> \<not> is_digit c"
  have u: "takeWhile ?P r1 \<noteq> []" "r = dropWhile ?P r1"
    using a by (auto simp: duration_part_def Let_def r1_def split: if_splits option.splits prod.splits)
  have "length r1 \<le> length s"
    unfolding r1_def using length_dropWhile_le [of is_digit s] length_dropWhile_le [of is_digit "drop 1 (dropWhile is_digit s)"]
    by auto
  moreover have "length r1 = length (takeWhile ?P r1) + length r"
    unfolding u(2) by (metis length_append takeWhile_dropWhile_id)
  ultimately show ?thesis using u(1) by (cases "takeWhile ?P r1") simp_all
qed

function duration_sum :: "int \<Rightarrow> string \<Rightarrow> int option" where
  "duration_sum d s =
     (if s = [] then Some d
      else case duration_part s of
        None \<Rightarrow> None
      | Some (v, r) \<Rightarrow>
          let d' = (d + v) mod 18446744073709551616 in if two63 < d' then None else duration_sum d' r)"
  by pat_completeness auto
termination
  by (relation "measure (\<lambda>(_, s). length s)") (auto dest: duration_part_shorter)

declare duration_sum.simps [simp del]

definition parse_duration :: "string \<Rightarrow> duration option" where
  "parse_duration s =
     (let neg = (take 1 s = ''-''); t = strip_sign s in
      if t = ''0'' then Some 0
      else if t = [] then None
      else case duration_sum 0 t of
        None \<Rightarrow> None
      | Some d \<Rightarrow> if neg then Some (- d) else if two63 - 1 < d then None else Some d)"

section \<open>Printing\<close>

definition frac_text :: "nat \<Rightarrow> int \<Rightarrow> string" where
  "frac_text prec u = (let ds = strip_zeros (pad_num prec (u mod 10 ^ prec)) in if prec = 0 \<or> ds = [] then [] else CHR ''.'' # ds)"

definition unsigned_text :: "int \<Rightarrow> string" where
  "unsigned_text u =
     (if u = 0 then ''0s''
      else if u < 1000 then itoa u @ ''ns''
      else if u < 1000000 then itoa (u div 1000) @ frac_text 3 u @ [CHR 0xC2, CHR 0xB5] @ ''s''
      else if u < second then itoa (u div 1000000) @ frac_text 6 u @ ''ms''
      else
        let sec = u div second in
        (if 3600 \<le> sec then itoa (sec div 3600) @ ''h'' else []) @
        (if 60 \<le> sec then itoa (sec div 60 mod 60) @ ''m'' else []) @
        itoa (sec mod 60) @ frac_text 9 u @ ''s'')"

definition duration_string :: "duration \<Rightarrow> string" where
  "duration_string d = (if d < 0 then CHR ''-'' # unsigned_text (- d) else unsigned_text d)"

text \<open>\<open>Round\<close>, half away from zero, to a multiple of a positive duration; Go's \<open>%\<close> takes the sign
  of the dividend.\<close>

definition duration_round :: "duration \<Rightarrow> duration \<Rightarrow> duration" where
  "duration_round d m =
     (if m \<le> 0 then d
      else
        let r = \<bar>d\<bar> mod m in
        if d < 0 then
          (if 2 * r < m then d + r else if d - m + r < min_int64 then min_int64 else d - m + r)
        else if 2 * r < m then d - r
        else if max_int64 < d + m - r then max_int64 else d + m - r)"

section \<open>What is printed is parsed back\<close>

lemma leading_fraction_digits:
  assumes "list_all is_digit ds" "0 \<le> x" "x < 10 ^ j" "float_is scale (10 ^ j)" "j + length ds \<le> 9"
  shows "\<exists>sc. leading_fraction x scale ds = (foldl (\<lambda>x c. x * 10 + int (digit_val c)) x ds, sc) \<and> float_is sc (10 ^ (j + length ds))"
  using assms
proof (induction ds arbitrary: x scale j)
  case (Cons c ds)
  let ?y = "x * 10 + int (digit_val c)"
  have c: "int (digit_val c) \<le> 9" using Cons.prems(1) by (auto simp: is_digit_def digit_val_def)
  have j: "(10 :: int) ^ Suc j \<le> 10 ^ 9" using Cons.prems(5) by (intro power_increasing) simp_all
  have y: "0 \<le> ?y" "?y < 10 ^ Suc j" using Cons.prems(2,3) c by simp_all
  have small: "\<not> (two63 - 1) div 10 < x" "\<not> two63 < ?y"
    using Cons.prems(3) y j by (simp_all add: two63_def)
  have "float_is (fmul scale (float_of_int 10)) (10 ^ j * 10)"
    using Cons.prems(4) j by (intro float_is_mul float_is_int) simp_all
  then have "float_is (fmul scale (float_of_int 10)) (10 ^ Suc j)" by (simp add: mult.commute)
  from Cons.IH [OF _ y this] Cons.prems(1,5) show ?case using small by simp
qed simp

lemma foldl_digits: "foldl (\<lambda>x c. x * 10 + int (digit_val c)) (int n) ds = int (foldl (\<lambda>n c. 10 * n + digit_val c) n ds)"
proof (induction ds arbitrary: n)
  case (Cons c ds)
  have "int n * 10 + int (digit_val c) = int (10 * n + digit_val c)" by simp
  then show ?case using Cons [of "10 * n + digit_val c"] by (simp only: foldl.simps)
qed simp

lemma leading_fraction_val:
  assumes "list_all is_digit ds" "length ds \<le> 9"
  shows "\<exists>sc. leading_fraction 0 (float_of_int 1) ds = (int (digits_val ds), sc) \<and> float_is sc (10 ^ length ds)"
  using leading_fraction_digits [OF assms(1), of 0 0 "float_of_int 1"] assms(2) foldl_digits [of 0 ds] float_is_int [of 1]
  by (simp add: digits_val_def)

lemma digits_val_less: "list_all is_digit ds \<Longrightarrow> digits_val ds < 10 ^ length ds"
proof (induction ds rule: rev_induct)
  case (snoc c ds)
  then show ?case by (auto simp: digits_val_append is_digit_def digit_val_def)
qed simp

definition point_text :: "string \<Rightarrow> string" where
  "point_text fs = (if fs = [] then [] else CHR ''.'' # fs)"

definition unit_text :: "string \<Rightarrow> bool" where
  "unit_text u \<longleftrightarrow> u \<noteq> [] \<and> list_all (\<lambda>c. c \<noteq> CHR ''.'' \<and> \<not> is_digit c) u"

lemma duration_part_text:
  assumes "0 \<le> v" "list_all is_digit fs" "length fs \<le> prec" "prec \<le> 9" "unit_text u" "duration_unit u = Some unit" "0 < unit"
    and "fs \<noteq> [] \<Longrightarrow> unit = 10 ^ prec" "r = [] \<or> is_digit (hd r)"
    and "v * unit + int (digits_val fs) * 10 ^ (prec - length fs) \<le> two63"
  shows "duration_part (itoa v @ point_text fs @ u @ r) = Some (v * unit + int (digits_val fs) * 10 ^ (prec - length fs), r)"
proof -
  let ?P = "\<lambda>c. c \<noteq> CHR ''.'' \<and> \<not> is_digit c"
  let ?x = "int (digits_val fs) * 10 ^ (prec - length fs)"
  obtain c u' where u: "u = c # u'" "?P c" using assms(5) by (cases u) (auto simp: unit_text_def)
  have up: "takeWhile ?P (u @ r) = u" "dropWhile ?P (u @ r) = r"
  proof -
    have "\<forall>c \<in> set u. ?P c" using assms(5) by (simp add: unit_text_def list_all_iff)
    then show "takeWhile ?P (u @ r) = u" "dropWhile ?P (u @ r) = r" using assms(9) by (cases r; simp)+
  qed
  have it: "itoa v = itoa_nat (nat v)" "\<forall>c \<in> set (itoa v). is_digit c" "int (digits_val (itoa v)) = v" "itoa v \<noteq> []"
    using assms(1) itoa_nat_digits [of "nat v"] by (simp_all add: itoa_def digits_val_itoa_nat list_all_iff)
  obtain x t where rest: "point_text fs @ u @ r = x # t" "\<not> is_digit x" "x = CHR ''.'' \<longleftrightarrow> fs \<noteq> []"
  proof (cases "fs = []")
    case False
    moreover have "\<not> is_digit (CHR ''.'')" by code_simp
    ultimately show thesis using that by (simp add: point_text_def)
  qed (use that u in \<open>simp add: point_text_def\<close>)
  have lead: "takeWhile is_digit (itoa v @ point_text fs @ u @ r) = itoa v"
    "dropWhile is_digit (itoa v @ point_text fs @ u @ r) = point_text fs @ u @ r"
    unfolding rest(1) by (rule takeWhile_append_stop [OF it(2) rest(2)], rule dropWhile_append_stop [OF it(2) rest(2)])
  have digs: "\<forall>c \<in> set fs. is_digit c" using assms(2) by (simp add: list_all_iff)
  have frac: "takeWhile is_digit (fs @ u @ r) = fs" "dropWhile is_digit (fs @ u @ r) = u @ r"
    using takeWhile_append_stop [OF digs] dropWhile_append_stop [OF digs] u by simp_all
  obtain sc where sc: "leading_fraction 0 (float_of_int 1) fs = (int (digits_val fs), sc)" "float_is sc (10 ^ length fs)"
    using leading_fraction_val [OF assms(2)] assms(3,4) by auto
  have une: "u \<noteq> []" using u by simp
  have x0: "0 \<le> ?x" by simp
  have v: "\<not> two63 < v" "\<not> two63 div unit < v"
  proof -
    have "v * unit \<le> two63" using assms(10) x0 by linarith
    then have "v \<le> two63 div unit" using zdiv_mono1 [of "v * unit" two63 unit] assms(7) by simp
    then show "\<not> two63 div unit < v" by simp
    have "v * 1 \<le> v * unit" using assms(1,7) by (intro mult_left_mono) simp_all
    then show "\<not> two63 < v" using \<open>v * unit \<le> two63\<close> by simp
  qed
  have float: "float_trunc (fmul (float_of_int (int (digits_val fs))) (fdiv (float_of_int unit) sc)) = ?x"
    if pos: "0 < digits_val fs"
  proof -
    have unit: "unit = 10 ^ (prec - length fs) * 10 ^ length fs"
      using assms(3,8) pos by (cases "fs = []") (simp_all flip: power_add)
    have less: "(digits_val fs :: nat) < 10 ^ length fs" by (rule digits_val_less [OF assms(2)])
    have prec: "(10 :: int) ^ (prec - length fs) \<le> 10 ^ 9" "(10 :: int) ^ length fs \<le> 10 ^ 9" "(10 :: int) ^ prec \<le> 10 ^ 9"
      using assms(3,4) by (intro power_increasing; simp)+
    have x: "?x < 10 ^ 9"
    proof -
      have "int (digits_val fs) < 10 ^ length fs" using less by (metis of_nat_less_iff of_nat_numeral of_nat_power)
      then have "?x < 10 ^ length fs * 10 ^ (prec - length fs)" by simp
      also have "\<dots> = 10 ^ prec" using assms(3) by (simp flip: power_add)
      finally show ?thesis using prec(3) by simp
    qed
    have dig: "int (digits_val fs) < 2 ^ 53"
    proof -
      have "int (digits_val fs) < 10 ^ length fs" using less by (metis of_nat_less_iff of_nat_numeral of_nat_power)
      also have "\<dots> \<le> 10 ^ 9" by (rule prec(2))
      also have "\<dots> < 2 ^ 53" by simp
      finally show ?thesis .
    qed
    have u53: "unit < 2 ^ 53" using prec(3) assms(8) pos by (cases "fs = []") simp_all
    have "float_is (fdiv (float_of_int unit) sc) (10 ^ (prec - length fs))"
    proof (rule float_is_div [OF _ sc(2)])
      show "float_is (float_of_int unit) (10 ^ (prec - length fs) * 10 ^ length fs)"
        using float_is_int [OF assms(7) u53] unit by simp
      show "(10 :: int) ^ (prec - length fs) < 2 ^ 53" using prec(1) by simp
    qed simp
    then have "float_is (fmul (float_of_int (int (digits_val fs))) (fdiv (float_of_int unit) sc)) ?x"
      using pos dig x by (intro float_is_mul float_is_int) simp_all
    then show ?thesis using x by (intro float_is_trunc) (simp_all add: max_int64_def)
  qed
  have "duration_part (itoa v @ point_text fs @ u @ r) =
      (if two63 < v * unit + ?x then None else Some (v * unit + ?x, r))"
  proof (cases "fs = []")
    case True
    then have nd: "take 1 (u @ r) \<noteq> ''.''" using u by simp
    show ?thesis
      unfolding duration_part_def Let_def lead using True nd
      by (simp add: point_text_def up it(3,4) v assms(6) unit_text_def [symmetric] sc [simplified True, simplified])
        (use u in simp)
  next
    case False
    then have dot: "point_text fs @ u @ r = CHR ''.'' # fs @ u @ r" by (simp add: point_text_def)
    have "0 < digits_val fs \<or> digits_val fs = 0" by auto
    then show ?thesis
      unfolding duration_part_def Let_def unfolding lead unfolding dot
      using False float une by (elim disjE) (simp_all add: frac up it(3,4) v assms(6) sc(1))
  qed
  then show ?thesis using assms(10) by simp
qed

lemma frac_text_digits:
  assumes "0 \<le> u" "0 < prec"
  obtains fs where "frac_text prec u = point_text fs" "list_all is_digit fs" "length fs \<le> prec"
    "int (digits_val fs) * 10 ^ (prec - length fs) = u mod 10 ^ prec"
proof -
  define f where "f = u mod 10 ^ prec"
  define fs where "fs = strip_zeros (pad_num prec f)"
  have f: "0 \<le> f" "f < 10 ^ prec" by (simp_all add: f_def)
  have len: "length (pad_num prec f) = prec" using f assms(2) by (intro length_pad_num)
  have app: "pad_num prec f = fs @ replicate (prec - length fs) (CHR ''0'')"
    using strip_zeros_append [of "pad_num prec f"] len by (simp add: fs_def)
  have "list_all is_digit fs" "length fs \<le> prec"
    using pad_num_digits [OF f(1), of prec] app len by (metis list_all_append, metis length_append le_add1)
  moreover have "digits_val fs * 10 ^ (prec - length fs) = nat f"
    using digits_val_pad_num [OF f(1), of prec] digits_val_append_zeros [of fs "prec - length fs"] app by simp
  then have "int (digits_val fs * 10 ^ (prec - length fs)) = f" using f(1) by simp
  then have "int (digits_val fs) * 10 ^ (prec - length fs) = f" by simp
  moreover have "frac_text prec u = point_text fs" using assms(2) by (simp add: frac_text_def point_text_def fs_def f_def Let_def)
  ultimately show thesis using that by (simp add: f_def)
qed

lemma unit_texts:
  "unit_text ''ns''" "unit_text ([CHR 0xC2, CHR 0xB5] @ ''s'')" "unit_text ''ms''" "unit_text ''s''" "unit_text ''m''" "unit_text ''h''"
  "duration_unit ''ns'' = Some 1" "duration_unit ([CHR 0xC2, CHR 0xB5] @ ''s'') = Some (10 ^ 3)" "duration_unit ''ms'' = Some (10 ^ 6)"
  "duration_unit ''s'' = Some (10 ^ 9)" "duration_unit ''m'' = Some minute" "duration_unit ''h'' = Some hour"
  by (simp_all add: unit_text_def is_digit_def duration_unit_def second_def)

lemma duration_sum_step:
  assumes "duration_part s = Some (v, r)" "s \<noteq> []" "0 \<le> d" "0 \<le> v" "d + v \<le> two63"
  shows "duration_sum d s = duration_sum (d + v) r"
  using assms by (subst duration_sum.simps) (simp add: two63_def)

text \<open>A last number with a fraction.\<close>

lemma duration_sum_last:
  assumes "0 \<le> u" "0 < prec" "prec \<le> 9" "unit_text t" "duration_unit t = Some (10 ^ prec)" "0 \<le> d" "d + u \<le> two63"
  shows "duration_sum d (itoa (u div 10 ^ prec) @ frac_text prec u @ t) = Some (d + u)"
proof -
  obtain fs where fs: "frac_text prec u = point_text fs" "list_all is_digit fs" "length fs \<le> prec"
    "int (digits_val fs) * 10 ^ (prec - length fs) = u mod 10 ^ prec"
    using frac_text_digits [OF assms(1,2)] by blast
  have u: "u div 10 ^ prec * 10 ^ prec + u mod 10 ^ prec = u" by (rule div_mult_mod_eq)
  have "duration_part (itoa (u div 10 ^ prec) @ point_text fs @ t @ []) = Some (u, [])"
    using duration_part_text [OF _ fs(2,3) assms(3,4,5), of "u div 10 ^ prec" "[]"] assms(1,6,7) fs(4) u
    by (simp add: pos_imp_zdiv_nonneg_iff)
  then show ?thesis
    using duration_sum_step [of _ u "[]" d] assms(1,6,7) assms(4) unfolding fs(1)
    by (simp add: duration_sum.simps [of _ "[]"] unit_text_def)
qed

lemma duration_sum_whole:
  assumes "0 \<le> v" "unit_text t" "duration_unit t = Some unit" "0 < unit" "r = [] \<or> is_digit (hd r)" "0 \<le> d" "d + v * unit \<le> two63"
  shows "duration_sum d (itoa v @ t @ r) = duration_sum (d + v * unit) r"
proof -
  have "duration_part (itoa v @ t @ r) = Some (v * unit, r)"
    using duration_part_text [of v "[]" 0 t unit r] assms by (simp add: point_text_def)
  then show ?thesis using assms by (intro duration_sum_step) (auto simp: unit_text_def)
qed

lemma digit_head: "0 \<le> v \<Longrightarrow> is_digit (hd (itoa v @ s))"
  using itoa_nat_head_digit [of "nat v"] by (simp add: itoa_def)

text \<open>The parts of a duration of a second and more.\<close>

lemma duration_pos: "0 < second" "0 < minute" "0 < hour" "second < minute" "minute < hour" "1000000 < second"
  by (simp_all add: second_def minute_def hour_def)

lemma duration_split:
  "u mod minute = second * (u div second mod 60) + u mod second" "u div minute = u div second div 60"
  "u mod hour = minute * (u div second div 60 mod 60) + u mod minute" "u div hour = u div second div 3600"
proof -
  have m: "minute = second * 60" and h: "hour = minute * 60" "hour = second * 3600" by (simp_all add: second_def minute_def hour_def)
  show "u mod minute = second * (u div second mod 60) + u mod second" unfolding m by (rule zmod_zmult2_eq) simp
  show d: "u div minute = u div second div 60" unfolding m by (rule zdiv_zmult2_eq) simp
  show "u mod hour = minute * (u div second div 60 mod 60) + u mod minute"
    unfolding h(1) d [symmetric] by (rule zmod_zmult2_eq) simp
  show "u div hour = u div second div 3600" unfolding h(2) by (rule zdiv_zmult2_eq) simp
qed

lemma seconds_text_sum:
  assumes "0 \<le> u" "0 \<le> d" "d + u mod minute \<le> two63"
  shows "duration_sum d (itoa (u div second mod 60) @ frac_text 9 u @ ''s'') = Some (d + u mod minute)"
proof -
  let ?w = "u mod minute"
  have w: "?w div 10 ^ 9 = u div second mod 60" "?w mod 10 ^ 9 = u mod 10 ^ 9"
    unfolding duration_split(1) by (simp_all add: second_def)
  have "frac_text 9 ?w = frac_text 9 u" by (simp only: frac_text_def w(2))
  moreover have "0 \<le> ?w" by (simp add: minute_def)
  ultimately show ?thesis
    using duration_sum_last [of ?w 9 "''s''" d] unit_texts(4,10) assms(2,3) by (simp only: w(1))
qed

lemma minutes_text_sum:
  assumes "0 \<le> u" "0 \<le> d" "d + u mod hour \<le> two63" "minute \<le> u"
  shows "duration_sum d (itoa (u div second div 60 mod 60) @ ''m'' @ itoa (u div second mod 60) @ frac_text 9 u @ ''s'') =
    Some (d + u mod hour)"
proof -
  let ?m = "u div second div 60 mod 60"
  have split: "u mod hour = ?m * minute + u mod minute" "0 \<le> ?m" "0 \<le> u mod minute"
    unfolding duration_split(3) using duration_pos(2) by (simp_all only: mult.commute pos_mod_sign zero_less_numeral)
  have sec: "0 \<le> u div second mod 60" by simp
  have "duration_sum d (itoa ?m @ ''m'' @ itoa (u div second mod 60) @ frac_text 9 u @ ''s'') =
      duration_sum (d + ?m * minute) (itoa (u div second mod 60) @ frac_text 9 u @ ''s'')"
    by (rule duration_sum_whole [OF split(2) unit_texts(5,11) duration_pos(2) disjI2 [OF digit_head [OF sec]] assms(2)])
      (use split(1,3) assms(3) in linarith)
  also have "\<dots> = Some (d + ?m * minute + u mod minute)"
  proof (rule seconds_text_sum [OF assms(1)])
    show "0 \<le> d + ?m * minute" using split(2) assms(2) duration_pos(2) by (simp only: add_nonneg_nonneg mult_nonneg_nonneg less_imp_le)
    show "d + ?m * minute + u mod minute \<le> two63" using split(1) assms(3) by linarith
  qed
  finally show ?thesis using split(1) by simp
qed

lemma unsigned_text_sum:
  assumes "0 \<le> u" "u \<le> two63"
  shows "duration_sum 0 (unsigned_text u) = Some u"
proof -
  consider "u = 0" | "0 < u" "u < 1000" | "1000 \<le> u" "u < 1000000" | "1000000 \<le> u" "u < second" |
    "second \<le> u" "u < minute" | "minute \<le> u" "u < hour" | "hour \<le> u"
    using assms(1) by (cases "u = 0"; linarith)
  then show ?thesis
  proof cases
    case 1
    have "duration_sum 0 ''0s'' = Some 0" by code_simp
    then show ?thesis using 1 by (simp add: unsigned_text_def)
  next
    case 2
    have "duration_sum 0 (itoa u @ ''ns'' @ []) = duration_sum (0 + u * 1) []"
      using 2 assms unit_texts(1,7) by (intro duration_sum_whole) simp_all
    then show ?thesis using 2 by (simp add: unsigned_text_def duration_sum.simps [of _ "[]"])
  next
    case 3
    then show ?thesis using duration_sum_last [of u 3, OF _ _ _ unit_texts(2,8)] assms by (simp add: unsigned_text_def)
  next
    case 4
    then show ?thesis using duration_sum_last [of u 6, OF _ _ _ unit_texts(3,9)] assms by (simp add: unsigned_text_def)
  next
    case 5
    then have "u div second mod 60 = u div second" "u mod minute = u" "\<not> 60 \<le> u div second" "\<not> 3600 \<le> u div second"
      using assms(1) by (simp_all add: second_def minute_def)
    then show ?thesis
      using 5 seconds_text_sum [OF assms(1), of 0] assms by (simp add: unsigned_text_def second_def Let_def)
  next
    case 6
    then have "60 \<le> u div second" "\<not> 3600 \<le> u div second" "u mod hour = u"
      using assms(1) by (simp_all add: second_def minute_def hour_def)
    then show ?thesis
      using 6 minutes_text_sum [OF assms(1), of 0] assms by (simp add: unsigned_text_def second_def minute_def Let_def)
  next
    case 7
    let ?h = "u div second div 3600"
    have split: "u = ?h * hour + u mod hour" unfolding duration_split(4) [symmetric] by simp
    have h: "0 \<le> ?h" "3600 \<le> u div second" "minute \<le> u" "0 \<le> u mod hour"
      "0 \<le> u div second div 60 mod 60"
      using 7 assms(1) by (simp_all add: second_def minute_def hour_def)
    let ?r = "itoa (u div second div 60 mod 60) @ ''m'' @ itoa (u div second mod 60) @ frac_text 9 u @ ''s''"
    have "duration_sum 0 (itoa ?h @ ''h'' @ ?r) = duration_sum (0 + ?h * hour) ?r"
      by (rule duration_sum_whole [OF h(1) unit_texts(6,12) duration_pos(3) disjI2 [OF digit_head [OF h(5)]]])
        (use split h(4) assms(2) in linarith)+
    also have "\<dots> = Some (0 + ?h * hour + u mod hour)"
      by (rule minutes_text_sum [OF assms(1)]) (use split h assms(2) duration_pos(3) in simp_all)
    also have "\<dots> = Some u" using split by simp
    finally show ?thesis using 7 h(2) by (simp add: unsigned_text_def second_def hour_def Let_def)
  qed
qed

lemma unsigned_text_shape:
  assumes "0 < u"
  obtains v s where "0 \<le> v" "s \<noteq> []" "unsigned_text u = itoa v @ s"
proof -
  let ?sec = "u div second"
  have pos: "0 \<le> u div 1000" "0 \<le> u div 1000000" "0 \<le> ?sec div 3600" "0 \<le> ?sec div 60 mod 60" "0 \<le> ?sec mod 60"
    using assms by (simp_all add: second_def)
  consider "u < 1000" | "1000 \<le> u" "u < 1000000" | "1000000 \<le> u" "u < second" | "second \<le> u" "3600 \<le> ?sec" |
    "second \<le> u" "60 \<le> ?sec" "?sec < 3600" | "second \<le> u" "?sec < 60" by linarith
  then show thesis
  proof cases
    case 1
    then show ?thesis using that [of u "''ns''"] assms by (simp add: unsigned_text_def)
  next
    case 2
    then show ?thesis using that [OF pos(1)] by (simp add: unsigned_text_def) blast
  next
    case 3
    then show ?thesis using that [OF pos(2)] by (simp add: unsigned_text_def) blast
  next
    case 4
    then show ?thesis using that [OF pos(3)] by (simp add: unsigned_text_def second_def Let_def) blast
  next
    case 5
    then show ?thesis using that [OF pos(4)] by (simp add: unsigned_text_def second_def Let_def) blast
  next
    case 6
    then show ?thesis using that [OF pos(5)] by (simp add: unsigned_text_def second_def Let_def) blast
  qed
qed

lemma unsigned_text_head: "0 \<le> u \<Longrightarrow> is_digit (hd (unsigned_text u)) \<and> 2 \<le> length (unsigned_text u)"
proof (cases "u = 0")
  case True
  have "is_digit (CHR ''0'')" by code_simp
  then show ?thesis using True by (simp add: unsigned_text_def)
next
  case False
  assume "0 \<le> u"
  then obtain v s where v: "0 \<le> v" "s \<noteq> []" "unsigned_text u = itoa v @ s" using unsigned_text_shape [of u] False by auto
  have "itoa v \<noteq> []" using v(1) by (simp add: itoa_def)
  then have "1 \<le> length (itoa v)" "1 \<le> length s" using v(2) by (simp_all add: Suc_le_eq)
  then show ?thesis using digit_head [OF v(1), of s] v(3) by simp
qed

lemma parse_duration_string: "min_int64 \<le> d \<Longrightarrow> d \<le> max_int64 \<Longrightarrow> parse_duration (duration_string d) = Some d"
proof -
  assume d: "min_int64 \<le> d" "d \<le> max_int64"
  have u: "strip_sign (unsigned_text u) = unsigned_text u" "take 1 (unsigned_text u) \<noteq> ''-''" "unsigned_text u \<noteq> ''0''"
    "unsigned_text u \<noteq> []" if "0 \<le> u" for u
    using unsigned_text_head [OF that] by (cases "unsigned_text u"; auto simp: strip_sign_def is_digit_def)+
  have sum: "duration_sum 0 (unsigned_text \<bar>d\<bar>) = Some \<bar>d\<bar>"
    using d by (intro unsigned_text_sum) (auto simp: two63_def min_int64_def max_int64_def)
  show ?thesis
  proof (cases "d < 0")
    case True
    then show ?thesis using u [of "- d"] sum by (simp add: parse_duration_def duration_string_def strip_sign_def Let_def)
  next
    case False
    then show ?thesis using u [of d] sum d by (simp add: parse_duration_def duration_string_def two63_def max_int64_def Let_def)
  qed
qed

end
