(* ===== verification/Config_Duration.thy ===== *)
theory Config_Duration
  imports Config Go_Duration
begin

text \<open>
  \<open>Duration.UnmarshalYAML\<close> of \<open>internal/config/config.go\<close>, the decoding of \<open>sigv4_clock_skew\<close>. What
  \<open>node.Decode\<close> of the YAML library makes of the node is the argument: the string, or \<open>None\<close>.
\<close>

definition UnmarshalYAML :: "string option \<Rightarrow> config_error + duration" where
  "UnmarshalYAML node = (case node of
     None \<Rightarrow> Inl [''duration must be a string like 15m'']
   | Some s \<Rightarrow> (case parse_duration s of
       None \<Rightarrow> Inl [''invalid duration'', s]
     | Some v \<Rightarrow> Inr v))"

section \<open>Properties\<close>

text \<open>C27: durations are read exactly. Every 64-bit duration, written the way Go writes it (hours,
  minutes and seconds with a fraction, or a smaller unit), is read back from the configuration
  as the same number of nanoseconds, though the fraction is computed in floating point.\<close>

theorem duration_setting_exact:
  assumes "min_int64 \<le> d" "d \<le> max_int64"
  shows "UnmarshalYAML (Some (duration_string d)) = Inr d"
  using parse_duration_string [OF assms] by (simp add: UnmarshalYAML_def)

theorem duration_setting_exact_witness:
  "UnmarshalYAML (Some ''1h30m0s'') = Inr 5400000000000 \<and> UnmarshalYAML (Some (''1.5'' @ [CHR 0xC2, CHR 0xB5] @ ''s'')) = Inr 1500"
proof -
  have "duration_string 5400000000000 = ''1h30m0s''" "duration_string 1500 = ''1.5'' @ [CHR 0xC2, CHR 0xB5] @ ''s''" by code_simp+
  then show ?thesis
    using duration_setting_exact [of 5400000000000] duration_setting_exact [of 1500] by (simp add: min_int64_def max_int64_def)
qed

end
