(* ===== verification/Devicelogin.thy ===== *)
theory Devicelogin
  imports Go_Url Go_Json
begin

text \<open>
  Package \<open>internal/devicelogin\<close>: the OAuth device flow, token refresh and the token file. The
  world the client talks to has a state of type \<open>'w\<close>; the HTTP exchange, the clock, the sleep
  and the context are the record \<open>world\<close> of parameters. The file system is a map from paths to
  contents and modes, and every system call of \<open>WriteTokenFile\<close> may fail.
\<close>

section \<open>Data\<close>

datatype login_error =
    ErrAccessDenied
  | ErrExpired
  | ErrSessionExpired
  | OAuthError string string
  | PlainError "string list"
  | WrappedError string login_error

record client =
  cl_Issuer :: string
  cl_ClientID :: string
  cl_Scope :: string

record endpoints =
  ep_DeviceAuthorization :: string
  ep_Token :: string

record device_auth =
  da_DeviceCode :: string
  da_UserCode :: string
  da_VerificationURI :: string
  da_VerificationURIComplete :: string
  da_ExpiresIn :: int
  da_Interval :: int

record login_token =
  lt_AccessToken :: string
  lt_RefreshToken :: string
  lt_ExpiresIn :: int

text \<open>An answer to an HTTP request: the status, the body, and whether reading the body fails.\<close>

record answer =
  an_status :: int
  an_body :: string
  an_broken :: bool

record 'w world =
  wo_get :: "string \<Rightarrow> 'w \<Rightarrow> (string + answer) \<times> 'w"
  wo_post :: "string \<Rightarrow> string \<Rightarrow> string \<Rightarrow> 'w \<Rightarrow> (string + answer) \<times> 'w"
  wo_now :: "'w \<Rightarrow> time"
  wo_sleep :: "duration \<Rightarrow> 'w \<Rightarrow> 'w"
  wo_ctx_err :: "'w \<Rightarrow> string option"

definition bodyLimit :: nat where "bodyLimit = 1048576"

section \<open>Decoding\<close>

definition struct_of :: "json option \<Rightarrow> ((string \<times> json) list \<Rightarrow> 'a option) \<Rightarrow> 'a option" where
  "struct_of v dec = Option.bind v (\<lambda>j. Option.bind (json_members j) dec)"

definition endpoints_fields :: "(string \<times> json) list \<Rightarrow> endpoints option" where
  "endpoints_fields ms = do {
     d \<leftarrow> json_field to_string ''device_authorization_endpoint'' ms [];
     t \<leftarrow> json_field to_string ''token_endpoint'' ms [];
     Some \<lparr>ep_DeviceAuthorization = d, ep_Token = t\<rparr>
   }"

definition device_auth_fields :: "(string \<times> json) list \<Rightarrow> device_auth option" where
  "device_auth_fields ms = do {
     dc \<leftarrow> json_field to_string ''device_code'' ms [];
     uc \<leftarrow> json_field to_string ''user_code'' ms [];
     vu \<leftarrow> json_field to_string ''verification_uri'' ms [];
     vc \<leftarrow> json_field to_string ''verification_uri_complete'' ms [];
     ex \<leftarrow> json_field to_int ''expires_in'' ms 0;
     iv \<leftarrow> json_field to_int ''interval'' ms 0;
     Some \<lparr>da_DeviceCode = dc, da_UserCode = uc, da_VerificationURI = vu, da_VerificationURIComplete = vc,
       da_ExpiresIn = ex, da_Interval = iv\<rparr>
   }"

definition token_fields :: "(string \<times> json) list \<Rightarrow> login_token option" where
  "token_fields ms = do {
     a \<leftarrow> json_field to_string ''access_token'' ms [];
     r \<leftarrow> json_field to_string ''refresh_token'' ms [];
     e \<leftarrow> json_field to_int ''expires_in'' ms 0;
     Some \<lparr>lt_AccessToken = a, lt_RefreshToken = r, lt_ExpiresIn = e\<rparr>
   }"

definition oauth_fields :: "(string \<times> json) list \<Rightarrow> (string \<times> string) option" where
  "oauth_fields ms = do {
     c \<leftarrow> json_field to_string ''error'' ms [];
     d \<leftarrow> json_field to_string ''error_description'' ms [];
     Some (c, d)
   }"

fun error_text :: "login_error \<Rightarrow> string" where
  "error_text ErrAccessDenied = ''authorization request denied''"
| "error_text ErrExpired = ''device code expired before approval''"
| "error_text ErrSessionExpired = ''session expired, sign in again''"
| "error_text (OAuthError c d) = (if d = [] then c else c @ '': '' @ d)"
| "error_text (PlainError ws) = join '' '' ws"
| "error_text (WrappedError s e) = s @ '': '' @ error_text e"

section \<open>The client\<close>

text \<open>\<open>postForm\<close> with the fields of the struct that the answer is decoded into.\<close>

definition postForm ::
  "'w world \<Rightarrow> string \<Rightarrow> url_values \<Rightarrow> ((string \<times> json) list \<Rightarrow> 'a option) \<Rightarrow> 'w \<Rightarrow> (login_error + 'a) \<times> 'w" where
  "postForm wd endpoint form dec w =
     (if url_parse endpoint = None then (Inl (PlainError [''parse'', endpoint]), w)
      else case wo_post wd endpoint ''application/x-www-form-urlencoded'' (values_encode form) w of
        (Inl e, w') \<Rightarrow> (Inl (PlainError [e]), w')
      | (Inr a, w') \<Rightarrow>
          let body = take bodyLimit (an_body a) in
          if an_broken a then (Inl (PlainError [''read'']), w')
          else if an_status a div 100 \<noteq> 2 then
            (case struct_of (json_unmarshal body) oauth_fields of
               Some (code, desc) \<Rightarrow>
                 if code \<noteq> [] then (Inl (OAuthError code desc), w')
                 else (Inl (PlainError [endpoint, ''returned'', itoa (an_status a)]), w')
             | None \<Rightarrow> (Inl (PlainError [endpoint, ''returned'', itoa (an_status a)]), w'))
          else
            (case struct_of (json_unmarshal body) dec of
               None \<Rightarrow> (Inl (PlainError [''json'']), w')
             | Some x \<Rightarrow> (Inr x, w')))"

definition Discover :: "client \<Rightarrow> 'w world \<Rightarrow> 'w \<Rightarrow> (login_error + endpoints) \<times> 'w" where
  "Discover c wd w =
     (let u = (if has_suffix ''/'' (cl_Issuer c) then butlast (cl_Issuer c) else cl_Issuer c) @
            ''/.well-known/openid-configuration''
      in if url_parse u = None then (Inl (PlainError [''parse'', u]), w)
         else case wo_get wd u w of
           (Inl e, w') \<Rightarrow> (Inl (WrappedError ''OIDC discovery'' (PlainError [e])), w')
         | (Inr a, w') \<Rightarrow>
             if an_status a \<noteq> 200 then
               (Inl (PlainError [''OIDC discovery:'', u, ''returned'', itoa (an_status a)]), w')
             else if an_broken a then (Inl (WrappedError ''OIDC discovery'' (PlainError [''read''])), w')
             else (case struct_of (json_decode (take bodyLimit (an_body a))) endpoints_fields of
                 None \<Rightarrow> (Inl (WrappedError ''OIDC discovery'' (PlainError [''json''])), w')
               | Some ep \<Rightarrow>
                   if ep_DeviceAuthorization ep = [] then
                     (Inl (PlainError [''issuer'', cl_Issuer c, ''does not advertise device_authorization_endpoint'']), w')
                   else if ep_Token ep = [] then
                     (Inl (PlainError [''issuer'', cl_Issuer c, ''does not advertise token_endpoint'']), w')
                   else (Inr ep, w')))"

definition Start :: "client \<Rightarrow> 'w world \<Rightarrow> endpoints \<Rightarrow> 'w \<Rightarrow> (login_error + device_auth) \<times> 'w" where
  "Start c wd ep w =
     (let form = (''client_id'', cl_ClientID c) # (if cl_Scope c \<noteq> [] then [(''scope'', cl_Scope c)] else [])
      in case postForm wd (ep_DeviceAuthorization ep) form device_auth_fields w of
           (Inl e, w') \<Rightarrow> (Inl (WrappedError ''device authorization'' e), w')
         | (Inr da, w') \<Rightarrow>
             if da_DeviceCode da = [] \<or> da_UserCode da = [] then
               (Inl (PlainError [''device authorization: response missing device_code/user_code'']), w')
             else (Inr da, w'))"

definition poll_form :: "client \<Rightarrow> device_auth \<Rightarrow> url_values" where
  "poll_form c da =
     [(''grant_type'', ''urn:ietf:params:oauth:grant-type:device_code''),
      (''device_code'', da_DeviceCode da), (''client_id'', cl_ClientID c)]"

text \<open>The loop of \<open>Poll\<close>; \<open>None\<close> when it never returns.\<close>

partial_function (option) poll_loop ::
  "client \<Rightarrow> 'w world \<Rightarrow> endpoints \<Rightarrow> device_auth \<Rightarrow> time \<Rightarrow> duration \<Rightarrow> 'w \<Rightarrow>
   ((login_error + login_token) \<times> 'w) option" where
  "poll_loop c wd ep da deadline interval w =
     (case wo_ctx_err wd w of
        Some e \<Rightarrow> Some (Inl (PlainError [e]), w)
      | None \<Rightarrow>
          if da_ExpiresIn da > 0 \<and> deadline < wo_now wd w then Some (Inl ErrExpired, w)
          else
            (case postForm wd (ep_Token ep) (poll_form c da) token_fields (wo_sleep wd interval w) of
               (Inr tok, w') \<Rightarrow>
                 Some (if lt_AccessToken tok = [] then Inl (PlainError [''token endpoint returned no access_token''])
                       else Inr tok, w')
             | (Inl (OAuthError code desc), w') \<Rightarrow>
                 if code = ''authorization_pending'' then poll_loop c wd ep da deadline interval w'
                 else if code = ''slow_down'' then
                   poll_loop c wd ep da deadline (wrap64 (interval + 5 * second)) w'
                 else if code = ''access_denied'' then Some (Inl ErrAccessDenied, w')
                 else if code = ''expired_token'' then Some (Inl ErrExpired, w')
                 else Some (Inl (OAuthError code desc), w')
             | (Inl e, w') \<Rightarrow> Some (Inl e, w')))"

definition Poll ::
  "client \<Rightarrow> 'w world \<Rightarrow> endpoints \<Rightarrow> device_auth \<Rightarrow> 'w \<Rightarrow> ((login_error + login_token) \<times> 'w) option" where
  "Poll c wd ep da w =
     poll_loop c wd ep da (time_add (wo_now wd w) (seconds (da_ExpiresIn da))) (seconds (max (da_Interval da) 1)) w"

definition Refresh :: "client \<Rightarrow> 'w world \<Rightarrow> endpoints \<Rightarrow> string \<Rightarrow> 'w \<Rightarrow> (login_error + login_token) \<times> 'w" where
  "Refresh c wd ep refreshToken w =
     (case postForm wd (ep_Token ep)
        [(''grant_type'', ''refresh_token''), (''refresh_token'', refreshToken), (''client_id'', cl_ClientID c)]
        token_fields w of
        (Inl e, w') \<Rightarrow>
          (case e of
             OAuthError code desc \<Rightarrow>
               if code = ''invalid_grant'' then (Inl ErrSessionExpired, w')
               else (Inl (WrappedError ''token refresh'' e), w')
           | _ \<Rightarrow> (Inl (WrappedError ''token refresh'' e), w'))
      | (Inr tok, w') \<Rightarrow>
          if lt_AccessToken tok = [] then (Inl (PlainError [''token refresh: response missing access_token'']), w')
          else (Inr tok, w'))"

section \<open>The token file\<close>

text \<open>A file system maps paths to files. A call of \<open>WriteTokenFile\<close> goes through a sequence of
  states; \<open>faults\<close> says which system calls fail, a failing write after how many bytes. \<open>tmp\<close> is
  the name that \<open>os.CreateTemp\<close> picks, with mode 0600 = 384.\<close>

record fs_file =
  fi_content :: string
  fi_mode :: nat

type_synonym file_system = "string \<rightharpoonup> fs_file"

record faults =
  fa_mkdir :: bool
  fa_create :: bool
  fa_chmod :: bool
  fa_write :: "nat option"
  fa_close :: bool
  fa_rename :: bool
  fa_remove :: bool

definition WriteTokenFile ::
  "faults \<Rightarrow> string \<Rightarrow> string \<Rightarrow> string \<Rightarrow> file_system \<Rightarrow> string option \<times> file_system list" where
  "WriteTokenFile fa tmp path accessToken fs =
     (let remove = (\<lambda>m. if fa_remove fa then m else m(tmp := None));
          fail = (\<lambda>e trace. (Some e, trace @ [remove (last trace)]))
      in if fa_mkdir fa then (Some ''mkdir'', [fs])
         else if fa_create fa then (Some ''create'', [fs])
         else
           let m1 = fs(tmp \<mapsto> \<lparr>fi_content = [], fi_mode = 384\<rparr>) in
           if fa_chmod fa then fail ''chmod'' [fs, m1]
           else
             let m2 = m1(tmp \<mapsto> \<lparr>fi_content = [], fi_mode = 384\<rparr>) in
             case fa_write fa of
               Some n \<Rightarrow> fail ''write'' [fs, m1, m2, m2(tmp \<mapsto> \<lparr>fi_content = take n accessToken, fi_mode = 384\<rparr>)]
             | None \<Rightarrow>
                 let m3 = m2(tmp \<mapsto> \<lparr>fi_content = accessToken, fi_mode = 384\<rparr>) in
                 if fa_close fa then fail ''close'' [fs, m1, m2, m3]
                 else if fa_rename fa then fail ''rename'' [fs, m1, m2, m3]
                 else
                   let m4 = (m3(path := m3 tmp))(tmp := None) in
                   (None, [fs, m1, m2, m3, m4, remove m4]))"

section \<open>Properties\<close>

text \<open>Sleeping takes at least the time asked for, and requests do not turn the clock back.\<close>

definition clock_forward :: "'w world \<Rightarrow> bool" where
  "clock_forward wd \<longleftrightarrow>
     (\<forall>d w. wo_now wd w + max d 0 \<le> wo_now wd (wo_sleep wd d w)) \<and>
     (\<forall>ep ct b w r w'. wo_post wd ep ct b w = (r, w') \<longrightarrow> wo_now wd w \<le> wo_now wd w')"

lemma postForm_forward:
  assumes "clock_forward wd" "postForm wd ep form dec w = (r, w')"
  shows "wo_now wd w \<le> wo_now wd w'"
proof -
  obtain q v where q: "wo_post wd ep ''application/x-www-form-urlencoded'' (values_encode form) w = (q, v)" by fastforce
  have "wo_now wd w \<le> wo_now wd v" using assms(1) q unfolding clock_forward_def by blast
  moreover have "w' = w \<or> w' = v"
    using assms(2) q by (auto simp: postForm_def Let_def split: if_splits sum.splits option.splits)
  ultimately show ?thesis by auto
qed

lemma postForm_Inr:
  assumes "postForm wd ep form dec w = (Inr x, w')"
  shows "\<exists>a. wo_post wd ep ''application/x-www-form-urlencoded'' (values_encode form) w = (Inr a, w') \<and>
    an_status a div 100 = 2 \<and> struct_of (json_unmarshal (take bodyLimit (an_body a))) dec = Some x"
  using assms by (auto simp: postForm_def Let_def split: if_splits sum.splits option.splits prod.splits)

lemma poll_loop_Inr:
  assumes "poll_loop c wd ep da deadline interval w = Some p"
  shows "fst p = Inr tok \<Longrightarrow> lt_AccessToken tok \<noteq> [] \<and>
    (\<exists>w1. postForm wd (ep_Token ep) (poll_form c da) token_fields w1 = (Inr tok, snd p))"
proof (induction c wd ep da deadline interval w p rule: poll_loop.raw_induct)
  case (1 loop c wd ep da deadline interval w p)
  let ?w = "wo_sleep wd interval w"
  obtain r w' where r: "postForm wd (ep_Token ep) (poll_form c da) token_fields ?w = (r, w')" by fastforce
  have go: "wo_ctx_err wd w = None" "\<not> (da_ExpiresIn da > 0 \<and> deadline < wo_now wd w)"
    using "1.hyps" "1.prems" by (auto split: option.splits if_splits)
  show ?case
  proof (cases r)
    case (Inl e)
    note h = "1.hyps" [unfolded r Inl, simplified go]
    show ?thesis
    proof (cases "\<exists>i. loop c wd ep da deadline i w' = Some p")
      case True
      then show ?thesis using "1.IH" "1.prems" by blast
    next
      case False
      then show ?thesis using h "1.prems" go by (cases e) (auto split: if_splits)
    qed
  next
    case (Inr t)
    note h = "1.hyps" [unfolded r Inr, simplified go]
    have "p = (Inr t, w') \<and> lt_AccessToken t \<noteq> []" using h "1.prems" go by (auto split: if_splits)
    then show ?thesis using r Inr "1.prems" by auto
  qed
qed (rule assms)

text \<open>The loop runs while the deadline is ahead and every round moves the clock by a second at
  least; the interval grows no faster than the clock, so it does not overflow.\<close>

lemma poll_loop_ends:
  assumes "clock_forward wd" "0 < da_ExpiresIn da"
    and "second \<le> interval" "interval + 5 * (deadline - wo_now wd w) + 5 * second \<le> max_int64"
  shows "\<exists>p. poll_loop c wd ep da deadline interval w = Some p"
  using assms(3,4)
proof (induction "nat (deadline - wo_now wd w + 1)" arbitrary: interval w rule: less_induct)
  case less
  obtain r w' where r: "postForm wd (ep_Token ep) (poll_form c da) token_fields (wo_sleep wd interval w) = (r, w')"
    by fastforce
  have "wo_now wd w + max interval 0 \<le> wo_now wd (wo_sleep wd interval w)"
    using assms(1) unfolding clock_forward_def by blast
  then have now: "wo_now wd w + interval \<le> wo_now wd w'"
    using postForm_forward [OF assms(1) r] by linarith
  show ?case
  proof (cases "wo_ctx_err wd w = None \<and> \<not> deadline < wo_now wd w")
    case True
    have s: "second > 0" by (simp add: second_def)
    have dec: "nat (deadline - wo_now wd w' + 1) < nat (deadline - wo_now wd w + 1)"
      using True now less.prems(1) s by linarith
    have gain: "5 * (deadline - wo_now wd w') \<le> 5 * (deadline - wo_now wd w) - 5 * second"
      using now less.prems(1) by simp
    have same: "\<exists>p. poll_loop c wd ep da deadline interval w' = Some p"
      by (rule less.hyps [OF dec less.prems(1)]) (use gain less.prems s in linarith)
    have wrap: "wrap64 (interval + 5 * second) = interval + 5 * second"
      using True less.prems s by (intro wrap64_id) (auto simp: min_int64_def)
    have slow: "\<exists>p. poll_loop c wd ep da deadline (interval + 5 * second) w' = Some p"
      by (rule less.hyps [OF dec]) (use gain less.prems s in linarith)+
    show ?thesis
    proof (cases r)
      case (Inl e)
      then show ?thesis using True r same slow wrap
        by (subst poll_loop.simps) (cases e; simp)
    next
      case (Inr tok)
      then show ?thesis using True r by (subst poll_loop.simps) simp
    qed
  next
    case False
    then show ?thesis using assms(2) by (subst poll_loop.simps) (auto split: option.splits)
  qed
qed

text \<open>A world that answers requests from a list, for the examples; its state is the time and the
  answers to come.\<close>

definition demo_world :: "(time \<times> answer list) world" where
  "demo_world =
     \<lparr>wo_get = (\<lambda>u (t, as). case as of [] \<Rightarrow> (Inl ''refused'', (t, [])) | a # as' \<Rightarrow> (Inr a, (t, as'))),
      wo_post = (\<lambda>u ct b (t, as). case as of [] \<Rightarrow> (Inl ''refused'', (t, [])) | a # as' \<Rightarrow> (Inr a, (t, as'))),
      wo_now = fst, wo_sleep = (\<lambda>d (t, as). (t + max d 0, as)), wo_ctx_err = (\<lambda>_. None)\<rparr>"

definition demo_answer :: "int \<Rightarrow> (string \<times> string) list \<Rightarrow> answer" where
  "demo_answer status ms = \<lparr>an_status = status, an_body = json_object ms, an_broken = False\<rparr>"

definition demo_login :: client where
  "demo_login = \<lparr>cl_Issuer = ''http://idp'', cl_ClientID = ''ozone-s3'', cl_Scope = ''openid''\<rparr>"

definition demo_endpoints :: endpoints where
  "demo_endpoints = \<lparr>ep_DeviceAuthorization = ''http://idp/device'', ep_Token = ''http://idp/token''\<rparr>"

definition demo_device :: device_auth where
  "demo_device = \<lparr>da_DeviceCode = ''dc'', da_UserCode = ''UC'', da_VerificationURI = ''http://idp/v'',
     da_VerificationURIComplete = [], da_ExpiresIn = 600, da_Interval = 5\<rparr>"

definition demo_token :: login_token where
  "demo_token = \<lparr>lt_AccessToken = ''jwt'', lt_RefreshToken = ''r1'', lt_ExpiresIn = 0\<rparr>"

lemma demo_clock_forward: "clock_forward demo_world"
  by (auto simp: clock_forward_def demo_world_def split: list.splits)

text \<open>C15: polling ends. When the device code has a lifetime of at most a year, the server's polling
  interval is at most a day, sleeping takes the time asked for and no request turns the clock
  back, \<open>Poll\<close> returns, whatever the token endpoint answers.\<close>

theorem poll_terminates:
  assumes "clock_forward wd" "0 < da_ExpiresIn da" "da_ExpiresIn da \<le> 31536000" "da_Interval da \<le> 86400"
  shows "\<exists>r w'. Poll c wd ep da w = Some (r, w')"
proof -
  have e: "seconds (da_ExpiresIn da) = da_ExpiresIn da * second" using assms(2,3) by (intro seconds_id) auto
  have i: "seconds (max (da_Interval da) 1) = max (da_Interval da) 1 * second"
    using assms(4) by (intro seconds_id) auto
  have b: "1 \<le> max (da_Interval da) 1" "max (da_Interval da) 1 \<le> 86400" using assms(4) by auto
  have "\<exists>p. poll_loop c wd ep da (wo_now wd w + da_ExpiresIn da * second) (max (da_Interval da) 1 * second) w = Some p"
    by (rule poll_loop_ends [OF assms(1,2)])
      (use b assms(3) in \<open>simp_all add: second_def max_int64_def\<close>)
  then show ?thesis unfolding Poll_def e i time_add_def by auto
qed

theorem poll_terminates_witness:
  "\<exists>r w'. Poll demo_login demo_world demo_endpoints demo_device
     (0, [demo_answer 400 [(''error'', ''authorization_pending'')], demo_answer 400 [(''error'', ''slow_down'')]]) = Some (r, w')"
  by (rule poll_terminates [OF demo_clock_forward]) (simp_all add: demo_device_def)

lemma demo_postForm:
  "postForm demo_world ''http://idp/token'' form token_fields
     (t, [demo_answer 200 [(''access_token'', ''jwt''), (''refresh_token'', ''r1'')]]) = (Inr demo_token, (t, []))"
proof -
  let ?ms = "[(''access_token'', ''jwt''), (''refresh_token'', ''r1'')]"
  have url: "url_parse ''http://idp/token'' \<noteq> None" by code_simp
  have "scannable ''jwt''" "scannable ''r1''" by code_simp+
  then have json: "json_unmarshal (json_object ?ms) = Some (JObj (map json_pair ?ms))"
    by (intro json_unmarshal_object) simp_all
  have "length (json_object ?ms) = 43" by code_simp
  then have limit: "take bodyLimit (json_object ?ms) = json_object ?ms" by (simp add: bodyLimit_def)
  have "json_members (JObj (map json_pair ?ms)) = Some [(''access_token'', JStr ''jwt''), (''refresh_token'', JStr ''r1'')]"
    by code_simp
  moreover have "list_all is_ascii [''access_token'', ''refresh_token'', ''expires_in'']" by code_simp
  moreover have "unquote ''jwt'' = ''jwt''" "unquote ''r1'' = ''r1''" by code_simp+
  ultimately have "struct_of (json_unmarshal (json_object ?ms)) token_fields = Some demo_token"
    unfolding json by (simp add: struct_of_def token_fields_def to_string_def same_field_ascii upper_char_def char_class_defs
        demo_token_def)
  then show ?thesis using url limit by (simp add: postForm_def demo_world_def demo_answer_def)
qed

text \<open>A token that \<open>Poll\<close> returns was issued. It is the decoded body of an answer with a
  status of the 200s that the token endpoint gave to a poll for this device code, and its
  access token is not empty.\<close>

theorem poll_returns_issued_token:
  assumes "Poll c wd ep da w = Some (Inr tok, w')"
  shows "lt_AccessToken tok \<noteq> [] \<and> (\<exists>w1 a. wo_post wd (ep_Token ep) ''application/x-www-form-urlencoded''
      (values_encode (poll_form c da)) w1 = (Inr a, w') \<and> an_status a div 100 = 2 \<and>
    struct_of (json_unmarshal (take bodyLimit (an_body a))) token_fields = Some tok)"
  using poll_loop_Inr [OF assms [unfolded Poll_def]] postForm_Inr by fastforce



end
