(* ===== verification/Go_Xml_Decode.thy ===== *)
theory Go_Xml_Decode
  imports Go_Xml
begin

text \<open>
  \<open>xml.Unmarshal\<close> of Go's package \<open>encoding/xml\<close>, into a structure whose fields are strings with
  a path of element names: the tokens of the strict decoder, and the assignment of the
  character data at a path to its field. Which runes from U+0080 on may stand in a name is the
  parameter \<open>uni\<close> (for the first rune of a name, and for the others). What ends the token
  sequence, the end of the input or a syntax error, is an error to \<open>Unmarshal\<close> either way
  unless the root element has been closed.
\<close>

section \<open>Characters\<close>

text \<open>The character range of XML, on valid UTF-8.\<close>

definition in_xml_range :: "string \<Rightarrow> bool" where
  "in_xml_range u = (case u of
     [c] \<Rightarrow> 32 \<le> ord c \<or> ord c \<in> {9, 10, 13}
   | _ \<Rightarrow> u \<notin> {[CHR 0xEF, CHR 0xBF, CHR 0xBE], [CHR 0xEF, CHR 0xBF, CHR 0xBF]})"

function xml_chars_ok :: "string \<Rightarrow> bool" where
  "xml_chars_ok s =
     (if utf8_len s = 0 then s = []
      else in_xml_range (take (utf8_len s) s) \<and> xml_chars_ok (drop (utf8_len s) s))"
  by pat_completeness auto
termination
proof (relation "measure length")
  fix s assume "utf8_len s \<noteq> 0"
  then show "(drop (utf8_len s) s, s) \<in> measure length" using utf8_len_le [of s] by simp
qed simp

declare xml_chars_ok.simps [simp del]

section \<open>Names\<close>

type_synonym xml_name = "string \<times> string"

definition isNameByte :: "char \<Rightarrow> bool" where
  "isNameByte c \<longleftrightarrow> is_alnum c \<or> c \<in> set ''_:.-''"

definition name_rune :: "(bool \<Rightarrow> string \<Rightarrow> bool) \<Rightarrow> bool \<Rightarrow> string \<Rightarrow> bool" where
  "name_rune uni first u = (case u of
     [c] \<Rightarrow> is_upper c \<or> is_lower c \<or> c \<in> set ''_:'' \<or> \<not> first \<and> (is_digit c \<or> c \<in> set ''.-'')
   | _ \<Rightarrow> uni first u)"

function xml_is_name :: "(bool \<Rightarrow> string \<Rightarrow> bool) \<Rightarrow> bool \<Rightarrow> string \<Rightarrow> bool" where
  "xml_is_name uni first s =
     (if utf8_len s = 0 then s = [] \<and> \<not> first
      else name_rune uni first (take (utf8_len s) s) \<and> xml_is_name uni False (drop (utf8_len s) s))"
  by pat_completeness auto
termination
proof (relation "measure (\<lambda>(_, _, s). length s)")
  fix s uni first assume "utf8_len s \<noteq> 0"
  then show "((uni, False, drop (utf8_len s) s), uni, first, s) \<in> measure (\<lambda>(_, _, s). length s)"
    using utf8_len_le [of s] by simp
qed simp

declare xml_is_name.simps [simp del]

definition name_byte :: "char \<Rightarrow> bool" where
  "name_byte c \<longleftrightarrow> 128 \<le> ord c \<or> isNameByte c"

text \<open>The input must go on after a name.\<close>

definition read_name :: "(bool \<Rightarrow> string \<Rightarrow> bool) \<Rightarrow> string \<Rightarrow> (string \<times> string) option" where
  "read_name uni s =
     (let n = takeWhile name_byte s; r = dropWhile name_byte s in
      if r \<noteq> [] \<and> xml_is_name uni True n then Some (n, r) else None)"

text \<open>A name with its prefix.\<close>

definition nsname :: "(bool \<Rightarrow> string \<Rightarrow> bool) \<Rightarrow> string \<Rightarrow> (xml_name \<times> string) option" where
  "nsname uni s = (case read_name uni s of
     None \<Rightarrow> None
   | Some (n, r) \<Rightarrow>
       if 1 < count_list n (CHR '':'') then None
       else (case cut (CHR '':'') n of (space, local, found) \<Rightarrow>
         if \<not> found \<or> space = [] \<or> local = [] then Some (([], n), r) else Some ((space, local), r)))"

definition xml_space :: "string \<Rightarrow> string" where
  "xml_space s = dropWhile (\<lambda>c. ord c \<in> {9, 10, 13, 32}) s"

section \<open>Text\<close>

definition xml_digit :: "nat \<Rightarrow> char \<Rightarrow> bool" where
  "xml_digit base c \<longleftrightarrow> is_digit c \<or> base = 16 \<and> unhex c \<noteq> None"

definition xml_number :: "nat \<Rightarrow> string \<Rightarrow> nat" where
  "xml_number base ds = foldl (\<lambda>n c. n * base + the (unhex c)) 0 ds"

text \<open>The conversion \<open>string(rune(n))\<close>.\<close>

definition rune_string :: "nat \<Rightarrow> string" where
  "rune_string n = (if 0xD800 \<le> n \<and> n \<le> 0xDFFF then replacement_char else utf8_encode n)"

text \<open>The entity after an ampersand, and what follows it.\<close>

definition xml_entity :: "string \<Rightarrow> (string \<times> string) option" where
  "xml_entity s = (case s of
     c # r \<Rightarrow>
       if c = CHR ''#'' then
         let base = (if take 1 r = ''x'' then 16 else 10); r1 = (if take 1 r = ''x'' then drop 1 r else r);
             ds = takeWhile (xml_digit base) r1; r2 = dropWhile (xml_digit base) r1
         in if take 1 r2 = '';'' \<and> ds \<noteq> [] \<and> xml_number base ds \<le> 0x10FFFF
            then Some (rune_string (xml_number base ds), drop 1 r2) else None
       else
         let n = takeWhile name_byte s; r1 = dropWhile name_byte s
         in if take 1 r1 = '';'' then map_option (\<lambda>t. (t, drop 1 r1)) (map_of
              [(''lt'', ''<''), (''gt'', ''>''), (''amp'', ''&''), (''apos'', [CHR 39]), (''quot'', [CHR 34])] n)
            else None
   | [] \<Rightarrow> None)"

lemma xml_entity_shorter: "xml_entity s = Some (t, r) \<Longrightarrow> length r < length s"
  by (cases s) (auto simp: xml_entity_def Let_def split: if_splits
      dest: arg_cong [where f = length] intro: le_less_trans [OF diff_le_self]
      intro!: le_imp_less_Suc le_trans [OF length_dropWhile_le] le_trans [OF diff_le_self])

text \<open>Text up to its end: the quote of an attribute value, \<open>]]>\<close> in a CDATA section, and \<open><\<close>,
  which is left in the input, or the end of the input elsewhere. \<open>b0\<close> and \<open>b1\<close> are the two
  bytes before.\<close>

function xml_chars :: "char option \<Rightarrow> bool \<Rightarrow> char \<Rightarrow> char \<Rightarrow> string \<Rightarrow> (string \<times> string) option" where
  "xml_chars quote cdata b0 b1 [] = (if cdata then None else Some ([], []))"
| "xml_chars quote cdata b0 b1 (b # s) =
     (if quote = None \<and> b0 = CHR '']'' \<and> b1 = CHR '']'' \<and> b = CHR ''>'' then (if cdata then Some ([], s) else None)
      else if b = CHR ''<'' \<and> \<not> cdata then (if quote = None then Some ([], b # s) else None)
      else if quote = Some b then Some ([], s)
      else if b = CHR ''&'' \<and> \<not> cdata then
        (case xml_entity s of
           None \<Rightarrow> None
         | Some (t, r) \<Rightarrow> map_option (apfst (append t)) (xml_chars quote cdata (CHR 0x00) (CHR 0x00) r))
      else map_option (apfst (append (if b = CHR 0x0D then [CHR 0x0A] else if b1 = CHR 0x0D \<and> b = CHR 0x0A then [] else [b])))
        (xml_chars quote cdata b1 b s))"
  by pat_completeness auto
termination
  by (relation "measure (\<lambda>(_, _, _, _, s). length s)") (auto dest: xml_entity_shorter)

text \<open>The two brackets that close a CDATA section have been read as text.\<close>

definition xml_text :: "char option \<Rightarrow> bool \<Rightarrow> string \<Rightarrow> (string \<times> string) option" where
  "xml_text quote cdata s = (case xml_chars quote cdata (CHR 0x00) (CHR 0x00) s of
     None \<Rightarrow> None
   | Some (t, r) \<Rightarrow>
       let t' = (if cdata then take (length t - 2) t else t) in if xml_chars_ok t' then Some (t', r) else None)"

lemma xml_chars_shorter: "xml_chars quote cdata b0 b1 s = Some (t, r) \<Longrightarrow> length r \<le> length s"
  by (induction quote cdata b0 b1 s arbitrary: t r rule: xml_chars.induct)
    (fastforce split: if_splits option.splits dest: xml_entity_shorter)+

lemma xml_text_shorter: "xml_text quote cdata s = Some (t, r) \<Longrightarrow> length r \<le> length s"
  by (auto simp: xml_text_def Let_def split: if_splits option.splits prod.splits dest!: xml_chars_shorter)

lemma xml_text_progress:
  "xml_text None False (c # s) = Some (t, r) \<Longrightarrow> c \<noteq> CHR ''<'' \<Longrightarrow> length r \<le> length s"
  by (auto simp: xml_text_def Let_def split: if_splits option.splits prod.splits
      dest!: xml_chars_shorter xml_entity_shorter)

section \<open>Markup\<close>

datatype xml_token =
    StartElement xml_name "(xml_name \<times> string) list"
  | EndElement xml_name
  | CharData string
  | Ignored

lemma nsname_shorter: "nsname uni s = Some (n, r) \<Longrightarrow> length r \<le> length s"
  by (auto simp: nsname_def read_name_def Let_def length_dropWhile_le split: option.splits if_splits prod.splits)

lemma xml_space_shorter: "length (xml_space s) \<le> length s"
  by (simp add: xml_space_def length_dropWhile_le)

text \<open>The attributes of a start element: whether it is closed at once, and the rest.\<close>

function xml_attrs :: "(bool \<Rightarrow> string \<Rightarrow> bool) \<Rightarrow> string \<Rightarrow>
    ((xml_name \<times> string) list \<times> bool \<times> string) option" where
  "xml_attrs uni s = (case xml_space s of
     [] \<Rightarrow> None
   | c # r \<Rightarrow>
       if c = CHR ''/'' then (if take 1 r = ''>'' then Some ([], True, drop 1 r) else None)
       else if c = CHR ''>'' then Some ([], False, r)
       else (case nsname uni (c # r) of
           None \<Rightarrow> None
         | Some (n, r1) \<Rightarrow> (case xml_space r1 of
               [] \<Rightarrow> None
             | e # r2 \<Rightarrow>
                 if e \<noteq> CHR ''='' then None
                 else (case xml_space r2 of
                     [] \<Rightarrow> None
                   | q # r3 \<Rightarrow>
                       if ord q \<in> {34, 39} then
                         (case xml_text (Some q) False r3 of
                            None \<Rightarrow> None
                          | Some (v, r4) \<Rightarrow> map_option (apfst (Cons (n, v))) (xml_attrs uni r4))
                       else None))))"
  by pat_completeness auto
termination
proof (relation "measure (\<lambda>(_, s). length s)", goal_cases)
  case (2 uni s c r x n r1 e r2 q r3 y v r4)
  have "Suc (length r2) \<le> length r1" "Suc (length r3) \<le> length r2" "Suc (length r) \<le> length s"
    using xml_space_shorter [of r1] xml_space_shorter [of r2] xml_space_shorter [of s] 2 by simp_all
  then show ?case using nsname_shorter [of uni "c # r" n r1] xml_text_shorter [of "Some q" False r3 v r4] 2 by auto
qed simp

declare xml_attrs.simps [simp del]

text \<open>A directive up to its closing bracket; brackets nest, except in quotes, and a comment in it
  is skipped. A byte gives the quote and the depth after it and the number of bytes to skip.\<close>

definition directive_step :: "char option \<Rightarrow> nat \<Rightarrow> char \<Rightarrow> string \<Rightarrow> (char option \<times> nat \<times> nat) option" where
  "directive_step inquote depth b s =
     (if inquote = Some b then Some (None, depth, 0)
      else if inquote \<noteq> None then Some (inquote, depth, 0)
      else if ord b \<in> {34, 39} then Some (Some b, depth, 0)
      else if b = CHR ''>'' then Some (None, depth - 1, 0)
      else if b = CHR ''<'' then
        (if has_prefix ''!--'' s then map_option (\<lambda>i. (None, depth, i + 6)) (find_sub ''-->'' (drop 3 s))
         else Some (None, depth + 1, if has_prefix ''!-'' s then 2 else if has_prefix ''!'' s then 1 else 0))
      else Some (None, depth, 0))"

function directive :: "char option \<Rightarrow> nat \<Rightarrow> string \<Rightarrow> string option" where
  "directive inquote depth [] = None"
| "directive inquote depth (b # s) =
     (if inquote = None \<and> b = CHR ''>'' \<and> depth = 0 then Some s
      else (case directive_step inquote depth b s of
          None \<Rightarrow> None
        | Some (inquote', depth', n) \<Rightarrow> directive inquote' depth' (drop n s)))"
  by pat_completeness auto
termination
  by (relation "measure (\<lambda>(_, _, s). length s)") auto

text \<open>The value of a parameter of the XML declaration.\<close>

function procInst :: "string \<Rightarrow> string \<Rightarrow> string" where
  "procInst param s = (case find_sub (param @ ''='') s of
     None \<Rightarrow> []
   | Some k \<Rightarrow> (case drop (length (param @ ''='') + k) s of
         [] \<Rightarrow> []
       | c # r \<Rightarrow> if ord c \<in> {34, 39} then (case cut c r of (v, _, found) \<Rightarrow> if found then v else [])
                  else procInst param r))"
  by pat_completeness auto
termination
proof (relation "measure (\<lambda>(_, s). length s)", goal_cases)
  case (2 param s k c r)
  then have "length (drop (length (param @ ''='') + k) s) = Suc (length r)" by simp
  then show ?case by simp
qed simp

declare procInst.simps [simp del]

definition declaration_ok :: "string \<Rightarrow> bool" where
  "declaration_ok content \<longleftrightarrow> procInst ''version'' content \<in> {[], ''1.0''} \<and>
     to_lower (procInst ''encoding'' content) \<in> {[], ''utf-8''}"

text \<open>What follows \<open></\<close>, \<open><?\<close>, \<open><!\<close>, and \<open><\<close>.\<close>

definition end_markup :: "(bool \<Rightarrow> string \<Rightarrow> bool) \<Rightarrow> string \<Rightarrow> (xml_token list \<times> string) option" where
  "end_markup uni s = (case nsname uni s of
     None \<Rightarrow> None
   | Some (n, r) \<Rightarrow> if take 1 (xml_space r) = ''>'' then Some ([EndElement n], drop 1 (xml_space r)) else None)"

definition proc_markup :: "(bool \<Rightarrow> string \<Rightarrow> bool) \<Rightarrow> string \<Rightarrow> (xml_token list \<times> string) option" where
  "proc_markup uni s = (case read_name uni s of
     None \<Rightarrow> None
   | Some (target, r) \<Rightarrow> (case find_sub ''?>'' (xml_space r) of
       None \<Rightarrow> None
     | Some i \<Rightarrow>
         if target = ''xml'' \<and> \<not> declaration_ok (take i (xml_space r)) then None
         else Some ([Ignored], drop (i + 2) (xml_space r))))"

definition bang_markup :: "string \<Rightarrow> (xml_token list \<times> string) option" where
  "bang_markup s = (case s of
     [] \<Rightarrow> None
   | c # r \<Rightarrow>
       if c = CHR ''-'' then
         (if take 1 r \<noteq> ''-'' then None
          else (case find_sub ''--'' (drop 1 r) of
              None \<Rightarrow> None
            | Some i \<Rightarrow> if take 1 (drop (i + 3) r) = ''>'' then Some ([Ignored], drop (i + 4) r) else None))
       else if c = CHR ''['' then
         (if has_prefix ''CDATA['' r then
            (case xml_text None True (drop 6 r) of None \<Rightarrow> None | Some (t, r2) \<Rightarrow> Some ([CharData t], r2))
          else None)
       else (case directive None 0 r of None \<Rightarrow> None | Some r2 \<Rightarrow> Some ([Ignored], r2)))"

definition start_markup :: "(bool \<Rightarrow> string \<Rightarrow> bool) \<Rightarrow> string \<Rightarrow> (xml_token list \<times> string) option" where
  "start_markup uni s = (case nsname uni s of
     None \<Rightarrow> None
   | Some (n, r) \<Rightarrow> (case xml_attrs uni r of
       None \<Rightarrow> None
     | Some (as, closed, r2) \<Rightarrow> Some (StartElement n as # (if closed then [EndElement n] else []), r2)))"

definition xml_markup :: "(bool \<Rightarrow> string \<Rightarrow> bool) \<Rightarrow> string \<Rightarrow> (xml_token list \<times> string) option" where
  "xml_markup uni s = (case s of
     [] \<Rightarrow> None
   | b # r \<Rightarrow>
       if b = CHR ''/'' then end_markup uni r else if b = CHR ''?'' then proc_markup uni r
       else if b = CHR ''!'' then bang_markup r else start_markup uni s)"

lemma read_name_shorter: "read_name uni s = Some (n, r) \<Longrightarrow> length r \<le> length s"
  by (auto simp: read_name_def Let_def length_dropWhile_le split: if_splits)

lemma xml_attrs_shorter: "xml_attrs uni s = Some (as, closed, r) \<Longrightarrow> length r \<le> length s"
proof (induction uni s arbitrary: as closed r rule: xml_attrs.induct)
  case (1 uni s)
  show ?case
  proof (cases "xml_space s")
    case (Cons c r0)
    then have l0: "Suc (length r0) \<le> length s" using xml_space_shorter [of s] by simp
    show ?thesis
    proof (cases "c = CHR ''/'' \<or> c = CHR ''>''")
      case True
      then show ?thesis using 1(2) Cons l0 by (subst (asm) xml_attrs.simps) (auto split: if_splits)
    next
      case False
      with 1(2) Cons obtain n r1 r2 q r3 v r4 as' where
        s: "nsname uni (c # r0) = Some (n, r1)" "xml_space r1 = CHR ''='' # r2" "xml_space r2 = q # r3"
          "ord q \<in> {34, 39}" "xml_text (Some q) False r3 = Some (v, r4)" "xml_attrs uni r4 = Some (as', closed, r)"
        by (subst (asm) xml_attrs.simps) (auto split: list.splits option.splits if_splits)
      have "length r \<le> length r4"
        by (rule 1(1) [OF Cons _ _ s(1) _ s(2) _ s(3,4,5) _ s(6)]) (use False in auto)
      then show ?thesis
        using l0 nsname_shorter [OF s(1)] xml_text_shorter [OF s(5)] xml_space_shorter [of r1]
          xml_space_shorter [of r2] s(2,3) by simp
    qed
  qed (use 1(2) in \<open>simp add: xml_attrs.simps\<close>)
qed

lemma directive_shorter: "directive inquote depth s = Some r \<Longrightarrow> length r \<le> length s"
  by (induction inquote depth s arbitrary: r rule: directive.induct)
    (force split: if_splits option.splits prod.splits)+

lemma space_drop_shorter: "length r \<le> n \<Longrightarrow> length (drop k (xml_space r)) \<le> n"
  using xml_space_shorter [of r] by simp

lemma xml_markup_shorter: "xml_markup uni s = Some (ts, r) \<Longrightarrow> length r \<le> length s"
proof (cases s)
  case (Cons b s')
  have "end_markup uni s' = Some (ts, r) \<Longrightarrow> length r \<le> length s'"
    by (auto simp: end_markup_def split: option.splits if_splits simp del: length_drop
        intro!: space_drop_shorter dest: nsname_shorter)
  moreover have "proc_markup uni s' = Some (ts, r) \<Longrightarrow> length r \<le> length s'"
    by (auto simp: proc_markup_def split: option.splits if_splits simp del: length_drop
        intro!: space_drop_shorter dest: read_name_shorter)
  moreover have "bang_markup s' = Some (ts, r) \<Longrightarrow> length r \<le> length s'"
    by (auto simp: bang_markup_def split: list.splits option.splits if_splits dest: directive_shorter xml_text_shorter)
  moreover have "start_markup uni s = Some (ts, r) \<Longrightarrow> length r \<le> length s"
    by (auto simp: start_markup_def split: option.splits prod.splits dest!: xml_attrs_shorter nsname_shorter)
  moreover assume "xml_markup uni s = Some (ts, r)"
  ultimately show ?thesis using Cons by (auto simp: xml_markup_def split: if_splits)
qed (simp add: xml_markup_def)

section \<open>The token sequence\<close>

function raw_tokens :: "(bool \<Rightarrow> string \<Rightarrow> bool) \<Rightarrow> string \<Rightarrow> xml_token list" where
  "raw_tokens uni [] = []"
| "raw_tokens uni (c # s) =
     (if c = CHR ''<'' then
        (case xml_markup uni s of None \<Rightarrow> [] | Some (ts, r) \<Rightarrow> ts @ raw_tokens uni r)
      else
        (case xml_text None False (c # s) of None \<Rightarrow> [] | Some (t, r) \<Rightarrow> CharData t # raw_tokens uni r))"
  by pat_completeness auto
termination
  by (relation "measure (\<lambda>(_, s). length s)")
    (auto dest: xml_markup_shorter xml_text_progress simp: le_imp_less_Suc)

section \<open>Unmarshalling\<close>

text \<open>
  The fields of the structure, each with its path (the parents) and its name. An open element
  is on a path that leads to a field, holds the text of a field, or is skipped.
\<close>

type_synonym xml_field = "string list \<times> string"

datatype xml_frame = On_path "string list" | In_field nat string | Skipped

text \<open>\<open>unmarshalPath\<close>: the first field that the element belongs to.\<close>

fun match_field :: "xml_field list \<Rightarrow> nat \<Rightarrow> string list \<Rightarrow> string \<Rightarrow> xml_frame" where
  "match_field [] i parents local = Skipped"
| "match_field ((ps, name) # fs) i parents local =
     (if take (length parents) ps \<noteq> parents then match_field fs (Suc i) parents local
      else if length ps = length parents \<and> name = local then In_field i []
      else if length parents < length ps \<and> ps ! length parents = local then On_path (parents @ [local])
      else match_field fs (Suc i) parents local)"

definition child_frame :: "xml_field list \<Rightarrow> xml_frame \<Rightarrow> string \<Rightarrow> xml_frame" where
  "child_frame fs f local = (case f of On_path ps \<Rightarrow> match_field fs 0 ps local | _ \<Rightarrow> Skipped)"

definition close_field :: "xml_frame \<Rightarrow> string list \<Rightarrow> string list" where
  "close_field f vals = (case f of In_field i t \<Rightarrow> vals[i := t] | _ \<Rightarrow> vals)"

text \<open>The values of the fields, and whether the root element was closed before an error.\<close>

fun unmarshal_run ::
  "xml_field list \<Rightarrow> (xml_name \<times> xml_frame) list \<Rightarrow> string list \<Rightarrow> xml_token list \<Rightarrow> string list \<times> bool" where
  "unmarshal_run fs st vals [] = (vals, False)"
| "unmarshal_run fs st vals (StartElement n as # ts) =
     unmarshal_run fs ((n, case st of [] \<Rightarrow> On_path [] | (_, f) # _ \<Rightarrow> child_frame fs f (snd n)) # st) vals ts"
| "unmarshal_run fs st vals (EndElement n # ts) =
     (case st of
        [] \<Rightarrow> (vals, False)
      | (m, f) # st' \<Rightarrow>
          if m \<noteq> n then (vals, False)
          else if st' = [] then (close_field f vals, True)
          else unmarshal_run fs st' (close_field f vals) ts)"
| "unmarshal_run fs st vals (CharData t # ts) =
     unmarshal_run fs (case st of (m, In_field i d) # st' \<Rightarrow> (m, In_field i (d @ t)) # st' | _ \<Rightarrow> st) vals ts"
| "unmarshal_run fs st vals (Ignored # ts) = unmarshal_run fs st vals ts"

definition xml_unmarshal :: "(bool \<Rightarrow> string \<Rightarrow> bool) \<Rightarrow> xml_field list \<Rightarrow> string \<Rightarrow> string list \<times> bool" where
  "xml_unmarshal uni fs s = unmarshal_run fs [] (replicate (length fs) []) (raw_tokens uni s)"

end
