(* ===== verification/Portal.thy ===== *)
theory Portal
  imports Devicelogin Sts Server Go_Xml_Decode Go_Mux
begin

text \<open>
  \<open>cmd/credential-portal/main.go\<close>: the web page that exchanges the access token of a signed-in
  user at the proxy's STS endpoint and shows the credentials. The HTTP client is the parameter
  \<open>post\<close>; the parameter \<open>uni\<close> belongs to \<open>xml.Unmarshal\<close> (\<open>Go_Xml_Decode\<close>). A response holds the
  header fields that the handler has set when the status is written; what it sets afterwards
  is not sent.
\<close>

section \<open>Data\<close>

record sts_credentials =
  sc_AccessKeyID :: string
  sc_SecretAccessKey :: string
  sc_SessionToken :: string
  sc_Expiration :: string
  sc_Subject :: string

record portal =
  po_stsEndpoint :: string
  po_roleArn :: string
  po_publicEndpoint :: string

record page_data =
  pd_Username :: string
  pd_Endpoint :: string
  pd_Creds :: sts_credentials
  pd_Expiration :: string
  pd_Error :: string

text \<open>The fields of \<open>stsCredentials\<close> and \<open>stsError\<close> with the paths of their tags.\<close>

definition credentials_fields :: "xml_field list" where
  "credentials_fields =
     [([''AssumeRoleWithWebIdentityResult'', ''Credentials''], ''AccessKeyId''),
      ([''AssumeRoleWithWebIdentityResult'', ''Credentials''], ''SecretAccessKey''),
      ([''AssumeRoleWithWebIdentityResult'', ''Credentials''], ''SessionToken''),
      ([''AssumeRoleWithWebIdentityResult'', ''Credentials''], ''Expiration''),
      ([''AssumeRoleWithWebIdentityResult''], ''SubjectFromWebIdentityToken'')]"

definition stsError_fields :: "xml_field list" where
  "stsError_fields = [([''Error''], ''Code''), ([''Error''], ''Message'')]"

definition creds_of :: "string list \<Rightarrow> sts_credentials" where
  "creds_of vs = \<lparr>sc_AccessKeyID = vs ! 0, sc_SecretAccessKey = vs ! 1, sc_SessionToken = vs ! 2,
     sc_Expiration = vs ! 3, sc_Subject = vs ! 4\<rparr>"

definition no_creds :: sts_credentials where
  "no_creds = \<lparr>sc_AccessKeyID = [], sc_SecretAccessKey = [], sc_SessionToken = [], sc_Expiration = [], sc_Subject = []\<rparr>"

definition portal_envOr :: "(string \<Rightarrow> string) \<Rightarrow> string \<Rightarrow> string \<Rightarrow> string" where
  "portal_envOr env key fallback = (if env key \<noteq> [] then env key else fallback)"

definition portal_orUnknown :: "string \<Rightarrow> string" where
  "portal_orUnknown s = (if s = [] then ''unknown'' else s)"

definition newPortal :: "(string \<Rightarrow> string) \<Rightarrow> portal" where
  "newPortal env =
     \<lparr>po_stsEndpoint = portal_envOr env ''PORTAL_STS_ENDPOINT'' ''http://proxy:9000'',
      po_roleArn = portal_envOr env ''PORTAL_ROLE_ARN'' ''arn:ozone:iam::dev:role/oidc'',
      po_publicEndpoint = portal_envOr env ''PORTAL_PUBLIC_ENDPOINT'' ''http://localhost:9000''\<rparr>"

section \<open>The page\<close>

text \<open>The template is text with fields, which \<open>html/template\<close> escapes for HTML text. In the text
  the mark \<open>^\<close> stands for a double quote.\<close>

datatype piece = Static string | Field string

definition html_escape_byte :: "char \<Rightarrow> string" where
  "html_escape_byte c =
     (if c = CHR 0x00 then replacement_char else if c = CHR 0x22 then ''&#34;'' else if c = CHR ''&'' then ''&amp;''
      else if c = CHR 0x27 then ''&#39;'' else if c = CHR ''+'' then ''&#43;'' else if c = CHR ''<'' then ''&lt;''
      else if c = CHR ''>'' then ''&gt;'' else [c])"

definition html_escape :: "string \<Rightarrow> string" where
  "html_escape s = concat (map html_escape_byte s)"

fun render_piece :: "piece \<Rightarrow> string" where
  "render_piece (Static s) = s"
| "render_piece (Field s) = html_escape s"

definition lines :: "string list \<Rightarrow> string" where
  "lines ls = join [CHR 0x0A] (map (map (\<lambda>c. if c = CHR ''^'' then CHR 0x22 else c)) ls)"

definition page_head :: string where
  "page_head = lines [''<!doctype html>'',
     ''<html lang=^en^>'',
     ''<head>'',
     ''<meta charset=^utf-8^>'',
     ''<title>Ozone S3 credentials</title>'',
     ''<style>'',
     ''  body { font: 15px/1.5 system-ui, sans-serif; max-width: 62rem; margin: 3rem auto; padding: 0 1rem; color: #1a2333; }'',
     ''  h1 { font-size: 1.4rem; } h2 { font-size: 1.05rem; margin-top: 2rem; }'',
     ''  pre { background: #f4f6fa; border: 1px solid #d8dee9; border-radius: 6px; padding: .8rem 1rem; overflow-x: auto; }'',
     ''  table { border-collapse: collapse; } td { padding: .25rem .8rem .25rem 0; vertical-align: top; }'',
     ''  td:first-child { color: #5a6578; white-space: nowrap; }'',
     ''  code { word-break: break-all; }'',
     ''  .err { background: #fdf2f2; border: 1px solid #e8b4b4; border-radius: 6px; padding: 1rem; }'',
     ''  .note { color: #5a6578; font-size: .9rem; }'',
     ''  a.again { display: inline-block; margin-top: 1.5rem; }'',
     ''</style>'',
     ''</head>'',
     ''<body>'',
     ''<h1>Ozone S3 temporary credentials</h1>'',
     []]"

definition page_tail :: string where
  "page_tail = lines [[],
     ''</body>'',
     ''</html>'',
     []]"

definition page_error :: "page_data \<Rightarrow> piece list" where
  "page_error d =
     [Static (lines [[],
     ''<div class=^err^>'']),
      Field (pd_Error d),
      Static (lines [''</div>'',
     ''<a class=^again^ href=^/^>Try again</a>'',
     []])]"

definition page_creds :: "page_data \<Rightarrow> piece list" where
  "page_creds d =
     [Static (lines [[],
     ''<p>Minted for <strong>'']),
      Field (pd_Username d),
      Static (lines [''</strong>, valid until <strong>'']),
      Field (pd_Expiration d),
      Static (lines [''</strong>. Reload to mint a fresh set.</p>'',
     ''<table>'',
     ''  <tr><td>AccessKeyId</td><td><code>'']),
      Field (sc_AccessKeyID (pd_Creds d)),
      Static (lines [''</code></td></tr>'',
     ''  <tr><td>SecretAccessKey</td><td><code>'']),
      Field (sc_SecretAccessKey (pd_Creds d)),
      Static (lines [''</code></td></tr>'',
     ''  <tr><td>SessionToken</td><td><code>'']),
      Field (sc_SessionToken (pd_Creds d)),
      Static (lines [''</code></td></tr>'',
     ''</table>'',
     ''<h2>Shell</h2>'',
     ''<pre>export AWS_ACCESS_KEY_ID='']),
      Field (sc_AccessKeyID (pd_Creds d)),
      Static (lines [[],
     ''export AWS_SECRET_ACCESS_KEY='']),
      Field (sc_SecretAccessKey (pd_Creds d)),
      Static (lines [[],
     ''export AWS_SESSION_TOKEN='']),
      Field (sc_SessionToken (pd_Creds d)),
      Static (lines [[],
     ''export AWS_ENDPOINT_URL_S3='']),
      Field (pd_Endpoint d),
      Static (lines [''</pre>'',
     ''<h2>~/.aws/credentials</h2>'',
     ''<pre>[ozone]'',
     ''aws_access_key_id     = '']),
      Field (sc_AccessKeyID (pd_Creds d)),
      Static (lines [[],
     ''aws_secret_access_key = '']),
      Field (sc_SecretAccessKey (pd_Creds d)),
      Static (lines [[],
     ''aws_session_token     = '']),
      Field (sc_SessionToken (pd_Creds d)),
      Static (lines [''</pre>'',
     ''<p class=^note^>Then: <code>aws s3 ls --profile ozone --endpoint-url '']),
      Field (pd_Endpoint d),
      Static (lines [''</code></p>'',
     ''<p class=^note^>Prefer long-lived automation? Use <code>ozone-login</code> (device flow) instead of copying credentials.</p>'',
     []])]"

definition page :: "page_data \<Rightarrow> string" where
  "page d = concat (map render_piece
     ([Static page_head] @ (if pd_Error d \<noteq> [] then page_error d else page_creds d) @ [Static page_tail]))"

text \<open>\<open>renderPage\<close> after the status has been written (\<open>Some status\<close>), or before it.\<close>

definition renderPage :: "int option \<Rightarrow> page_data \<Rightarrow> response" where
  "renderPage written d = (case written of
     Some status \<Rightarrow> \<lparr>rp_status = status, rp_header = [], rp_body = page d\<rparr>
   | None \<Rightarrow> \<lparr>rp_status = 200,
       rp_header = header_set (header_set [] ''Content-Type'' ''text/html; charset=utf-8'') ''Cache-Control'' ''no-store'',
       rp_body = page d\<rparr>)"

definition error_page :: "string \<Rightarrow> page_data" where
  "error_page msg = \<lparr>pd_Username = [], pd_Endpoint = [], pd_Creds = no_creds, pd_Expiration = [], pd_Error = msg\<rparr>"

definition portal_fail :: "string \<Rightarrow> response" where
  "portal_fail msg = renderPage (Some 502) (error_page msg)"

section \<open>The handler\<close>

definition bearerToken :: "request \<Rightarrow> string" where
  "bearerToken r =
     (if req_get r ''X-Forwarded-Access-Token'' \<noteq> [] then req_get r ''X-Forwarded-Access-Token''
      else if has_prefix ''Bearer '' (req_get r ''Authorization'') then trim_prefix ''Bearer '' (req_get r ''Authorization'')
      else [])"

definition session_char :: "char \<Rightarrow> bool" where
  "session_char c \<longleftrightarrow> is_alnum c \<or> c \<in> set ''_=,.@-''"

fun session_loop :: "string \<Rightarrow> string \<Rightarrow> string" where
  "session_loop [] b = b"
| "session_loop (c # s) b =
     (if 64 \<le> length b then b else session_loop s (if session_char c then b @ [c] else b))"

definition sessionName :: "request \<Rightarrow> string" where
  "sessionName r =
     (let raw = (if req_get r ''X-Forwarded-Preferred-Username'' = [] then req_get r ''X-Forwarded-User''
                 else req_get r ''X-Forwarded-Preferred-Username'');
          b = session_loop raw []
      in if length b < 2 then ''portal'' else b)"

definition portal_form :: "portal \<Rightarrow> string \<Rightarrow> string \<Rightarrow> url_values" where
  "portal_form p username token =
     [(''Action'', ''AssumeRoleWithWebIdentity''), (''Version'', ''2011-06-15''), (''RoleArn'', po_roleArn p),
      (''RoleSessionName'', username), (''WebIdentityToken'', token)]"

definition serveHome ::
  "portal \<Rightarrow> (string \<Rightarrow> string \<Rightarrow> string \<Rightarrow> string + answer) \<Rightarrow> (bool \<Rightarrow> string \<Rightarrow> bool) \<Rightarrow>
   request \<Rightarrow> response" where
  "serveHome p post uni r =
     (if u_path (r_url r) \<noteq> ''/'' then http_error ''404 page not found'' 404
      else
        let token = bearerToken r; username = sessionName r; endpoint = po_stsEndpoint p @ ''/'' in
        if token = [] then renderPage (Some 401) (error_page
          ''No identity token on the request. This page must be reached through oauth2-proxy (browser sign-in).'')
        else if url_parse endpoint = None then portal_fail ''building the STS request failed''
        else case post endpoint form_type (values_encode (portal_form p username token)) of
          Inl _ \<Rightarrow> portal_fail ''the STS endpoint is unreachable''
        | Inr a \<Rightarrow>
            if an_broken a then portal_fail ''reading the STS response failed''
            else
              let body = take bodyLimit (an_body a) in
              if an_status a \<noteq> 200 then
                (let e = fst (xml_unmarshal uni stsError_fields body) in
                 renderPage (Some 502) (error_page (''The token exchange was rejected ('' @ portal_orUnknown (e ! 0) @
                   ''): '' @ e ! 1)))
              else
                (case xml_unmarshal uni credentials_fields body of (vs, ok) \<Rightarrow>
                   if \<not> ok \<or> sc_AccessKeyID (creds_of vs) = [] then portal_fail ''the STS response could not be parsed''
                   else renderPage None \<lparr>pd_Username = username, pd_Endpoint = po_publicEndpoint p,
                     pd_Creds = creds_of vs, pd_Expiration = sc_Expiration (creds_of vs), pd_Error = []\<rparr>))"

datatype portal_route = PortalHealthz | PortalHome

definition portal_mux :: "portal_route mux" where
  "portal_mux = \<lparr>mx_routes = [Route None [Lit ''healthz''] PortalHealthz], mx_root = Some PortalHome\<rparr>"

definition portal_handler ::
  "portal \<Rightarrow> (string \<Rightarrow> string \<Rightarrow> string \<Rightarrow> string + answer) \<Rightarrow> (bool \<Rightarrow> string \<Rightarrow> bool) \<Rightarrow>
   request \<Rightarrow> response" where
  "portal_handler p post uni r =
     (case mux_route portal_mux r of
        Handle PortalHealthz _ \<Rightarrow> \<lparr>rp_status = 200, rp_header = [], rp_body = ''ok'' @ [CHR 0x0A]\<rparr>
      | Handle PortalHome _ \<Rightarrow> serveHome p post uni r
      | t \<Rightarrow> mux_refusal r t)"

text \<open>The process: where it listens, with which settings, and its exit status when the listener
  returns (\<open>graceful\<close>: with \<open>ErrServerClosed\<close>).\<close>

definition portal_main :: "(string \<Rightarrow> string) \<Rightarrow> bool \<Rightarrow> string \<times> portal \<times> nat" where
  "portal_main env graceful = (portal_envOr env ''PORTAL_LISTEN'' '':8090'', newPortal env, if graceful then 0 else 1)"

section \<open>Properties\<close>

lemma portal_visit_routed:
  assumes "u_path (r_url r) = ''/''" "u_raw_path (r_url r) = []" "r_request_uri r \<noteq> ''*''"
  shows "portal_handler p post uni r = serveHome p post uni r"
proof -
  have e: "escaped_path (r_url r) = ''/''" using assms(1,2) by (simp add: escaped_path_def escape_path_def escape_in_path_def)
  have "clean_path ''/'' = ''/''" "match_path [Lit ''healthz''] ''/'' = None" by code_simp+
  then show ?thesis using e assms(3) by (simp add: portal_handler_def mux_route_def route_path_def portal_mux_def Let_def)
qed


lemma session_loop_chars:
  "length b \<le> 64 \<Longrightarrow> list_all session_char b \<Longrightarrow>
   length (session_loop s b) \<le> 64 \<and> list_all session_char (session_loop s b)"
  by (induction s b rule: session_loop.induct) auto

lemma sessionName_chars:
  "2 \<le> length (sessionName r) \<and> length (sessionName r) \<le> 64 \<and> list_all session_char (sessionName r)"
proof -
  have "list_all session_char ''portal''" by code_simp
  then show ?thesis using session_loop_chars [of "[]"] by (auto simp: sessionName_def Let_def)
qed

lemma sessionName_ok: "roleSessionNameMatches (sessionName r)"
  using sessionName_chars [of r] by (auto simp: roleSessionNameMatches_def list_all_iff session_char_def)

text \<open>What the proxy reads from the portal's form.\<close>

lemma portal_form_read:
  assumes "r_method q = ''POST''" "u_path (r_url q) = ''/''" "u_raw_query (r_url q) = []"
    and "req_get q ''Content-Type'' = form_type"
    and "r_body q = Some (values_encode (portal_form p (sessionName r) token))"
    and "token \<noteq> []" "po_roleArn p \<noteq> []" "allow = [] \<or> po_roleArn p \<in> set allow"
  shows "isSTSRequest q" "exchange_params quote allow q = Inr (token, po_roleArn p, sessionName r, 0)"
proof -
  have media: "parse_media_type form_type = Some form_type" by code_simp
  have "parse_query [] = ([], True)" by code_simp
  then have form: "parse_form q (r_body q) = (sort_key fst (portal_form p (sessionName r) token), True)"
    using assms(1,3,4,5) media by (simp add: parse_form_def parse_query_encode req_get_def form_type_def)
  have "distinct (map fst (portal_form p (sessionName r) token))" by (simp add: portal_form_def)
  note get = values_get_sort [OF this]
  have "sessionName r \<noteq> []" using sessionName_chars [of r] by auto
  then show "exchange_params quote allow q = Inr (token, po_roleArn p, sessionName r, 0)"
    using assms sessionName_ok [of r] form
    by (auto simp: exchange_params_def Let_def get values_get_def portal_form_def Action_def)
  show "isSTSRequest q" using assms(1,2,4) media by (simp add: isSTSRequest_def)
qed

text \<open>Tags of a page: the fields have none, the text is what the template says.\<close>

lemma html_escape_no_tag: "count_list (html_escape s) (CHR ''<'') = 0"
  by (auto simp: count_list_0_iff html_escape_def html_escape_byte_def replacement_char_def split: if_splits)

fun static_tags :: "piece \<Rightarrow> nat" where
  "static_tags (Static s) = count_list s (CHR ''<'')"
| "static_tags (Field s) = 0"

lemma count_pieces: "count_list (concat (map render_piece ps)) (CHR ''<'') = sum_list (map static_tags ps)"
proof (induction ps)
  case (Cons p ps)
  then show ?case by (cases p) (simp_all add: html_escape_no_tag)
qed simp

lemma page_tags:
  "count_list page_head (CHR ''<'') = 12" "count_list page_tail (CHR ''<'') = 2"
  "sum_list (map static_tags (page_error d)) = 4" "sum_list (map static_tags (page_creds d)) = 48"
  by (code_simp, code_simp, simp_all add: page_error_def page_creds_def lines_def)


text \<open>Only the credentials page is marked as not to be stored. The page with credentials is sent
  with \<open>Cache-Control: no-store\<close>, and no other page shows credentials; the error pages are sent
  without the header, because it is set after the status has been written.\<close>

theorem portal_cache_control:
  assumes "serveHome p post uni r = resp" "u_path (r_url r) = ''/''"
  shows "(rp_status resp = 200 \<longrightarrow> header_get (rp_header resp) ''Cache-Control'' = ''no-store'') \<and>
    (rp_status resp \<noteq> 200 \<longrightarrow> rp_status resp \<in> {401, 502} \<and> header_get (rp_header resp) ''Cache-Control'' = [] \<and>
      (\<exists>msg. rp_body resp = page (error_page msg)))"
proof -
  have ok: "header_get (header_set (header_set [] ''Content-Type'' ''text/html; charset=utf-8'') ''Cache-Control'' ''no-store'')
      ''Cache-Control'' = ''no-store''" by code_simp
  have none: "header_get [] ''Cache-Control'' = []" by (simp add: header_get_def header_values_def)
  show ?thesis
    unfolding assms(1) [symmetric] serveHome_def portal_fail_def renderPage_def Let_def
    using assms(2) ok none by (auto split: sum.split option.split prod.split)
qed

end
