(* ===== verification/Go_Xml_Facts.thy ===== *)
theory Go_Xml_Facts
  imports Go_Xml_Decode
begin

text \<open>
  What \<open>xml.Unmarshal\<close> reads from a document that \<open>encoding/xml\<close> wrote: the tokens of a rendered
  document are its elements, its texts and the indentation, and the text of an element comes
  back, with U+FFFD in place of what XML cannot carry.
\<close>

section \<open>Escaped text comes back\<close>

text \<open>The text that an escaped string stands for.\<close>

definition xml_clean_ascii :: "char \<Rightarrow> string" where
  "xml_clean_ascii c = (if in_xml_range [c] then [c] else replacement_char)"

function xml_clean :: "string \<Rightarrow> string" where
  "xml_clean [] = []"
| "xml_clean (a # s) =
     (let n = utf8_len (a # s) in
      if ord a < 128 then xml_clean_ascii a @ xml_clean s
      else if n = 0 then replacement_char @ xml_clean s
      else if \<not> in_xml_range (take n (a # s)) then replacement_char @ xml_clean (drop (n - 1) s)
      else take n (a # s) @ xml_clean (drop (n - 1) s))"
  by pat_completeness auto
termination
  by (relation "measure length") auto

definition reads_as :: "char option \<Rightarrow> string \<Rightarrow> string \<Rightarrow> string \<Rightarrow> bool" where
  "reads_as quote s t r \<longleftrightarrow> (\<forall>b0 b1. xml_chars quote False b0 b1 s = Some (t, r))"

definition plain_byte :: "char option \<Rightarrow> char \<Rightarrow> bool" where
  "plain_byte quote c \<longleftrightarrow> c \<notin> {CHR ''<'', CHR ''>'', CHR ''&'', CHR 0x0A, CHR 0x0D} \<and> quote \<noteq> Some c"

lemma reads_plain:
  "\<forall>c \<in> set u. plain_byte quote c \<Longrightarrow> reads_as quote s t r \<Longrightarrow> reads_as quote (u @ s) (u @ t) r"
  by (induction u) (auto simp: reads_as_def plain_byte_def)

lemma reads_entity:
  "xml_entity e = Some (u, s) \<Longrightarrow> quote \<noteq> Some (CHR ''&'') \<Longrightarrow> reads_as quote s t r \<Longrightarrow>
   reads_as quote (CHR ''&'' # e) (u @ t) r"
  by (auto simp: reads_as_def)

lemma char_of_codes:
  "char_of (34 :: nat) = CHR 34" "char_of (39 :: nat) = CHR 39" "char_of (9 :: nat) = CHR 9"
  "char_of (10 :: nat) = CHR 10" "char_of (13 :: nat) = CHR 13"
  by code_simp+

lemma entities:
  "xml_entity (''#34;'' @ s) = Some ([CHR 34], s)" "xml_entity (''#39;'' @ s) = Some ([CHR 39], s)"
  "xml_entity (''amp;'' @ s) = Some (''&'', s)" "xml_entity (''lt;'' @ s) = Some (''<'', s)"
  "xml_entity (''gt;'' @ s) = Some (''>'', s)" "xml_entity (''#x9;'' @ s) = Some ([CHR 9], s)"
  "xml_entity (''#xA;'' @ s) = Some ([CHR 10], s)" "xml_entity (''#xD;'' @ s) = Some ([CHR 13], s)"
  by (simp_all add: xml_entity_def xml_digit_def xml_number_def rune_string_def utf8_encode_def unhex_def
      name_byte_def isNameByte_def char_class_defs Let_def char_of_codes)

lemma replacement_plain: "quote \<in> {None, Some (CHR 34)} \<Longrightarrow> \<forall>c \<in> set replacement_char. plain_byte quote c"
  by (auto simp: replacement_char_def plain_byte_def)

text \<open>The bytes that are escaped by an entity.\<close>

definition entity_of :: "char \<Rightarrow> string option" where
  "entity_of = map_of [(CHR 34, ''#34;''), (CHR 39, ''#39;''), (CHR ''&'', ''amp;''), (CHR ''<'', ''lt;''),
     (CHR ''>'', ''gt;''), (CHR 9, ''#x9;''), (CHR 10, ''#xA;''), (CHR 13, ''#xD;'')]"

lemma xml_escape_ascii_cases:
  "xml_escape_ascii c = (case entity_of c of
     Some e \<Rightarrow> CHR ''&'' # e | None \<Rightarrow> if ord c < 32 then replacement_char else [c])"
proof -
  have "ord c = n \<longleftrightarrow> c = char_of n" if "n < 256" for n using that by (auto simp: of_char_of)
  note o = this [of 34] this [of 39] this [of 9] this [of 10] this [of 13]
  show ?thesis using o by (auto simp: xml_escape_ascii_def entity_of_def char_of_codes)
qed

lemma entity_of_reads: "entity_of c = Some e \<Longrightarrow> xml_entity (e @ s) = Some ([c], s) \<and> in_xml_range [c]"
  using entities by (auto simp: entity_of_def in_xml_range_def split: if_splits)

lemma entity_of_None: "entity_of c = None \<Longrightarrow> c \<notin> {CHR 34, CHR ''&'', CHR ''<'', CHR ''>'', CHR 0x09, CHR 0x0A, CHR 0x0D}"
  by (auto simp: entity_of_def split: if_splits)

lemma reads_escape_ascii:
  assumes "reads_as quote s t r" "quote \<in> {None, Some (CHR 34)}"
  shows "reads_as quote (xml_escape_ascii c @ s) (xml_clean_ascii c @ t) r"
proof (cases "entity_of c")
  case (Some e)
  have "quote \<noteq> Some (CHR ''&'')" using assms(2) by auto
  with reads_entity [of "e @ s" "[c]" s quote t r] show ?thesis
    using Some entity_of_reads [OF Some, of s] assms(1) by (simp add: xml_escape_ascii_cases xml_clean_ascii_def)
next
  case None
  note no = entity_of_None [OF None]
  have "ord c = n \<longleftrightarrow> c = char_of n" if "n < 256" for n using that by (auto simp: of_char_of)
  note o = this [of 9] this [of 10] this [of 13]
  have "in_xml_range [c] \<longleftrightarrow> \<not> ord c < 32"
    using no o by (auto simp: in_xml_range_def char_of_codes)
  moreover have "\<forall>x \<in> set [c]. plain_byte quote x" using no assms(2) by (auto simp: plain_byte_def)
  ultimately show ?thesis
    using None reads_plain [OF replacement_plain [OF assms(2)] assms(1)] reads_plain [of "[c]" quote s t r] assms(1)
    by (auto simp: xml_escape_ascii_cases xml_clean_ascii_def)
qed

lemma high_plain: "128 \<le> ord c \<Longrightarrow> quote \<in> {None, Some (CHR 34)} \<Longrightarrow> plain_byte quote c"
  by (auto simp: plain_byte_def)

lemma in_xml_range_long:
  "2 \<le> length u \<Longrightarrow> in_xml_range u \<longleftrightarrow> u \<notin> {[CHR 0xEF, CHR 0xBF, CHR 0xBE], [CHR 0xEF, CHR 0xBF, CHR 0xBF]}"
  by (auto simp: in_xml_range_def split: list.splits)

lemma utf8_len_EF: "ord a = 239 \<Longrightarrow> 0 < utf8_len (a # s) \<Longrightarrow> utf8_len (a # s) = 3"
  by (auto split: list.splits if_splits)

lemma in_range_take:
  assumes "128 \<le> ord a" "0 < utf8_len (a # s)"
  shows "in_xml_range (take (utf8_len (a # s)) (a # s)) \<longleftrightarrow>
    take 3 (a # s) \<notin> {[CHR 0xEF, CHR 0xBF, CHR 0xBE], [CHR 0xEF, CHR 0xBF, CHR 0xBF]}"
proof -
  let ?n = "utf8_len (a # s)" and ?bad = "{[CHR 0xEF, CHR 0xBF, CHR 0xBE], [CHR 0xEF, CHR 0xBF, CHR 0xBF]}"
  have n: "2 \<le> ?n" "?n \<le> length (a # s)" using utf8_len_high assms utf8_len_le by blast+
  have range: "in_xml_range (take ?n (a # s)) \<longleftrightarrow> take ?n (a # s) \<notin> ?bad"
    using n by (intro in_xml_range_long) (simp del: utf8_len.simps)
  have "ord a = 239" if "take k (a # s) \<in> ?bad" for k
    using that by (cases k) auto
  then show ?thesis using range utf8_len_EF [OF _ assms(2)] by metis
qed

lemma reads_escape:
  assumes "quote \<in> {None, Some (CHR 34)}" "reads_as quote s [] r"
  shows "reads_as quote (xml_escape t @ s) (xml_clean t) r"
proof (induction t rule: xml_escape.induct)
  case (2 a t)
  let ?n = "utf8_len (a # t)"
  show ?case
  proof (cases "ord a < 128")
    case True
    then show ?thesis using reads_escape_ascii [OF 2(1) assms(1)] by simp
  next
    case False
    have bytes: "\<forall>c \<in> set (take ?n (a # t)). plain_byte quote c"
      using False utf8_head_high [of a _ t] high_plain [OF _ assms(1)] by auto
    note rep = reads_plain [OF replacement_plain [OF assms(1)]]
    show ?thesis
      using False 2(2-4) in_range_take [of a t] rep reads_plain [OF bytes]
      by (auto simp: Let_def simp del: utf8_len.simps)
  qed
qed (use assms in simp)

lemma xml_chars_ok_unit:
  assumes "0 < utf8_len u" "utf8_len u = length u" "in_xml_range u"
  shows "xml_chars_ok (u @ s) = xml_chars_ok s"
proof -
  have "utf8_len (u @ s) = length u" using utf8_len_take [of u s] assms(1,2) by simp
  then show ?thesis using assms by (subst xml_chars_ok.simps) simp
qed

lemma xml_chars_ok_replacement: "xml_chars_ok (replacement_char @ s) = xml_chars_ok s"
  by (rule xml_chars_ok_unit) (simp_all add: replacement_char_def is_cont_def in_xml_range_def)

lemma xml_chars_ok_clean: "xml_chars_ok (xml_clean t)"
proof (induction t rule: xml_clean.induct)
  case 1
  show ?case by (simp add: xml_chars_ok.simps)
next
  case (2 a t)
  let ?n = "utf8_len (a # t)"
  show ?case
  proof (cases "ord a < 128")
    case True
    then show ?thesis using 2 xml_chars_ok_unit [of "[a]"] xml_chars_ok_replacement by (simp add: xml_clean_ascii_def)
  next
    case False
    have "utf8_len (take ?n (a # t)) = length (take ?n (a # t))" if "0 < ?n"
      using utf8_len_take [OF that, of "[]"] utf8_len_le [of "a # t"] by simp
    then show ?thesis
      using False 2 xml_chars_ok_replacement xml_chars_ok_unit [of "take ?n (a # t)"] by (auto simp: Let_def simp del: utf8_len.simps)
  qed
qed

text \<open>Text of XML characters is not changed.\<close>

lemma xml_clean_ok: "xml_chars_ok t \<Longrightarrow> xml_clean t = t"
proof (induction t rule: xml_clean.induct)
  case (2 a t)
  let ?n = "utf8_len (a # t)"
  have ok: "0 < ?n" "in_xml_range (take ?n (a # t))" "xml_chars_ok (drop ?n (a # t))"
    using 2(5) by (simp_all only: xml_chars_ok.simps [of "a # t"] split: if_splits) simp_all
  show ?case
  proof (cases "ord a < 128")
    case True
    then show ?thesis using ok 2(1) by (simp add: Let_def xml_clean_ascii_def)
  next
    case False
    have "drop (?n - 1) t = drop ?n (a # t)" using ok(1) by (cases ?n) simp_all
    then have "xml_clean (a # t) = take ?n (a # t) @ drop ?n (a # t)"
      using False ok 2(4) by (simp only: xml_clean.simps Let_def if_False) simp
    then show ?thesis by (simp only: append_take_drop_id)
  qed
qed simp

lemma xml_clean_Nil_iff: "xml_clean t = [] \<longleftrightarrow> t = []"
  by (cases t) (auto simp: Let_def xml_clean_ascii_def replacement_char_def)

lemma xml_chars_ok_printable: "\<forall>c \<in> set t. 32 \<le> ord c \<and> ord c < 128 \<Longrightarrow> xml_chars_ok t"
proof (induction t)
  case (Cons c t)
  then show ?case using xml_chars_ok_unit [of "[c]" t] by (simp add: in_xml_range_def)
qed (simp add: xml_chars_ok.simps)

section \<open>The tokens of a rendered document\<close>

definition simple_name :: "string \<Rightarrow> bool" where
  "simple_name n \<longleftrightarrow> n \<noteq> [] \<and> list_all (\<lambda>c. is_upper c \<or> is_lower c) n"

lemma letter_facts:
  assumes "is_upper c \<or> is_lower c"
  shows "ord c < 128" "name_byte c" "c \<noteq> CHR '':''" "c \<notin> {CHR ''/'', CHR ''?'', CHR ''!'', CHR ''>''}"
    "ord c \<notin> {9, 10, 13, 32}" "name_rune uni first [c]"
  using assms by (auto simp: name_byte_def isNameByte_def name_rune_def char_class_defs)

lemma letters_is_name:
  "list_all (\<lambda>c. is_upper c \<or> is_lower c) n \<Longrightarrow> n \<noteq> [] \<or> \<not> first \<Longrightarrow> xml_is_name uni first n"
proof (induction n arbitrary: first)
  case (Cons c n)
  then have "utf8_len (c # n) = 1" "name_rune uni first [c]" using letter_facts [of c] by simp_all
  then show ?case using Cons by (subst xml_is_name.simps) (simp del: utf8_len.simps)
qed (simp add: xml_is_name.simps)

lemma nsname_simple:
  assumes "simple_name n" "\<not> name_byte c"
  shows "nsname uni (n @ c # r) = Some (([], n), c # r)" "read_name uni (n @ c # r) = Some (n, c # r)"
proof -
  have letters: "\<forall>x \<in> set n. is_upper x \<or> is_lower x" using assms(1) by (simp add: simple_name_def list_all_iff)
  then have bytes: "\<forall>x \<in> set n. name_byte x" and colon: "CHR '':'' \<notin> set n" using letter_facts(2,3) by blast+
  show read: "read_name uni (n @ c # r) = Some (n, c # r)"
    using takeWhile_append_stop [OF bytes assms(2)] dropWhile_append_stop [OF bytes assms(2)]
      letters_is_name [of n True uni] assms(1)
    by (simp add: read_name_def simple_name_def)
  have "count_list n (CHR '':'') = 0" using colon by (simp add: count_list_0_iff)
  then show "nsname uni (n @ c # r) = Some (([], n), c # r)"
    using colon by (simp add: nsname_def read cut_free)
qed

lemma xml_text_value: "xml_text (Some (CHR 34)) False (xml_escape v @ CHR 34 # r) = Some (xml_clean v, r)"
proof -
  have "reads_as (Some (CHR 34)) (CHR 34 # r) [] r" by (simp add: reads_as_def)
  then show ?thesis
    using reads_escape [of "Some (CHR 34)" "CHR 34 # r" r v] xml_chars_ok_clean [of v]
    by (simp add: xml_text_def reads_as_def)
qed

lemma xml_text_content: "xml_text None False (xml_escape t @ CHR ''<'' # r) = Some (xml_clean t, CHR ''<'' # r)"
proof -
  have "reads_as None (CHR ''<'' # r) [] (CHR ''<'' # r)" by (simp add: reads_as_def)
  then show ?thesis
    using reads_escape [of None "CHR ''<'' # r" "CHR ''<'' # r" t] xml_chars_ok_clean [of t]
    by (simp add: xml_text_def reads_as_def)
qed

lemma indent_ok: "xml_chars_ok (xml_indent d)"
proof -
  have "xml_chars_ok (replicate (2 * d) (CHR '' ''))" by (rule xml_chars_ok_printable) simp
  then show ?thesis using xml_chars_ok_unit [of "[CHR 0x0A]"] by (simp add: xml_indent_def in_xml_range_def)
qed

lemma xml_text_indent: "xml_text None False (xml_indent d @ CHR ''<'' # r) = Some (xml_indent d, CHR ''<'' # r)"
proof -
  have "reads_as None (CHR ''<'' # r) [] (CHR ''<'' # r)" by (simp add: reads_as_def)
  moreover have "\<forall>c \<in> set (replicate (2 * d) (CHR '' '')). plain_byte None c" by (simp add: plain_byte_def)
  ultimately have "reads_as None (replicate (2 * d) (CHR '' '') @ CHR ''<'' # r) (replicate (2 * d) (CHR '' '')) (CHR ''<'' # r)"
    using reads_plain by fastforce
  then show ?thesis using indent_ok [of d] by (simp add: xml_text_def reads_as_def xml_indent_def)
qed

lemma xml_attrs_rendered:
  "\<forall>(k, v) \<in> set as. simple_name k \<Longrightarrow>
   xml_attrs uni (concat (map xml_attr as) @ CHR ''>'' # r) = Some (map (\<lambda>(k, v). (([], k), xml_clean v)) as, False, r)"
proof (induction as)
  case Nil
  show ?case by (simp add: xml_attrs.simps xml_space_def)
next
  case (Cons a as)
  obtain k v where a: "a = (k, v)" by (cases a)
  then have k: "simple_name k" using Cons.prems by simp
  obtain c k' where ck: "k = c # k'" "is_upper c \<or> is_lower c" using k by (cases k) (auto simp: simple_name_def)
  let ?rest = "concat (map xml_attr as) @ CHR ''>'' # r"
  have sp: "xml_space (CHR '' '' # k @ s) = k @ s" for s using ck letter_facts(5) [of c] by (simp add: xml_space_def)
  have "\<not> name_byte (CHR ''='')" by (simp add: name_byte_def isNameByte_def char_class_defs)
  note n = nsname_simple(1) [OF k this]
  show ?case
    using a ck letter_facts(4) [of c] n [of uni "CHR 34 # xml_escape v @ CHR 34 # ?rest"] Cons
      xml_text_value [of v ?rest] sp [of "CHR ''='' # CHR 34 # xml_escape v @ CHR 34 # ?rest"]
    by (subst xml_attrs.simps) (simp add: xml_attr_def xml_space_def)
qed

fun xml_names_ok :: "xml \<Rightarrow> bool" where
  "xml_names_ok (XText n t) = simple_name n"
| "xml_names_ok (XElem n as cs) = (simple_name n \<and> (\<forall>(k, v) \<in> set as. simple_name k) \<and> (\<forall>c \<in> set cs. xml_names_ok c))"

fun xml_toks :: "nat \<Rightarrow> xml \<Rightarrow> xml_token list" where
  "xml_toks d (XText n t) =
     StartElement ([], n) [] # (if t = [] then [] else [CharData (xml_clean t)]) @ [EndElement ([], n)]"
| "xml_toks d (XElem n as cs) =
     StartElement ([], n) (map (\<lambda>(k, v). (([], k), xml_clean v)) as) #
     concat (map (\<lambda>c. CharData (xml_indent (Suc d)) # xml_toks (Suc d) c) cs) @
     (if cs = [] then [] else [CharData (xml_indent d)]) @ [EndElement ([], n)]"

lemma tokens_end:
  assumes "simple_name n"
  shows "raw_tokens uni (CHR ''<'' # CHR ''/'' # n @ CHR ''>'' # r) = EndElement ([], n) # raw_tokens uni r"
proof -
  have "\<not> name_byte (CHR ''>'')" by (simp add: name_byte_def isNameByte_def char_class_defs)
  then show ?thesis using nsname_simple(1) [OF assms] by (simp add: xml_markup_def end_markup_def xml_space_def)
qed

lemma tokens_start:
  assumes "simple_name n" "\<forall>(k, v) \<in> set as. simple_name k"
  shows "raw_tokens uni (CHR ''<'' # n @ concat (map xml_attr as) @ CHR ''>'' # r) =
    StartElement ([], n) (map (\<lambda>(k, v). (([], k), xml_clean v)) as) # raw_tokens uni r"
proof -
  let ?s = "concat (map xml_attr as) @ CHR ''>'' # r"
  obtain x s' where x: "?s = x # s'" "\<not> name_byte x"
    by (cases as) (auto simp: xml_attr_def name_byte_def isNameByte_def char_class_defs)
  obtain c n' where c: "n = c # n'" "is_upper c \<or> is_lower c" using assms(1) by (cases n) (auto simp: simple_name_def)
  have "nsname uni (n @ ?s) = Some (([], n), ?s)" unfolding x(1) by (rule nsname_simple(1) [OF assms(1) x(2)])
  then have "start_markup uni (n @ ?s) = Some ([StartElement ([], n) (map (\<lambda>(k, v). (([], k), xml_clean v)) as)], r)"
    using xml_attrs_rendered [OF assms(2), of uni r] by (simp add: start_markup_def)
  then have "xml_markup uni (n @ ?s) = Some ([StartElement ([], n) (map (\<lambda>(k, v). (([], k), xml_clean v)) as)], r)"
    using c letter_facts(4) [OF c(2)] by (simp add: xml_markup_def)
  then show ?thesis by simp
qed

lemma tokens_text:
  "xml_text None False (t @ CHR ''<'' # r) = Some (u, CHR ''<'' # r) \<Longrightarrow> t \<noteq> [] \<Longrightarrow> hd t \<noteq> CHR ''<'' \<Longrightarrow>
   raw_tokens uni (t @ CHR ''<'' # r) = CharData u # raw_tokens uni (CHR ''<'' # r)"
  by (cases t) simp_all

lemma tokens_content:
  "raw_tokens uni (xml_escape t @ CHR ''<'' # r) =
   (if t = [] then [] else [CharData (xml_clean t)]) @ raw_tokens uni (CHR ''<'' # r)"
proof (cases t)
  case (Cons a s)
  have "xml_escape t \<noteq> []"
    unfolding Cons by (auto simp: Let_def xml_escape_ascii_def replacement_char_def)
  moreover from this have "hd (xml_escape t) \<noteq> CHR ''<''" using xml_escape_safe [of "hd (xml_escape t)" t] by auto
  ultimately show ?thesis using tokens_text [OF xml_text_content [of t r]] Cons by simp
qed simp

lemma tokens_indent:
  "raw_tokens uni (xml_indent d @ CHR ''<'' # r) = CharData (xml_indent d) # raw_tokens uni (CHR ''<'' # r)"
  by (rule tokens_text [OF xml_text_indent]) (simp_all add: xml_indent_def)

lemma render_head: "\<exists>s. xml_render d x = CHR ''<'' # s"
  by (cases x) simp_all

declare raw_tokens.simps(2) [simp del]

lemma raw_tokens_rendered:
  "xml_names_ok x \<Longrightarrow> raw_tokens uni (xml_render d x @ r) = xml_toks d x @ raw_tokens uni r"
proof (induction x arbitrary: d r)
  case (XText n t)
  then show ?case
    using tokens_start [of n "[]" uni] tokens_content [of uni t "CHR ''/'' # n @ CHR ''>'' # r"] tokens_end [of n uni r]
    by simp
next
  case (XElem n as cs)
  have children: "\<forall>c \<in> set cs'. c \<in> set cs \<Longrightarrow>
      raw_tokens uni (concat (map (\<lambda>c. xml_indent (Suc d) @ xml_render (Suc d) c) cs') @ s) =
      concat (map (\<lambda>c. CharData (xml_indent (Suc d)) # xml_toks (Suc d) c) cs') @ raw_tokens uni s" for cs' s
  proof (induction cs')
    case (Cons c cs')
    obtain x where x: "xml_render (Suc d) c = CHR ''<'' # x" using render_head by blast
    let ?s = "concat (map (\<lambda>c. xml_indent (Suc d) @ xml_render (Suc d) c) cs') @ s"
    have "raw_tokens uni (xml_indent (Suc d) @ xml_render (Suc d) c @ ?s) =
        CharData (xml_indent (Suc d)) # raw_tokens uni (xml_render (Suc d) c @ ?s)"
      using tokens_indent [of uni "Suc d" "x @ ?s"] x by simp
    then show ?case using XElem.IH [of c "Suc d" ?s] Cons XElem.prems by simp
  qed simp
  have "raw_tokens uni ((if cs = [] then [] else xml_indent d) @ ''</'' @ n @ ''>'' @ r) =
      (if cs = [] then [] else [CharData (xml_indent d)]) @ EndElement ([], n) # raw_tokens uni r"
    using tokens_indent [of uni d "CHR ''/'' # n @ CHR ''>'' # r"] tokens_end [of n uni r] XElem.prems by simp
  then have close: "raw_tokens uni ((if cs = [] then s else xml_indent d @ s) @ r) =
      (if cs = [] then [] else [CharData (xml_indent d)]) @ EndElement ([], n) # raw_tokens uni r"
    if "s = ''</'' @ n @ ''>''" for s using that by (cases "cs = []") simp_all
  show ?case
    using tokens_start [of n as uni] children [of cs] close [OF refl] XElem.prems by (cases "cs = []") simp_all
qed

lemma tokens_header: "raw_tokens uni (xml_header @ CHR ''<'' # r) = Ignored # CharData [CHR 0x0A] # raw_tokens uni (CHR ''<'' # r)"
proof -
  let ?d = "''version='' @ [CHR 34] @ ''1.0'' @ [CHR 34] @ '' encoding='' @ [CHR 34] @ ''UTF-8'' @ [CHR 34]"
  let ?s = "CHR 0x0A # CHR ''<'' # r"
  have d: "declaration_ok ?d" by code_simp
  have "simple_name ''xml''" "\<not> name_byte (CHR '' '')" by code_simp+
  from nsname_simple(2) [OF this] have n: "read_name uni (''xml '' @ ?d @ ''?>'' @ ?s) = Some (''xml'', '' '' @ ?d @ ''?>'' @ ?s)"
    by simp
  have sp: "xml_space ('' '' @ ?d @ ''?>'' @ ?s) = ?d @ ''?>'' @ ?s" by (simp add: xml_space_def)
  have "find_sub ''?>'' (?d @ ''?>'' @ ?s) = Some (length ?d)" by (simp add: has_prefix_def)
  then have "proc_markup uni (''xml '' @ ?d @ ''?>'' @ ?s) = Some ([Ignored], ?s)"
    unfolding proc_markup_def n option.case prod.case sp using d by simp
  then have "raw_tokens uni (CHR ''<'' # CHR ''?'' # ''xml '' @ ?d @ ''?>'' @ ?s) = Ignored # raw_tokens uni ?s"
    by (simp add: raw_tokens.simps(2) [of uni "CHR ''<''"] xml_markup_def)
  then show ?thesis using tokens_indent [of uni 0 r] by (simp add: xml_header_def xml_indent_def)
qed

lemma raw_tokens_document:
  assumes "xml_names_ok x"
  shows "raw_tokens uni (xml_document x) = Ignored # CharData [CHR 0x0A] # xml_toks 0 x @ raw_tokens uni [CHR 0x0A]"
proof -
  obtain s where s: "xml_render 0 x = CHR ''<'' # s" using render_head by blast
  show ?thesis
    using tokens_header [of uni "s @ [CHR 0x0A]"] raw_tokens_rendered [OF assms, of uni 0 "[CHR 0x0A]"] s
    by (simp add: xml_document_def)
qed

end
