(* ===== verification/Portal_Exchange.thy ===== *)
theory Portal_Exchange
  imports Portal Go_Xml_Facts Samples
begin

text \<open>
  The portal and the proxy together: what the page shows after the exchange that a visit causes
  at the proxy's STS endpoint.
\<close>

section \<open>Reading the answers of the STS endpoint\<close>

lemma unmarshal_text:
  "unmarshal_run fs ((m, f) # st) vals (xml_toks d (XText n t) @ ts) =
   unmarshal_run fs ((m, f) # st)
     (case child_frame fs f n of In_field i u \<Rightarrow> vals[i := u @ xml_clean t] | _ \<Rightarrow> vals) ts"
  by (cases "t = []"; cases "child_frame fs f n") (simp_all add: close_field_def)

lemmas unmarshal_eval = unmarshal_text child_frame_def close_field_def nth_append

lemma success_names: "xml_names_ok (assumeRoleResponse d)"
  by (simp add: assumeRoleResponse_def simple_name_def char_class_defs)

lemma error_names: "xml_names_ok (errorResponse code message reqID)"
  by (simp add: errorResponse_def simple_name_def char_class_defs)

lemma success_read:
  "xml_unmarshal uni credentials_fields (rp_body (writeSuccess d)) =
     (map xml_clean [cr_access_key_id (sd_creds d), cr_secret_access_key (sd_creds d), cr_session_token (sd_creds d),
        format_rfc3339 (cr_expires_at (sd_creds d)), sd_subject d], True)"
  unfolding xml_unmarshal_def writeSuccess_def writeXML_def response.select_convs raw_tokens_document [OF success_names]
  by (simp add: assumeRoleResponse_def credentials_fields_def unmarshal_eval del: xml_toks.simps(1))

lemma error_read:
  "xml_unmarshal uni stsError_fields (rp_body (writeError status code message reqID)) = (map xml_clean [code, message], True)"
  unfolding xml_unmarshal_def writeError_def writeXML_def response.select_convs raw_tokens_document [OF error_names]
  by (simp add: errorResponse_def stsError_fields_def unmarshal_eval del: xml_toks.simps(1))

section \<open>Minted credentials survive the document\<close>

definition printable_text :: "string \<Rightarrow> bool" where
  "printable_text t \<longleftrightarrow> list_all (\<lambda>c. 32 \<le> ord c \<and> ord c < 128) t"

lemma clean_printable: "printable_text t \<Longrightarrow> xml_clean t = t"
  by (rule xml_clean_ok [OF xml_chars_ok_printable]) (simp add: printable_text_def list_all_iff)

lemma printable_append [simp]: "printable_text (s @ t) \<longleftrightarrow> printable_text s \<and> printable_text t"
  by (simp add: printable_text_def)

lemma b64url_char_printable: "32 \<le> ord (b64url_char n) \<and> ord (b64url_char n) < 128"
  by (auto simp: b64url_char_def of_char_of)

lemma printable_b64url: "printable_text (b64url_encode s)"
  by (induction s rule: b64url_encode.induct) (simp_all add: printable_text_def b64url_char_printable)

lemma printable_alnum: "list_all is_alnum s \<Longrightarrow> printable_text s"
  by (auto simp: printable_text_def list_all_iff char_class_defs)

lemma printable_pad_num: "printable_text (pad_num w i)"
proof -
  have "printable_text (itoa_nat n)" for n
    using itoa_nat_digits [of n] by (auto simp: printable_text_def list_all_iff is_digit_def)
  then show ?thesis by (simp add: pad_num_def Let_def) (simp add: printable_text_def list_all_iff)
qed

lemma printable_rfc3339: "printable_text (format_rfc3339 t)"
proof -
  have "printable_text ''-''" "printable_text '':''" "printable_text ''T''" "printable_text ''Z''" by code_simp+
  then show ?thesis by (simp only: format_rfc3339_def printable_append printable_pad_num split: prod.split) simp
qed

lemma mint_printable:
  assumes "mint u i t g = (Inr c, g')"
  shows "printable_text (cr_access_key_id c)" "printable_text (cr_secret_access_key c)"
    "printable_text (cr_session_token c)" "cr_access_key_id c \<noteq> []"
proof -
  show "printable_text (cr_access_key_id c)" by (rule printable_alnum [OF mint_akid_alnum [OF assms]])
  have "randBase64URL n g1 = (Some s, g2) \<Longrightarrow> printable_text s" for n g1 s g2
    using printable_b64url by (auto simp: randBase64URL_def split: prod.splits option.splits)
  then show "printable_text (cr_secret_access_key c)" "printable_text (cr_session_token c)"
    using assms by (auto simp: mint_def split: prod.splits option.splits)
  show "cr_access_key_id c \<noteq> []" using assms by (rule mint_Inr) (simp add: akidPrefix_def)
qed

section \<open>A visit\<close>

text \<open>The request that reaches the proxy when a visit makes the portal post its form, and the answer
  that the portal's client gets.\<close>

definition portal_call :: "portal \<Rightarrow> request \<Rightarrow> request \<Rightarrow> bool" where
  "portal_call p r q \<longleftrightarrow> r_method q = ''POST'' \<and> u_path (r_url q) = ''/'' \<and> u_raw_query (r_url q) = [] \<and>
     req_get q ''Content-Type'' = form_type \<and>
     r_body q = Some (values_encode (portal_form p (sessionName r) (bearerToken r)))"

definition answer_of :: "response \<Rightarrow> answer" where
  "answer_of resp = \<lparr>an_status = rp_status resp, an_body = rp_body resp, an_broken = False\<rparr>"

definition minted_page :: "portal \<Rightarrow> request \<Rightarrow> credentials \<Rightarrow> string \<Rightarrow> page_data" where
  "minted_page p r c subject = \<lparr>pd_Username = sessionName r, pd_Endpoint = po_publicEndpoint p,
     pd_Creds = \<lparr>sc_AccessKeyID = cr_access_key_id c, sc_SecretAccessKey = cr_secret_access_key c,
       sc_SessionToken = cr_session_token c, sc_Expiration = format_rfc3339 (cr_expires_at c), sc_Subject = subject\<rparr>,
     pd_Expiration = format_rfc3339 (cr_expires_at c), pd_Error = []\<rparr>"

definition rejected_page :: "string \<Rightarrow> string \<Rightarrow> page_data" where
  "rejected_page code message = error_page (''The token exchange was rejected ('' @ code @ ''): '' @ message)"

lemma serveHome_answer:
  assumes "u_path (r_url r) = ''/''" "bearerToken r \<noteq> []" "url_parse (po_stsEndpoint p @ ''/'') \<noteq> None"
    and "post (po_stsEndpoint p @ ''/'') form_type (values_encode (portal_form p (sessionName r) (bearerToken r))) =
      Inr (answer_of resp)" "length (rp_body resp) \<le> bodyLimit"
  shows "resp = writeError status code message reqID \<Longrightarrow> status \<noteq> 200 \<Longrightarrow> code \<noteq> [] \<Longrightarrow>
      serveHome p post uni r = renderPage (Some 502) (rejected_page (xml_clean code) (xml_clean message))"
    and "resp = writeSuccess d \<Longrightarrow> mint u i t g = (Inr (sd_creds d), g') \<Longrightarrow>
      serveHome p post uni r = renderPage None (minted_page p r (sd_creds d) (xml_clean (sd_subject d)))"
proof -
  have home: "serveHome p post uni r =
      (if rp_status resp \<noteq> 200 then
         (let e = fst (xml_unmarshal uni stsError_fields (rp_body resp)) in
          renderPage (Some 502) (rejected_page (portal_orUnknown (e ! 0)) (e ! 1)))
       else
         (case xml_unmarshal uni credentials_fields (rp_body resp) of (vs, ok) \<Rightarrow>
            if \<not> ok \<or> sc_AccessKeyID (creds_of vs) = [] then portal_fail ''the STS response could not be parsed''
            else renderPage None \<lparr>pd_Username = sessionName r, pd_Endpoint = po_publicEndpoint p,
              pd_Creds = creds_of vs, pd_Expiration = sc_Expiration (creds_of vs), pd_Error = []\<rparr>))"
    using assms(1,2,5) by (simp add: serveHome_def assms(3,4) answer_of_def rejected_page_def Let_def)
  show "serveHome p post uni r = renderPage (Some 502) (rejected_page (xml_clean code) (xml_clean message))"
    if "resp = writeError status code message reqID" "status \<noteq> 200" "code \<noteq> []"
  proof -
    have "rp_status resp \<noteq> 200" using that by (simp add: writeError_def writeXML_def)
    then show ?thesis
      using that home error_read [of uni status code message reqID] xml_clean_Nil_iff [of code]
      by (simp add: portal_orUnknown_def)
  qed
  show "serveHome p post uni r = renderPage None (minted_page p r (sd_creds d) (xml_clean (sd_subject d)))"
    if "resp = writeSuccess d" "mint u i t g = (Inr (sd_creds d), g')"
  proof -
    have "rp_status resp = 200" using that by (simp add: writeSuccess_def writeXML_def)
    then show ?thesis
      using that(1) home success_read [of uni d] mint_printable [OF that(2)] printable_rfc3339
      by (simp add: creds_of_def clean_printable minted_page_def)
  qed
qed

text \<open>How an exchange fails.\<close>

lemma sts_serve_failure:
  assumes "sts_serve quote impl validator cfg clk r w = (resp, res, w')" "sr_code res \<noteq> []"
  shows "\<exists>status. status \<noteq> 200 \<and> (\<exists>message reqID. resp = writeError status (sr_code res) message reqID)"
    and "sw_store w' = sw_store w \<or> (\<exists>c e. st_put impl c (sw_store w) = (Some e, sw_store w'))"
proof -
  obtain reqID g0 where i: "newRequestID (sw_rand w) = (reqID, g0)" by (cases "newRequestID (sw_rand w)")
  have "mapTokenError e = (c, st) \<Longrightarrow> st \<noteq> 200" for e c st
    by (auto simp: mapTokenError_def split: token_error.splits)
  moreover have "exchange_params quote (sc_role_arn_allowlist cfg) r = Inl (st, c, m) \<Longrightarrow> st \<noteq> 200" for st c m
    by (auto simp: exchange_params_def Let_def split: if_splits prod.splits option.splits)
  moreover have "status \<noteq> 200 \<Longrightarrow> \<exists>s. s \<noteq> 200 \<and> (\<exists>m i. writeError status c msg reqID = writeError s c m i)" for status c msg
    by blast
  ultimately show "\<exists>status. status \<noteq> 200 \<and> (\<exists>message reqID. resp = writeError status (sr_code res) message reqID)"
    using assms i unfolding sts_serve_def Let_def
    by (auto split: sum.splits prod.splits if_splits option.splits)
  show "sw_store w' = sw_store w \<or> (\<exists>c e. st_put impl c (sw_store w) = (Some e, sw_store w'))"
    using assms i unfolding sts_serve_def Let_def
    by (auto split: sum.splits prod.splits if_splits option.splits)
qed

lemma portal_call_params:
  assumes "portal_call p r q" "length (values_encode (portal_form p (sessionName r) (bearerToken r))) \<le> maxSTSBodyBytes"
    and "bearerToken r \<noteq> []" "po_roleArn p \<noteq> []" "allow = [] \<or> po_roleArn p \<in> set allow"
  shows "isSTSRequest q"
    "exchange_params quote allow (limit_body maxSTSBodyBytes q) = Inr (bearerToken r, po_roleArn p, sessionName r, 0)"
proof -
  note c = assms(1) [unfolded portal_call_def]
  show "isSTSRequest q" using portal_form_read(1) [of q p r "bearerToken r" allow] c assms(3-5) by simp
  show "exchange_params quote allow (limit_body maxSTSBodyBytes q) = Inr (bearerToken r, po_roleArn p, sessionName r, 0)"
    using c assms(2-5) by (intro portal_form_read(2)) (simp_all add: limit_body_def req_get_def)
qed

lemma exchange_params_token:
  "exchange_params quote allow q = Inr (token, roleArn, name, requested) \<Longrightarrow>
   token = values_get (fst (parse_form q (r_body q))) ''WebIdentityToken''"
  by (simp add: exchange_params_def Let_def split: if_splits prod.splits option.splits)

lemma serve_sts_exchange:
  assumes "isSTSRequest q" "serve sv clk q st = (Answered resp, st')"
  shows "\<exists>res w. exchange sv clk q st = (resp, res, w) \<and> sw_store w = ss_store st'"
  by (rule serve_sts [OF assms]) simp

text \<open>A visit whose exchange succeeds.\<close>

lemma visit_minted:
  assumes "u_path (r_url r) = ''/''" "bearerToken r \<noteq> []" "url_parse (po_stsEndpoint p @ ''/'') \<noteq> None"
    and "portal_call p r q" "length (values_encode (portal_form p (sessionName r) (bearerToken r))) \<le> maxSTSBodyBytes"
    and "po_roleArn p \<noteq> []" "serve sv clk q st = (Answered resp, st')"
    and "post (po_stsEndpoint p @ ''/'') form_type (values_encode (portal_form p (sessionName r) (bearerToken r))) =
      Inr (answer_of resp)" "length (rp_body resp) \<le> bodyLimit"
    and "exchange sv clk q st = (resp', res, w)" "sr_code res = []"
  shows "\<exists>ident v c. sv_validate sv clk (bearerToken r) (ss_validator st) = (Inr ident, v) \<and>
    st_put (sv_store sv) c (ss_store st) = (None, ss_store st') \<and> cr_username c = id_username ident \<and>
    clk At_exchange < cr_expires_at c \<and>
    serveHome p post uni r = renderPage None (minted_page p r c (xml_clean (id_subject ident)))"
proof -
  have sts: "isSTSRequest q" and params:
      "exchange_params (sv_quote sv) [] (limit_body maxSTSBodyBytes q) = Inr (bearerToken r, po_roleArn p, sessionName r, 0)"
    using portal_call_params [OF assms(4,5,2,6), of "[]"] by simp_all
  have x: "resp' = resp" "sw_store w = ss_store st'" using serve_sts_exchange [OF sts assms(7)] assms(10) by auto
  note ok = sts_serve_success [OF assms(10) [unfolded exchange_def] assms(11), unfolded sts_state.select_convs]
  obtain token roleArn name requested ident v c g reqID g0 where
    s: "exchange_params (sv_quote sv) (sc_role_arn_allowlist (cf_sts (sv_cfg sv))) (limit_body maxSTSBodyBytes q) =
        Inr (token, roleArn, name, requested)"
      "sv_validate sv clk token (ss_validator st) = (Inr ident, v)"
      "0 < effectiveTTL (sc_max_duration (cf_sts (sv_cfg sv))) requested (id_expiry ident) (clk At_exchange)"
      "mint (id_username ident) (id_issuer_name ident) (clk At_exchange +
         effectiveTTL (sc_max_duration (cf_sts (sv_cfg sv))) requested (id_expiry ident) (clk At_exchange)) g0 = (Inr c, g)"
      "st_put (sv_store sv) c (ss_store st) = (None, sw_store w)"
      "resp' = writeSuccess \<lparr>sd_subject = id_subject ident, sd_provider = id_issuer_url ident,
         sd_role_arn = roleArn, sd_session_name = name, sd_creds = c, sd_request_id = reqID\<rparr>"
    by (rule ok) (rule that)
  let ?d = "\<lparr>sd_subject = id_subject ident, sd_provider = id_issuer_url ident,
         sd_role_arn = roleArn, sd_session_name = name, sd_creds = c, sd_request_id = reqID\<rparr>"
  have "token = bearerToken r" using exchange_params_token [OF s(1)] exchange_params_token [OF params] by simp
  moreover have "cr_username c = id_username ident" "clk At_exchange < cr_expires_at c"
    using s(3) by (auto intro: mint_Inr [OF s(4)])
  moreover have "serveHome p post uni r = renderPage None (minted_page p r (sd_creds ?d) (xml_clean (sd_subject ?d)))"
    by (rule serveHome_answer(2) [where post = post, OF assms(1-3,8,9)]) (use s(4,6) x(1) in simp_all)
  ultimately show ?thesis using s(2,5) x(2) by auto
qed

section \<open>A sample visit\<close>

lemma length_xml_escape: "length (xml_escape t) \<le> 5 * length t"
proof (induction t rule: xml_escape.induct)
  case (2 a s)
  have a: "length (xml_escape_ascii a) \<le> 5" by (simp add: xml_escape_ascii_def replacement_char_def)
  have n: "utf8_len (a # s) \<le> Suc (length s)" using utf8_len_le [of "a # s"] by simp
  have rep: "length replacement_char = 3" by (simp add: replacement_char_def)
  show ?case
    using 2 a n rep by (auto simp: Let_def simp del: utf8_len.simps)
qed simp

lemma success_length:
  "length (rp_body (writeSuccess d)) \<le> 2000 + 5 * (length (sd_subject d) + 2 * length (sd_session_name d) + length (sd_role_arn d) +
     length (cr_access_key_id (sd_creds d)) + length (cr_secret_access_key (sd_creds d)) + length (cr_session_token (sd_creds d)) +
     length (format_rfc3339 (cr_expires_at (sd_creds d))) + length (sd_provider d) + length (sd_request_id d))"
proof -
  have "length (xml_escape stsXMLNS) \<le> 300" using length_xml_escape [of stsXMLNS] by (simp add: stsXMLNS_def)
  then show ?thesis
    unfolding writeSuccess_def writeXML_def assumeRoleResponse_def
    using length_xml_escape [of "sd_subject d"] length_xml_escape [of "''OZPXROLEID:'' @ sd_session_name d"]
      length_xml_escape [of "sd_role_arn d @ ''/'' @ sd_session_name d"] length_xml_escape [of "sd_provider d"]
      length_xml_escape [of "cr_access_key_id (sd_creds d)"] length_xml_escape [of "cr_secret_access_key (sd_creds d)"]
      length_xml_escape [of "cr_session_token (sd_creds d)"] length_xml_escape [of "sd_request_id d"]
      length_xml_escape [of "format_rfc3339 (cr_expires_at (sd_creds d))"]
    by (simp add: xml_document_def xml_header_def xml_indent_def xml_attr_def del: xml_escape.simps)
qed

definition sample_portal :: portal where
  "sample_portal = newPortal (\<lambda>_. [])"

definition sample_visit :: request where
  "sample_visit = bearer_request\<lparr>r_url := r_url sts_request,
     r_header := [(''X-Forwarded-Access-Token'', [''jwt-alice'']), (''X-Forwarded-User'', [''alice''])]\<rparr>"

definition sample_call :: request where
  "sample_call = sts_request\<lparr>r_body :=
     Some (values_encode (portal_form sample_portal (sessionName sample_visit) (bearerToken sample_visit)))\<rparr>"

definition sample_identity :: identity where
  "sample_identity = \<lparr>id_username = ''alice'', id_subject = ''7f3'', id_issuer_name = ''kc'',
     id_issuer_url = ''https://idp'', id_expiry = 1700001000000000000\<rparr>"

lemma sample_identity_valid:
  "\<exists>v. Validate sample_jose sample_clock ''jwt-alice'' (ss_validator sample_state) = (Inr sample_identity, v)"
proof -
  have "fst (Validate sample_jose sample_clock ''jwt-alice'' (ss_validator sample_state)) = Inr sample_identity" by code_simp
  then show ?thesis by (metis prod.collapse)
qed

lemma sample_visit_facts:
  "u_path (r_url sample_visit) = ''/''" "bearerToken sample_visit = ''jwt-alice''"
  "url_parse (po_stsEndpoint sample_portal @ ''/'') \<noteq> None" "sessionName sample_visit = ''alice''"
  "po_roleArn sample_portal \<noteq> []" "length (po_roleArn sample_portal) = 28"
  "length (values_encode (portal_form sample_portal ''alice'' ''jwt-alice'')) \<le> 200"
  "sc_role_arn_allowlist (cf_sts (sv_cfg sample_server)) = []"
  "0 < effectiveTTL (sc_max_duration (cf_sts (sv_cfg sample_server))) 0 (id_expiry sample_identity) (sample_clock At_exchange)"
  "length (format_rfc3339 1700001000000000000) = 20"
  by code_simp+

lemma sample_portal_call: "portal_call sample_portal sample_visit sample_call"
proof -
  have "req_get sts_request ''Content-Type'' = form_type" by code_simp
  then show ?thesis by (simp add: portal_call_def sample_call_def sts_request_def req_get_def)
qed

lemma sample_exchange_params:
  "isSTSRequest sample_call"
  "exchange_params (sv_quote sample_server) [] (limit_body maxSTSBodyBytes sample_call) =
     Inr (''jwt-alice'', po_roleArn sample_portal, sessionName sample_visit, 0)"
  using portal_call_params [OF sample_portal_call _ _ sample_visit_facts(5), of "[]"] sample_visit_facts(2,4,7)
  by (simp_all add: maxSTSBodyBytes_def)

lemma sample_answer:
  "\<exists>resp st'. serve sample_server sample_clock sample_call sample_state = (Answered resp, st') \<and>
     length (rp_body resp) \<le> bodyLimit"
proof -
  obtain v where v: "Validate sample_jose sample_clock ''jwt-alice'' (ss_validator sample_state) = (Inr sample_identity, v)"
    using sample_identity_valid by blast
  obtain reply st' where serve: "serve sample_server sample_clock sample_call sample_state = (reply, st')" by fastforce
  obtain resp res w where x: "exchange sample_server sample_clock sample_call sample_state = (resp, res, w)" "reply = Answered resp"
    using serve_sts [OF sample_exchange_params(1) serve] by metis
  have "\<exists>resp res w'. exchange sample_server sample_clock sample_call sample_state = (resp, res, w') \<and> sr_code res = []"
    unfolding exchange_def using sample_exchange_params(2) v sample_visit_facts(8,9)
    by (intro sts_serve_ok) (auto simp: sample_server_def memory_impl_def memory_put_def server_newRequestID_def
        rand_read_def sample_state_def memory_state_def sample_rand_def)
  then have ok: "sr_code res = []" using x(1) by simp
  note ok = sts_serve_success [OF x(1) [unfolded exchange_def] ok, unfolded sts_state.select_convs]
  obtain ident c g g' reqID g0 g1 where
    s: "mint (id_username ident) (id_issuer_name ident) (sample_clock At_exchange +
         effectiveTTL (sc_max_duration (cf_sts (sv_cfg sample_server))) 0 (id_expiry ident) (sample_clock At_exchange)) g0 = (Inr c, g)"
      "resp = writeSuccess \<lparr>sd_subject = id_subject ident, sd_provider = id_issuer_url ident,
         sd_role_arn = po_roleArn sample_portal, sd_session_name = sessionName sample_visit, sd_creds = c, sd_request_id = reqID\<rparr>"
      "ident = sample_identity" "newRequestID g1 = (reqID, g0)"
    by (rule ok) (use sample_exchange_params(2) sample_visit_facts(8) v that in \<open>auto simp: sample_server_def\<close>)
  have t: "sample_clock At_exchange + effectiveTTL (sc_max_duration (cf_sts (sv_cfg sample_server))) 0
      (id_expiry sample_identity) (sample_clock At_exchange) = 1700001000000000000" by code_simp
  have id: "length reqID = 32" using s(4)
    by (auto simp: newRequestID_def rand_read_def length_hex_encode split: if_splits)
  have c: "length (cr_access_key_id c) = 20" "length (cr_secret_access_key c) = 40" "length (cr_session_token c) = 43"
    "cr_expires_at c = 1700001000000000000"
    using s(1,3) t by (auto elim!: mint_Inr simp: akidPrefix_def)
  have "length (rp_body resp) \<le> 5000"
    using success_length [of "\<lparr>sd_subject = id_subject ident, sd_provider = id_issuer_url ident,
         sd_role_arn = po_roleArn sample_portal, sd_session_name = sessionName sample_visit, sd_creds = c, sd_request_id = reqID\<rparr>"]
      s(2,3) id c sample_visit_facts(6,10) sessionName_chars [of sample_visit]
    by (simp add: sample_identity_def)
  then show ?thesis using serve x(2) by (auto simp: bodyLimit_def)
qed

section \<open>Properties\<close>

text \<open>C7: a visit ends in working credentials. When a signed-in user opens the portal with a token
  that the proxy's validator accepts and that has time left, and the random source and the
  store work, the page that comes back shows the very credentials that the exchange has put
  into the store, minted for the user of the token: access key ID, secret, session token and
  expiry survive the XML document that carries them from the proxy to the portal.\<close>

theorem portal_visit_credentials:
  assumes "u_path (r_url r) = ''/''" "bearerToken r \<noteq> []" "url_parse (po_stsEndpoint p @ ''/'') \<noteq> None"
    and "portal_call p r q" "length (values_encode (portal_form p (sessionName r) (bearerToken r))) \<le> maxSTSBodyBytes"
    and "po_roleArn p \<noteq> []"
      "sc_role_arn_allowlist (cf_sts (sv_cfg sv)) = [] \<or> po_roleArn p \<in> set (sc_role_arn_allowlist (cf_sts (sv_cfg sv)))"
    and "serve sv clk q st = (Answered resp, st')"
    and "post (po_stsEndpoint p @ ''/'') form_type (values_encode (portal_form p (sessionName r) (bearerToken r))) =
      Inr (answer_of resp)" "length (rp_body resp) \<le> bodyLimit"
    and "sv_validate sv clk (bearerToken r) (ss_validator st) = (Inr ident, v)"
    and "0 < effectiveTTL (sc_max_duration (cf_sts (sv_cfg sv))) 0 (id_expiry ident) (clk At_exchange)"
    and "\<forall>i. \<not> rs_fails (ss_rand st) i" and "\<And>c. \<exists>s. st_put (sv_store sv) c (ss_store st) = (None, s)"
  shows "\<exists>c. st_put (sv_store sv) c (ss_store st) = (None, ss_store st') \<and> cr_username c = id_username ident \<and>
    clk At_exchange < cr_expires_at c \<and>
    serveHome p post uni r = renderPage None (minted_page p r c (xml_clean (id_subject ident)))"
proof -
  note call = portal_call_params [OF assms(4,5,2,6,7)]
  obtain res w where x: "exchange sv clk q st = (resp, res, w)" using serve_sts_exchange [OF call(1) assms(8)] by blast
  have fails: "\<forall>i. \<not> rs_fails (snd (server_newRequestID (ss_rand st))) i"
    using assms(13) by (simp add: server_newRequestID_def rand_read_def)
  have "\<exists>resp res w'. exchange sv clk q st = (resp, res, w') \<and> sr_code res = []"
    unfolding exchange_def using call(2) assms(11,12,14) fails by (intro sts_serve_ok) simp_all
  then have "sr_code res = []" using x by simp
  from visit_minted [where post = post and uni = uni, OF assms(1-6,8,9,10) x this] show ?thesis using assms(11) by auto
qed

theorem portal_visit_credentials_witness:
  "\<exists>resp st' c. serve sample_server sample_clock sample_call sample_state = (Answered resp, st') \<and>
     memory_abs (ss_store st') (cr_access_key_id c) = Some c \<and> cr_username c = ''alice'' \<and>
     serveHome sample_portal (\<lambda>_ _ _. Inr (answer_of resp)) (\<lambda>_ _. False) sample_visit =
       renderPage None (minted_page sample_portal sample_visit c (xml_clean ''7f3''))"
proof -
  note f = sample_visit_facts
  obtain resp st' where r: "serve sample_server sample_clock sample_call sample_state = (Answered resp, st')"
    "length (rp_body resp) \<le> bodyLimit" using sample_answer by blast
  have v: "\<exists>v. sv_validate sample_server sample_clock (bearerToken sample_visit) (ss_validator sample_state) =
      (Inr sample_identity, v)" using sample_identity_valid f(2) by (simp add: sample_server_def)
  have store: "sv_store sample_server = memory_impl" by (simp add: sample_server_def)
  have len: "length (values_encode (portal_form sample_portal (sessionName sample_visit) (bearerToken sample_visit)))
      \<le> maxSTSBodyBytes" using f(2,4,7) by (simp add: maxSTSBodyBytes_def)
  have token: "bearerToken sample_visit \<noteq> []" using f(2) by simp
  have rand: "\<forall>i. \<not> rs_fails (ss_rand sample_state) i" by (simp add: sample_state_def memory_state_def sample_rand_def)
  obtain v where "sv_validate sample_server sample_clock (bearerToken sample_visit) (ss_validator sample_state) =
      (Inr sample_identity, v)" using v by blast
  from portal_visit_credentials [where post = "\<lambda>_ _ _. Inr (answer_of resp)" and uni = "\<lambda>_ _. False",
      OF f(1) token f(3) sample_portal_call len f(5) _ r(1) refl r(2) this f(9) rand] f(8)
  obtain c where "memory_put c (ss_store sample_state) = (None, ss_store st')" "cr_username c = ''alice''"
    "serveHome sample_portal (\<lambda>_ _ _. Inr (answer_of resp)) (\<lambda>_ _. False) sample_visit =
       renderPage None (minted_page sample_portal sample_visit c (xml_clean ''7f3''))"
    by (auto simp: store memory_impl_def memory_put_def sample_identity_def)
  moreover from this(1) have "memory_abs (ss_store st') (cr_access_key_id c) = Some c"
    by (auto simp: memory_put_def memory_abs_def update_conv' dest: sym)
  ultimately show ?thesis using r(1) by blast
qed



end
