(* ===== verification/Ozone_Login.thy ===== *)
theory Ozone_Login
  imports Devicelogin Go_Path
begin

text \<open>
  \<open>cmd/ozone-login/main.go\<close>: the command that signs a user in and keeps the token file fresh.
  The sign-in is \<open>login\<close>, one round of the refresh loop is \<open>login_step\<close>. The
  flags and the messages are in \<open>Login_Main\<close>. \<open>sys\<close> gives, at a state of the world, the faults of the
  system calls that \<open>WriteTokenFile\<close> makes and the name that \<open>os.CreateTemp\<close> picks; \<open>ls_files\<close> is the
  file system and \<open>path\<close> the flag \<open>-token-file\<close>.
\<close>

section \<open>Settings\<close>

text \<open>Go's division truncates toward zero.\<close>

definition go_quot :: "int \<Rightarrow> int \<Rightarrow> int" where
  "go_quot a b = sgn a * sgn b * (\<bar>a\<bar> div \<bar>b\<bar>)"

definition refreshAfter :: "int \<Rightarrow> duration" where
  "refreshAfter expiresIn =
     (let d = go_quot (wrap64 (seconds expiresIn * 2)) 3
      in if d < 15 * second then 15 * second else d)"

definition login_envOr :: "(string \<Rightarrow> string) \<Rightarrow> string \<Rightarrow> string \<Rightarrow> string" where
  "login_envOr env key fallback = (if env key \<noteq> [] then env key else fallback)"

text \<open>\<open>os.UserHomeDir\<close> is the variable \<open>HOME\<close>, an error when it is empty.\<close>

definition defaultTokenFile :: "(string \<Rightarrow> string) \<Rightarrow> string" where
  "defaultTokenFile env =
     (if env ''AWS_WEB_IDENTITY_TOKEN_FILE'' \<noteq> [] then env ''AWS_WEB_IDENTITY_TOKEN_FILE''
      else if env ''HOME'' = [] then ''token.jwt''
      else path_join [env ''HOME'', ''.ozone'', ''token.jwt''])"

section \<open>The command\<close>

datatype login_status = Refreshing | Exited nat

record login_state =
  ls_refresh :: string
  ls_expiresIn :: int
  ls_files :: file_system
  ls_status :: login_status

text \<open>From the flags to the first token; \<open>None\<close> when polling never returns. Exit code 2 is a
  missing issuer, 1 a failure.\<close>

definition write_token ::
  "('w \<Rightarrow> faults \<times> string) \<Rightarrow> string \<Rightarrow> string \<Rightarrow> 'w \<Rightarrow> file_system \<Rightarrow> bool \<times> file_system" where
  "write_token sys path tok w fs =
     (case sys w of (fa, tmp) \<Rightarrow>
        case WriteTokenFile fa tmp path tok fs of (e, trace) \<Rightarrow> (e = None, last trace))"

definition login ::
  "client \<Rightarrow> bool \<Rightarrow> string \<Rightarrow> 'w world \<Rightarrow> ('w \<Rightarrow> faults \<times> string) \<Rightarrow> file_system \<Rightarrow> 'w \<Rightarrow>
   (login_state \<times> 'w) option" where
  "login c once path wd sys fs w =
     (let exit = (\<lambda>code. \<lparr>ls_refresh = [], ls_expiresIn = 0, ls_files = fs, ls_status = Exited code\<rparr>)
      in if cl_Issuer c = [] then Some (exit 2, w)
         else case Discover c wd w of
           (Inl _, w1) \<Rightarrow> Some (exit 1, w1)
         | (Inr ep, w1) \<Rightarrow>
             (case Start c wd ep w1 of
                (Inl _, w2) \<Rightarrow> Some (exit 1, w2)
              | (Inr da, w2) \<Rightarrow>
                  (case Poll c wd ep da w2 of
                     None \<Rightarrow> None
                   | Some (Inl _, w3) \<Rightarrow> Some (exit 1, w3)
                   | Some (Inr tok, w3) \<Rightarrow>
                       (case write_token sys path (lt_AccessToken tok) w3 fs of (ok, fs') \<Rightarrow>
                          Some (\<lparr>ls_refresh = lt_RefreshToken tok, ls_expiresIn = lt_ExpiresIn tok, ls_files = fs',
                            ls_status = (if \<not> ok then Exited 1 else if once then Exited 0 else Refreshing)\<rparr>, w3)))))"

text \<open>One round of the refresh loop: wait, then refresh, then write. A context that ends during
  the wait ends the command.\<close>

definition login_step ::
  "client \<Rightarrow> endpoints \<Rightarrow> string \<Rightarrow> 'w world \<Rightarrow> ('w \<Rightarrow> faults \<times> string) \<Rightarrow> login_state \<times> 'w \<Rightarrow> login_state \<times> 'w" where
  "login_step c ep path wd sys s =
     (case s of (ls, w) \<Rightarrow>
        if ls_status ls \<noteq> Refreshing then (ls, w)
        else
          let w1 = wo_sleep wd (refreshAfter (ls_expiresIn ls)) w in
          if wo_ctx_err wd w1 \<noteq> None then (ls\<lparr>ls_status := Exited 0\<rparr>, w1)
          else
            (case Refresh c wd ep (ls_refresh ls) w1 of
               (Inl e, w2) \<Rightarrow>
                 if e = ErrSessionExpired then (ls\<lparr>ls_status := Exited 1\<rparr>, w2)
                 else (ls\<lparr>ls_expiresIn := 45\<rparr>, w2)
             | (Inr tok, w2) \<Rightarrow>
                 let ls1 = ls\<lparr>ls_refresh := (if lt_RefreshToken tok \<noteq> [] then lt_RefreshToken tok else ls_refresh ls),
                     ls_expiresIn := lt_ExpiresIn tok\<rparr>
                 in case write_token sys path (lt_AccessToken tok) w2 (ls_files ls) of (ok, fs') \<Rightarrow>
                      (ls1\<lparr>ls_files := fs', ls_status := (if ok then Refreshing else Exited 1)\<rparr>, w2)))"

section \<open>Properties\<close>

lemma refreshAfter_floor: "15 * second \<le> refreshAfter n"
  by (simp add: refreshAfter_def Let_def)

text \<open>When the next refresh is due. Whatever lifetime the identity provider reports, negative
  and overflowing ones included, the loop waits fifteen seconds at least; for a lifetime between 23
  seconds and 146 years it waits two thirds of it, so the refresh comes before the token expires.\<close>

theorem refreshAfter_two_thirds:
  assumes "23 \<le> n" "n \<le> 4611686018"
  shows "15 * second \<le> refreshAfter k \<and> refreshAfter n = 2 * n * second div 3 \<and> refreshAfter n < n * second"
proof -
  have s: "seconds n = n * second" using assms by (intro seconds_id) auto
  have w: "wrap64 (n * second * 2) = n * second * 2"
    using assms by (intro wrap64_id) (simp_all add: second_def min_int64_def max_int64_def)
  have "go_quot (n * second * 2) 3 = 2 * n * second div 3"
    using assms by (simp add: go_quot_def second_def sgn_if abs_if)
  moreover have "15 * second \<le> 2 * n * second div 3" "2 * n * second div 3 < n * second"
    using assms by (simp_all add: second_def)
  ultimately have "refreshAfter n = 2 * n * second div 3" by (simp add: refreshAfter_def s w Let_def)
  then show ?thesis using refreshAfter_floor \<open>2 * n * second div 3 < n * second\<close> by simp
qed

lemma Refresh_forward:
  assumes "clock_forward wd" "Refresh c wd ep rt w = (r, w')"
  shows "wo_now wd w \<le> wo_now wd w'"
proof -
  obtain q v where q: "postForm wd (ep_Token ep)
      [(''grant_type'', ''refresh_token''), (''refresh_token'', rt), (''client_id'', cl_ClientID c)] token_fields w = (q, v)"
    by fastforce
  have "w' = v" using assms(2) q
    by (cases q) (auto simp: Refresh_def split: login_error.splits if_splits)
  then show ?thesis using postForm_forward [OF assms(1) q] by simp
qed

lemma Refresh_Inr: "Refresh c wd ep rt w = (Inr tok, w') \<Longrightarrow> lt_AccessToken tok \<noteq> []"
  by (auto simp: Refresh_def split: prod.splits sum.splits login_error.splits if_splits)

lemma write_token_path:
  assumes "snd (sys w) \<noteq> path" "write_token sys path tok w fs = (ok, fs')"
  shows "(ok \<longrightarrow> fs' path = Some \<lparr>fi_content = tok, fi_mode = 384\<rparr>) \<and> (\<not> ok \<longrightarrow> fs' path = fs path)"
  using assms by (auto simp: write_token_def WriteTokenFile_def Let_def split: prod.splits if_splits option.splits)

text \<open>A session has a refresh token and a token file, private and not empty. A round keeps it and,
  unless it is the last, takes fifteen seconds.\<close>

definition in_session :: "string \<Rightarrow> login_state \<Rightarrow> bool" where
  "in_session path ls \<longleftrightarrow> ls_refresh ls \<noteq> [] \<and>
     (case ls_files ls path of None \<Rightarrow> False | Some f \<Rightarrow> fi_content f \<noteq> [] \<and> fi_mode f = 384)"

lemma login_step_session:
  assumes "clock_forward wd" "\<forall>v. snd (sys v) \<noteq> path" "in_session path ls"
    and "login_step c ep path wd sys (ls, w) = (ls', w')"
  shows "in_session path ls' \<and> (ls_status ls' = Refreshing \<longrightarrow>
    ls_status ls = Refreshing \<and> wo_now wd w + 15 * second \<le> wo_now wd w')"
proof (cases "ls_status ls = Refreshing")
  case True
  define w1 where "w1 = wo_sleep wd (refreshAfter (ls_expiresIn ls)) w"
  obtain r w2 where r: "Refresh c wd ep (ls_refresh ls) w1 = (r, w2)" by fastforce
  have "wo_now wd w + max (refreshAfter (ls_expiresIn ls)) 0 \<le> wo_now wd w1"
    using assms(1) unfolding clock_forward_def w1_def by blast
  then have t: "wo_now wd w + 15 * second \<le> wo_now wd w1" using refreshAfter_floor [of "ls_expiresIn ls"] by linarith
  have t2: "wo_now wd w1 \<le> wo_now wd w2" using Refresh_forward [OF assms(1) r] .
  have "w' = w1 \<or> w' = w2"
    using assms(4) True r
    by (auto simp: login_step_def w1_def [symmetric] Let_def split: if_splits sum.splits prod.splits)
  moreover have "in_session path ls'"
  proof (cases r)
    case (Inl e)
    then show ?thesis using assms(3,4) True r
      by (auto simp: login_step_def w1_def [symmetric] Let_def in_session_def split: if_splits)
  next
    case (Inr tok)
    obtain ok fs' where o: "write_token sys path (lt_AccessToken tok) w2 (ls_files ls) = (ok, fs')" by fastforce
    have "lt_AccessToken tok \<noteq> []" using Refresh_Inr [of c wd ep "ls_refresh ls" w1 tok w2] r Inr by simp
    then show ?thesis using assms(3,4) True r Inr o write_token_path [OF _ o] assms(2)
      by (cases ok) (auto simp: login_step_def w1_def [symmetric] Let_def in_session_def split: if_splits)
  qed
  ultimately show ?thesis using True t t2 by auto
next
  case False
  then show ?thesis using assms(3,4) by (auto simp: login_step_def)
qed

text \<open>C39: the refresh loop keeps the session and does not spin. Once signed in with a refresh
  token, after any number of rounds and whatever the identity provider answers and whichever
  system calls fail, there is a refresh token and the token file holds a nonempty access token
  with mode 0600; while the loop goes on, every round has taken at least fifteen seconds.\<close>

theorem refresh_loop_session:
  assumes "clock_forward wd" "\<forall>v. snd (sys v) \<noteq> path" "in_session path ls"
    and "(login_step c ep path wd sys ^^ n) (ls, w) = (ls', w')"
  shows "in_session path ls' \<and> (ls_status ls' = Refreshing \<longrightarrow> wo_now wd w + int n * 15 * second \<le> wo_now wd w')"
  using assms(4)
proof (induction n arbitrary: ls' w')
  case (Suc n)
  obtain l v where l: "(login_step c ep path wd sys ^^ n) (ls, w) = (l, v)" by fastforce
  then have "login_step c ep path wd sys (l, v) = (ls', w')" using Suc.prems by simp
  from login_step_session [OF assms(1,2) _ this] Suc.IH [OF l] show ?case by (auto simp: algebra_simps)
qed (use assms(3) in simp)

definition demo_session :: login_state where
  "demo_session = \<lparr>ls_refresh = ''r1'', ls_expiresIn = 300,
     ls_files = [''/t/jwt'' \<mapsto> \<lparr>fi_content = ''jwt'', fi_mode = 384\<rparr>], ls_status = Refreshing\<rparr>"

definition demo_sys :: "'w \<Rightarrow> faults \<times> string" where
  "demo_sys w = (\<lparr>fa_mkdir = False, fa_create = False, fa_chmod = False, fa_write = None, fa_close = False,
     fa_rename = True, fa_remove = False\<rparr>, ''/t/.token-1'')"

theorem refresh_loop_session_witness:
  "in_session ''/t/jwt'' (fst ((login_step demo_login demo_endpoints ''/t/jwt'' demo_world demo_sys ^^ 3)
     (demo_session, (0, [demo_answer 200 [(''access_token'', ''new'')]]))))"
proof -
  obtain l v where l: "(login_step demo_login demo_endpoints ''/t/jwt'' demo_world demo_sys ^^ 3)
      (demo_session, (0, [demo_answer 200 [(''access_token'', ''new'')]])) = (l, v)"
    by (rule prod.exhaust)
  have "in_session ''/t/jwt'' demo_session" by (simp add: in_session_def demo_session_def)
  moreover have "\<forall>v::time \<times> answer list. snd (demo_sys v) \<noteq> ''/t/jwt''" by (simp add: demo_sys_def)
  ultimately show ?thesis using refresh_loop_session [OF demo_clock_forward _ _ l] l by simp
qed

end
