(* ===== verification/Login_Main.thy ===== *)
theory Login_Main
  imports Ozone_Login Go_Flag Go_Duration
begin

text \<open>
  \<open>main\<close> of \<open>cmd/ozone-login/main.go\<close> up to the refresh loop: the flags with their defaults from the
  environment, the sign-in, and what the command tells the user.
\<close>

section \<open>Flags\<close>

definition login_flags :: "(string \<Rightarrow> string) \<Rightarrow> flag list" where
  "login_flags env =
     [string_flag ''issuer'' (env ''OZONE_ISSUER''),
      string_flag ''client-id'' (login_envOr env ''OZONE_CLIENT_ID'' ''ozone-s3''),
      string_flag ''token-file'' (defaultTokenFile env), string_flag ''scope'' ''openid'', bool_flag ''once'' False,
      string_flag ''role-arn'' ''arn:ozone:iam::dev:role/oidc'', string_flag ''endpoint'' ''http://localhost:9000'',
      bool_flag ''version'' False]"

definition login_client :: "(string \<times> flag_value) list \<Rightarrow> client" where
  "login_client vals = \<lparr>cl_Issuer = flag_string vals ''issuer'', cl_ClientID = flag_string vals ''client-id'',
     cl_Scope = flag_string vals ''scope''\<rparr>"

definition login_main ::
  "(string \<Rightarrow> string) \<Rightarrow> string list \<Rightarrow> 'w world \<Rightarrow> ('w \<Rightarrow> faults \<times> string) \<Rightarrow> file_system \<Rightarrow> 'w \<Rightarrow>
   (login_state \<times> 'w) option" where
  "login_main env args wd sys fs w =
     (let exit = (\<lambda>code. Some (\<lparr>ls_refresh = [], ls_expiresIn = 0, ls_files = fs, ls_status = Exited code\<rparr>, w)) in
      case flag_parse (login_flags env) args of
        FlagsExit n \<Rightarrow> exit n
      | FlagsParsed vals _ \<Rightarrow>
          if flag_bool vals ''version'' then exit 0
          else login (login_client vals) (flag_bool vals ''once'') (flag_string vals ''token-file'') wd sys fs w)"

section \<open>Messages\<close>

definition login_prompt :: "device_auth \<Rightarrow> string list" where
  "login_prompt da =
     [''Open this URL in your browser to sign in:'', [],
      (if da_VerificationURIComplete da \<noteq> [] then ''    '' @ da_VerificationURIComplete da
       else ''    '' @ da_VerificationURI da @ ''   (code: '' @ da_UserCode da @ '')''),
      [], ''Waiting for approval...'']"

definition login_recipe :: "(string \<times> flag_value) list \<Rightarrow> login_token \<Rightarrow> string list" where
  "login_recipe vals tok =
     [''Signed in. Token written to '' @ flag_string vals ''token-file'' @ '' (expires in '' @
        duration_string (duration_round (seconds (lt_ExpiresIn tok)) second) @ '').'', [],
      ''Point AWS tooling at the proxy:'', ''  export AWS_ROLE_ARN='' @ flag_string vals ''role-arn'',
      ''  export AWS_WEB_IDENTITY_TOKEN_FILE='' @ flag_string vals ''token-file'',
      ''  export AWS_ENDPOINT_URL_STS='' @ flag_string vals ''endpoint'',
      ''  export AWS_ENDPOINT_URL_S3='' @ flag_string vals ''endpoint'', []]"

definition refresh_notice :: "int \<Rightarrow> string" where
  "refresh_notice expiresIn =
     ''Token refreshed (next in '' @ duration_string (duration_round (refreshAfter expiresIn) second) @ '').''"

section \<open>Properties\<close>

text \<open>What a sign-in leaves behind.\<close>

lemma login_outcome:
  assumes "login c once path wd sys fs w = Some (ls, w')" "\<forall>v. snd (sys v) \<noteq> path"
  shows "(if ls_status ls \<in> {Exited 0, Refreshing}
      then (\<exists>ep da tok w1 w2 w3. Discover c wd w = (Inr ep, w1) \<and> Start c wd ep w1 = (Inr da, w2) \<and>
          Poll c wd ep da w2 = Some (Inr tok, w3) \<and> lt_AccessToken tok \<noteq> [] \<and>
          ls_files ls path = Some \<lparr>fi_content = lt_AccessToken tok, fi_mode = 384\<rparr> \<and>
          ls_refresh ls = lt_RefreshToken tok) \<and> (ls_status ls = Exited 0 \<longleftrightarrow> once)
      else ls_files ls path = fs path \<and> ls_status ls \<in> {Exited 1, Exited 2} \<and> (ls_status ls = Exited 2 \<longleftrightarrow> cl_Issuer c = []))"
proof (cases "cl_Issuer c = []")
  case True
  then show ?thesis using assms(1) by (auto simp: login_def Let_def)
next
  case False
  obtain re w1 where d: "Discover c wd w = (re, w1)" by fastforce
  show ?thesis
  proof (cases re)
    case (Inl e)
    then show ?thesis using assms(1) False d by (auto simp: login_def Let_def)
  next
    case (Inr ep)
    obtain rd w2 where s: "Start c wd ep w1 = (rd, w2)" by fastforce
    show ?thesis
    proof (cases rd)
      case (Inl e)
      then show ?thesis using assms(1) False d Inr s by (auto simp: login_def Let_def)
    next
      fix da assume da: "rd = Inr da"
      obtain rt w3 where p: "Poll c wd ep da w2 = Some (rt, w3)"
        using assms(1) False d Inr s da by (cases "Poll c wd ep da w2") (auto simp: login_def Let_def)
      show ?thesis
      proof (cases rt)
        case (Inl e)
        then show ?thesis using assms(1) False d \<open>re = Inr ep\<close> s da p by (auto simp: login_def Let_def)
      next
        fix tok assume tok: "rt = Inr tok"
        have ne: "lt_AccessToken tok \<noteq> []" using poll_loop_Inr p tok unfolding Poll_def by fastforce
        obtain ok fs' where wt: "write_token sys path (lt_AccessToken tok) w3 fs = (ok, fs')" by fastforce
        note path = write_token_path [OF assms(2) [rule_format] wt]
        have "ls = \<lparr>ls_refresh = lt_RefreshToken tok, ls_expiresIn = lt_ExpiresIn tok, ls_files = fs',
            ls_status = (if \<not> ok then Exited 1 else if once then Exited 0 else Refreshing)\<rparr>"
          using assms(1) False d Inr s da p tok wt by (simp add: login_def Let_def)
        then show ?thesis using path d Inr s da p tok ne False by auto
      qed
    qed
  qed
qed


text \<open>A sign-in at an identity provider that answers with the discovery document, a device code
  and a token.\<close>

definition lab_answers :: "answer list" where
  "lab_answers =
     [demo_answer 200 [(''device_authorization_endpoint'', ''http://idp/device''), (''token_endpoint'', ''http://idp/token'')],
      demo_answer 200 [(''device_code'', ''dc''), (''user_code'', ''UC'')],
      demo_answer 200 [(''access_token'', ''jwt''), (''refresh_token'', ''r1'')]]"

lemma json_decode_unmarshal: "json_unmarshal s = Some v \<Longrightarrow> json_decode s = Some v"
  by (auto simp: json_unmarshal_def json_decode_def split: option.splits list.splits)

lemma lab_struct:
  assumes "ms \<noteq> []" "\<forall>p \<in> set ms. scannable (snd p)" "length (json_object ms) \<le> bodyLimit"
  shows "struct_of (json_unmarshal (take bodyLimit (json_object ms))) dec = Option.bind (json_members (JObj (map json_pair ms))) dec"
    and "struct_of (json_decode (take bodyLimit (json_object ms))) dec = Option.bind (json_members (JObj (map json_pair ms))) dec"
  using json_unmarshal_object [OF assms(1,2)] json_decode_unmarshal [OF json_unmarshal_object [OF assms(1,2)]] assms(3)
  by (simp_all add: struct_of_def)

lemma lab_discover:
  "Discover demo_login demo_world (0, lab_answers) = (Inr demo_endpoints, (0, tl lab_answers))"
proof -
  let ?ms = "[(''device_authorization_endpoint'', ''http://idp/device''), (''token_endpoint'', ''http://idp/token'')]"
  have "list_all (\<lambda>p. scannable (snd p)) ?ms" "length (json_object ?ms) \<le> 500" by code_simp+
  then have d: "struct_of (json_decode (take bodyLimit (json_object ?ms))) endpoints_fields =
      Option.bind (json_members (JObj (map json_pair ?ms))) endpoints_fields"
    by (intro lab_struct) (simp_all add: list_all_iff bodyLimit_def)
  have m: "json_members (JObj (map json_pair ?ms)) =
      Some [(''device_authorization_endpoint'', JStr ''http://idp/device''), (''token_endpoint'', JStr ''http://idp/token'')]"
    by code_simp
  have u: "unquote ''http://idp/device'' = ''http://idp/device''" "unquote ''http://idp/token'' = ''http://idp/token''" by code_simp+
  have "list_all is_ascii [''device_authorization_endpoint'', ''token_endpoint'']" by code_simp
  then have "endpoints_fields [(''device_authorization_endpoint'', JStr ''http://idp/device''),
      (''token_endpoint'', JStr ''http://idp/token'')] = Some demo_endpoints"
    by (simp add: endpoints_fields_def to_string_def u same_field_ascii upper_char_def char_class_defs demo_endpoints_def del: unquote.simps)
  moreover have "url_parse ''http://idp/.well-known/openid-configuration'' \<noteq> None" "\<not> has_suffix ''/'' ''http://idp''" by code_simp+
  ultimately show ?thesis
    using d m by (simp add: Discover_def Let_def demo_login_def demo_world_def lab_answers_def demo_answer_def demo_endpoints_def)
qed

definition lab_device :: device_auth where
  "lab_device = \<lparr>da_DeviceCode = ''dc'', da_UserCode = ''UC'', da_VerificationURI = [], da_VerificationURIComplete = [],
     da_ExpiresIn = 0, da_Interval = 0\<rparr>"

lemma lab_start:
  "Start demo_login demo_world demo_endpoints (0, tl lab_answers) = (Inr lab_device, (0, tl (tl lab_answers)))"
proof -
  let ?ms = "[(''device_code'', ''dc''), (''user_code'', ''UC'')]"
  have "list_all (\<lambda>p. scannable (snd p)) ?ms" "length (json_object ?ms) \<le> 500" by code_simp+
  then have d: "struct_of (json_unmarshal (take bodyLimit (json_object ?ms))) device_auth_fields =
      Option.bind (json_members (JObj (map json_pair ?ms))) device_auth_fields"
    by (intro lab_struct) (simp_all add: list_all_iff bodyLimit_def)
  have m: "json_members (JObj (map json_pair ?ms)) = Some [(''device_code'', JStr ''dc''), (''user_code'', JStr ''UC'')]" by code_simp
  have u: "unquote ''dc'' = ''dc''" "unquote ''UC'' = ''UC''" by code_simp+
  have "list_all is_ascii [''device_code'', ''user_code'', ''verification_uri'', ''verification_uri_complete'', ''expires_in'', ''interval'']"
    by code_simp
  then have "device_auth_fields [(''device_code'', JStr ''dc''), (''user_code'', JStr ''UC'')] = Some lab_device"
    by (simp add: device_auth_fields_def to_string_def u same_field_ascii upper_char_def char_class_defs lab_device_def del: unquote.simps)
  moreover have "url_parse ''http://idp/device'' \<noteq> None" by code_simp
  ultimately show ?thesis
    using d m by (simp add: Start_def postForm_def demo_world_def lab_answers_def demo_answer_def demo_endpoints_def lab_device_def)
qed

lemma lab_poll:
  "Poll demo_login demo_world demo_endpoints lab_device (0, tl (tl lab_answers)) = Some (Inr demo_token, (second, []))"
  unfolding Poll_def using demo_postForm
  by (subst poll_loop.simps)
    (simp add: demo_endpoints_def lab_device_def lab_answers_def demo_token_def demo_world_def second_def seconds_id time_add_def)

definition calm_sys :: "'w \<Rightarrow> faults \<times> string" where
  "calm_sys w = (\<lparr>fa_mkdir = False, fa_create = False, fa_chmod = False, fa_write = None, fa_close = False,
     fa_rename = False, fa_remove = False\<rparr>, ''/t/.token-1'')"


end
