(* ===== verification/Gennotice.thy ===== *)
theory Gennotice
  imports Go_Path Go_Encoding "HOL-Library.AList" "HOL-Library.Product_Lexorder" "HOL-Library.Multiset"
begin

text \<open>
  \<open>hack/gennotice/main.go\<close>: the tool that builds the NOTICE file from the modules linked into the
  released binaries, and checks that the committed file is current. The answers of \<open>go list\<close>, of
  the file system and the order in which Go iterates over a map are the record \<open>notice_world\<close>;
  the NOTICE file is the state of a run.
\<close>

section \<open>Constants\<close>

abbreviation nl :: char where "nl \<equiv> CHR 0x0A"

definition noticePath :: string where "noticePath = ''NOTICE''"

definition rule_line :: string where "rule_line = replicate 80 (CHR ''-'')"

definition targets :: "string list" where
  "targets = [''./cmd/proxy'', ''./cmd/ozone-login'', ''./cmd/credential-portal'']"

definition platforms :: "(string \<times> string) list" where
  "platforms = [(''linux'', ''amd64''), (''linux'', ''arm64''), (''darwin'', ''amd64''), (''darwin'', ''arm64'')]"

definition header_lines :: "string list" where
  "header_lines = [''ozone-oidc-proxy'',
     ''Copyright The ozone-oidc-proxy Authors'',
     [],
     ''This product includes software developed by third parties, distributed under'',
     ''the Apache License, Version 2.0. The attribution notices of those components'',
     ''are reproduced below, as required by section 4(d) of that license.'']"

definition notice_header :: string where
  "notice_header = concat (map (\<lambda>l. l @ [nl]) header_lines)"

record attribution =
  at_module :: string
  at_name :: string
  at_text :: string

text \<open>\<open>nw_list\<close> is the output of \<open>go list -deps\<close> for a platform, \<open>nw_self\<close> that of \<open>go list -m\<close>;
  \<open>nw_readdir\<close> the entries of a directory with whether they are directories; \<open>None\<close> is an error.\<close>

record notice_world =
  nw_self :: "string option"
  nw_list :: "string \<Rightarrow> string \<Rightarrow> string option"
  nw_readdir :: "string \<Rightarrow> (string \<times> bool) list option"
  nw_readfile :: "string \<Rightarrow> string option"
  nw_order :: "(string \<times> string) list \<Rightarrow> (string \<times> string) list"
  nw_write_ok :: bool

section \<open>Modules\<close>

definition selfPath :: "notice_world \<Rightarrow> string list + string" where
  "selfPath w = (case nw_self w of None \<Rightarrow> Inl [''resolving the main module''] | Some out \<Rightarrow> Inr (trim_space out))"

definition module_line :: "string \<Rightarrow> string \<Rightarrow> (string \<times> string) list \<Rightarrow> (string \<times> string) list" where
  "module_line self line dirs =
     (case cut (CHR 0x09) (trim_space line) of (path, dir, ok) \<Rightarrow>
        if \<not> ok \<or> path = [] \<or> dir = [] \<or> path = self then dirs else AList.update path dir dirs)"

definition linkedModules :: "notice_world \<Rightarrow> string list + (string \<times> string) list" where
  "linkedModules w =
     res_bind (selfPath w) (\<lambda>self.
       res_fold (\<lambda>(goos, goarch) dirs.
         case nw_list w goos goarch of
           None \<Rightarrow> Inl [''go list for '', goos, ''/'', goarch]
         | Some out \<Rightarrow> Inr (fold (module_line self) (split_on nl out) dirs)) platforms [])"

section \<open>Attributions\<close>

text \<open>Whether a name in upper case starts with the given ASCII letters. Outside ASCII, the dotless
  i (U+0131) is the only letter that has one of the letters of NOTICE as its upper case.\<close>

fun upper_prefix :: "string \<Rightarrow> string \<Rightarrow> bool" where
  "upper_prefix [] s = True"
| "upper_prefix (l # ls) [] = False"
| "upper_prefix (l # ls) (c # s) =
     (if upper_char c = l then upper_prefix ls s
      else l = CHR ''I'' \<and> c = CHR 0xC4 \<and> (case s of [] \<Rightarrow> False | d # s' \<Rightarrow> d = CHR 0xB1 \<and> upper_prefix ls s'))"

definition trim_newlines :: "string \<Rightarrow> string" where
  "trim_newlines s = rev (dropWhile (\<lambda>c. c = nl) (rev s))"

definition collect_entry ::
  "notice_world \<Rightarrow> string \<Rightarrow> string \<Rightarrow> string \<times> bool \<Rightarrow> attribution list \<Rightarrow> string list + attribution list" where
  "collect_entry w module dir = (\<lambda>(name, isDir) attrs.
     if isDir \<or> \<not> upper_prefix ''NOTICE'' name then Inr attrs
     else case nw_readfile w (path_join [dir, name]) of
       None \<Rightarrow> Inl [''reading '', module, '' NOTICE'']
     | Some b \<Rightarrow> Inr (attrs @ [\<lparr>at_module = module, at_name = name, at_text = trim_newlines b\<rparr>]))"

definition collect_module ::
  "notice_world \<Rightarrow> string \<times> string \<Rightarrow> attribution list \<Rightarrow> string list + attribution list" where
  "collect_module w = (\<lambda>(module, dir) attrs.
     case nw_readdir w dir of
       None \<Rightarrow> Inl [''reading '', module]
     | Some entries \<Rightarrow> res_fold (collect_entry w module dir) entries attrs)"

definition attribution_key :: "attribution \<Rightarrow> string \<times> string" where
  "attribution_key a = (at_module a, at_name a)"

definition collect :: "notice_world \<Rightarrow> (string \<times> string) list \<Rightarrow> string list + attribution list" where
  "collect w mods = res_bind (res_fold (collect_module w) (nw_order w mods) [])
     (\<lambda>attrs. Inr (sort_key attribution_key attrs))"

section \<open>The file\<close>

definition render :: "attribution list \<Rightarrow> string" where
  "render attrs = notice_header @
     concat (map (\<lambda>a. [nl] @ rule_line @ [nl] @ at_module a @ [nl, nl] @ at_text a @ [nl]) attrs)"

fun headings_from :: "string list \<Rightarrow> string list \<Rightarrow> string list" where
  "headings_from (p # l # ls) out =
     headings_from (l # ls) (if p = rule_line \<and> l \<noteq> [] then List.insert l out else out)"
| "headings_from [p] out = out"
| "headings_from [] out = out"

definition headings :: "string \<Rightarrow> string list" where
  "headings b = headings_from (split_on nl b) []"

definition added_line :: "string \<Rightarrow> string" where
  "added_line m = ''  + '' @ m @ '' ships a NOTICE and is not attributed''"

definition dropped_line :: "string \<Rightarrow> string" where
  "dropped_line m = ''  - '' @ m @ '' is attributed but no longer linked, or no longer ships a NOTICE''"

definition describeDrift :: "string \<Rightarrow> attribution list \<Rightarrow> string" where
  "describeDrift got attrs =
     (let have = headings got;
          want = fold (\<lambda>a ms. List.insert (at_module a) ms) attrs [];
          added = sort (filter (\<lambda>m. m \<notin> set have) want);
          dropped = sort (filter (\<lambda>m. m \<notin> set want) have);
          lines = map added_line added @ map dropped_line dropped
      in if lines = [] then ''  the attributed modules match, so the upstream text itself changed''
         else join [nl] lines)"

section \<open>The command\<close>

text \<open>A run returns its error, if any, what it prints, and the NOTICE file.\<close>

definition notice_run ::
  "bool \<Rightarrow> notice_world \<Rightarrow> string option \<Rightarrow> string list option \<times> string list \<times> string option" where
  "notice_run check w notice =
     (case linkedModules w of
        Inl e \<Rightarrow> (Some e, [], notice)
      | Inr mods \<Rightarrow>
          if length mods < 2 then
            (Some [''found '', itoa (int (length mods)), '' linked modules, expected the dependency tree of '', join '' '' targets],
             [], notice)
          else case collect w mods of
            Inl e \<Rightarrow> (Some e, [], notice)
          | Inr attrs \<Rightarrow>
              let found = itoa (int (length attrs)) @ '' attributions from '' @ itoa (int (length mods)) @ '' linked modules''
              in if attrs = [] then
                   (Some [''no NOTICE files found across '', itoa (int (length mods)), '' linked modules''], [], notice)
                 else if \<not> check then
                   (if \<not> nw_write_ok w then (Some [''write '', noticePath], [], notice)
                    else (None, (noticePath @ '' regenerated: '' @ found) # map (\<lambda>a. ''  '' @ at_module a) attrs,
                          Some (render attrs)))
                 else case notice of
                   None \<Rightarrow> (Some [''open '', noticePath], [], notice)
                 | Some got \<Rightarrow>
                     if got = render attrs then (None, [noticePath @ '' is current: '' @ found], notice)
                     else (Some [''NOTICE does not match the module graph''],
                       [noticePath @ '' is out of date:'', describeDrift got attrs,
                        ''Run `make notice` and commit the result.''], notice))"

section \<open>Collecting does not depend on the order of iteration\<close>

lemma res_fold_append_iff:
  assumes "\<And>x acc r. f x acc = Inr r \<longleftrightarrow> (\<exists>a. g x = Some a \<and> r = acc @ a)"
  shows "res_fold f xs acc = Inr r \<longleftrightarrow> (\<forall>x \<in> set xs. g x \<noteq> None) \<and> r = acc @ concat (map (\<lambda>x. the (g x)) xs)"
  by (induction xs arbitrary: acc) (auto simp: res_iff assms)

definition entry_notice :: "notice_world \<Rightarrow> string \<Rightarrow> string \<Rightarrow> string \<times> bool \<Rightarrow> attribution list option" where
  "entry_notice w module dir = (\<lambda>(name, isDir).
     if isDir \<or> \<not> upper_prefix ''NOTICE'' name then Some []
     else map_option (\<lambda>b. [\<lparr>at_module = module, at_name = name, at_text = trim_newlines b\<rparr>])
       (nw_readfile w (path_join [dir, name])))"

definition module_notices :: "notice_world \<Rightarrow> string \<times> string \<Rightarrow> attribution list option" where
  "module_notices w = (\<lambda>(module, dir).
     case nw_readdir w dir of
       None \<Rightarrow> None
     | Some es \<Rightarrow> if list_all (\<lambda>e. entry_notice w module dir e \<noteq> None) es
                 then Some (concat (map (\<lambda>e. the (entry_notice w module dir e)) es)) else None)"

lemma collect_entry_iff:
  "collect_entry w module dir e acc = Inr r \<longleftrightarrow> (\<exists>a. entry_notice w module dir e = Some a \<and> r = acc @ a)"
  by (cases e) (auto simp: collect_entry_def entry_notice_def split: option.splits)

lemma collect_module_iff:
  "collect_module w md acc = Inr r \<longleftrightarrow> (\<exists>a. module_notices w md = Some a \<and> r = acc @ a)"
  by (cases md)
    (auto simp: collect_module_def module_notices_def res_fold_append_iff [OF collect_entry_iff] list_all_iff
      split: option.splits)

lemma collect_iff:
  "collect w mods = Inr attrs \<longleftrightarrow> (\<forall>md \<in> set (nw_order w mods). module_notices w md \<noteq> None) \<and>
     attrs = sort_key attribution_key (concat (map (\<lambda>md. the (module_notices w md)) (nw_order w mods)))"
  by (auto simp: collect_def res_iff res_fold_append_iff [OF collect_module_iff])

lemma mset_concat_map: "mset xs = mset ys \<Longrightarrow> mset (concat (map h xs)) = mset (concat (map h ys))"
proof -
  have "mset (concat (map h zs)) = (\<Sum>z \<in># mset zs. mset (h z))" for zs by (induction zs) simp_all
  then show "mset xs = mset ys \<Longrightarrow> ?thesis" by simp
qed

lemma entry_notice_mem:
  assumes "entry_notice w module dir e = Some as" "a \<in> set as"
  shows "\<exists>name b. e = (name, False) \<and> at_module a = module \<and> at_name a = name \<and>
    nw_readfile w (path_join [dir, name]) = Some b \<and> at_text a = trim_newlines b"
  using assms by (cases e) (auto simp: entry_notice_def split: if_splits)

lemma module_notices_mem:
  assumes "a \<in> set (the (module_notices w (module, dir)))" "module_notices w (module, dir) \<noteq> None"
  shows "at_module a = module \<and>
    (\<exists>b. nw_readfile w (path_join [dir, at_name a]) = Some b \<and> at_text a = trim_newlines b)"
proof -
  obtain es where es: "\<forall>e \<in> set es. entry_notice w module dir e \<noteq> None"
    "module_notices w (module, dir) = Some (concat (map (\<lambda>e. the (entry_notice w module dir e)) es))"
    using assms(2) by (auto simp: module_notices_def list_all_iff split: option.splits if_splits)
  then obtain e as where "entry_notice w module dir e = Some as" "a \<in> set as" using assms(1) by fastforce
  then show ?thesis using entry_notice_mem by blast
qed

lemma attribution_key_inj:
  assumes "distinct (map fst mods)" "\<forall>md \<in> set mods. module_notices w md \<noteq> None"
  shows "inj_on attribution_key (set (concat (map (\<lambda>md. the (module_notices w md)) mods)))"
proof (rule inj_onI)
  fix a b assume a: "a \<in> set (concat (map (\<lambda>md. the (module_notices w md)) mods))"
    and b: "b \<in> set (concat (map (\<lambda>md. the (module_notices w md)) mods))" and k: "attribution_key a = attribution_key b"
  obtain m d where m: "(m, d) \<in> set mods" "a \<in> set (the (module_notices w (m, d)))" using a by auto
  obtain m' d' where m': "(m', d') \<in> set mods" "b \<in> set (the (module_notices w (m', d')))" using b by auto
  note ma = module_notices_mem [OF m(2)] and mb = module_notices_mem [OF m'(2)]
  have some: "module_notices w (m, d) \<noteq> None" "module_notices w (m', d') \<noteq> None" using m(1) m'(1) assms(2) by blast+
  then have "m = m'" using ma mb k by (simp add: attribution_key_def)
  then have "d = d'" using m(1) m'(1) assms(1) by (metis eq_key_imp_eq_value)
  then have "at_text a = at_text b" using ma [OF some(1)] mb [OF some(2)] k by (auto simp: attribution_key_def)
  then show "a = b" using k by (simp add: attribution_key_def)
qed

lemma collect_order:
  assumes "collect w mods = Inr attrs" "distinct (map fst mods)"
    and "mset (nw_order w mods) = mset mods" "mset (it mods) = mset mods"
  shows "collect (w\<lparr>nw_order := it\<rparr>) mods = Inr attrs"
proof -
  let ?h = "\<lambda>md. the (module_notices w md)"
  have "entry_notice (w\<lparr>nw_order := it\<rparr>) = entry_notice w" by (intro ext) (simp add: entry_notice_def split: prod.split)
  then have same: "module_notices (w\<lparr>nw_order := it\<rparr>) = module_notices w"
    by (intro ext) (simp add: module_notices_def split: prod.split option.split)
  have s: "set (nw_order w mods) = set mods" "set (it mods) = set mods" using assms(3,4) by (metis mset_eq_setD)+
  have ok: "\<forall>md \<in> set (it mods). module_notices w md \<noteq> None" using assms(1) s by (simp add: collect_iff)
  have "distinct (map fst (it mods))" using assms(2,4) by (metis mset_eq_imp_distinct_iff mset_map)
  note inj = attribution_key_inj [OF this ok]
  have "mset (concat (map ?h (it mods))) = mset (concat (map ?h (nw_order w mods)))"
    by (rule mset_concat_map) (simp add: assms(3,4))
  then have "sort_key attribution_key (concat (map ?h (it mods))) = sort_key attribution_key (concat (map ?h (nw_order w mods)))"
    by (intro sort_key_inj_key_eq inj) simp_all
  then show ?thesis using assms(1) ok by (simp add: collect_iff same)
qed

lemma linkedModules_distinct: "linkedModules w = Inr mods \<Longrightarrow> distinct (map fst mods)"
proof -
  have line: "distinct (map fst ds) \<Longrightarrow> distinct (map fst (module_line self l ds))" for self l ds
    by (auto simp: module_line_def distinct_update split: prod.splits)
  have lines: "distinct (map fst ds) \<Longrightarrow> distinct (map fst (fold (module_line self) ls ds))" for self ls ds
    by (induction ls arbitrary: ds) (simp_all add: line)
  assume "linkedModules w = Inr mods"
  then obtain self where "res_fold (\<lambda>(goos, goarch) dirs. case nw_list w goos goarch of
           None \<Rightarrow> Inl [''go list for '', goos, ''/'', goarch]
         | Some out \<Rightarrow> Inr (fold (module_line self) (split_on nl out) dirs)) platforms [] = Inr mods"
    by (auto simp: linkedModules_def res_iff)
  then show ?thesis
    by (rule res_fold_invariant [where P = "\<lambda>ds. distinct (map fst ds)"])
      (auto split: prod.splits option.splits intro: lines)
qed

text \<open>C22: what the tool has written it accepts. After a run that rewrites the NOTICE file, a run that
  checks it against the same modules succeeds and leaves it alone, in whatever order Go
  iterates over the map of modules in either run: the sorting makes the file deterministic.\<close>

theorem notice_check_after_write:
  assumes "notice_run False w f = (None, out, f')"
    and "\<forall>ms. mset (nw_order w ms) = mset ms" "\<forall>ms. mset (it ms) = mset ms"
  shows "\<exists>out'. notice_run True (w\<lparr>nw_order := it\<rparr>) f' = (None, out', f')"
proof -
  obtain mods attrs where m: "linkedModules w = Inr mods" "\<not> length mods < 2" "collect w mods = Inr attrs"
    "attrs \<noteq> []" "f' = Some (render attrs)"
    using assms(1) by (auto simp: notice_run_def Let_def split: sum.splits if_splits option.splits)
  have l: "linkedModules (w\<lparr>nw_order := it\<rparr>) = linkedModules w"
    by (simp add: linkedModules_def selfPath_def)
  have "collect (w\<lparr>nw_order := it\<rparr>) mods = Inr attrs"
    using collect_order [OF m(3) linkedModules_distinct [OF m(1)]] assms(2,3) by blast
  then show ?thesis using m l by (simp add: notice_run_def Let_def)
qed

definition demo_notices :: notice_world where
  "demo_notices = \<lparr>nw_self = Some (''example.org/proxy'' @ [nl]),
     nw_list = (\<lambda>_ _. Some (''example.org/proxy'' @ [CHR 0x09] @ ''/src'' @ [nl] @ ''b.org/y'' @ [CHR 0x09] @ ''/mod/y'' @ [nl] @
       [nl] @ ''a.org/x'' @ [CHR 0x09] @ ''/mod/x'' @ [nl])),
     nw_readdir = (\<lambda>d. Some (if d = ''/mod/x'' then [(''LICENSE'', False), (''Notice.txt'', False)] else [(''NOTICE'', False)])),
     nw_readfile = (\<lambda>p. Some (p @ '' says hello'' @ [nl, nl])), nw_order = (\<lambda>ms. ms), nw_write_ok = True\<rparr>"

theorem notice_check_after_write_witness:
  "fst (notice_run True (demo_notices\<lparr>nw_order := rev\<rparr>) (snd (snd (notice_run False demo_notices None)))) = None"
proof -
  obtain e out f' where r: "notice_run False demo_notices None = (e, out, f')" by (metis prod_cases3)
  have "fst (notice_run False demo_notices None) = None" by code_simp
  then have "notice_run False demo_notices None = (None, out, f')" using r by simp
  moreover have "\<forall>ms. mset (nw_order demo_notices ms) = mset ms" by (simp add: demo_notices_def)
  ultimately show ?thesis using notice_check_after_write [of demo_notices None out f' rev] r by auto
qed

section \<open>Headings\<close>

fun heads :: "string list \<Rightarrow> string set" where
  "heads (p # l # ls) = (if p = rule_line \<and> l \<noteq> [] then {l} else {}) \<union> heads (l # ls)"
| "heads _ = {}"

lemma headings_from_heads: "set (headings_from ls out) = set out \<union> heads ls \<and> (distinct out \<longrightarrow> distinct (headings_from ls out))"
  by (induction ls out rule: headings_from.induct) auto

lemma heads_skip: "rule_line \<noteq> x \<Longrightarrow> heads (x # ls) = heads ls"
  by (cases ls) auto

lemma heads_head: "m \<noteq> [] \<Longrightarrow> heads (rule_line # m # ls) = insert m (heads (m # ls))"
  by simp

declare heads.simps [simp del]

lemma heads_free: "rule_line \<notin> set xs \<Longrightarrow> heads (xs @ ls) = heads ls"
  by (induction xs) (simp_all add: heads_skip)

definition block_lines :: "attribution \<Rightarrow> string list" where
  "block_lines a = [[], rule_line, at_module a, []] @ split_on nl (at_text a)"

definition plain_notice :: "attribution \<Rightarrow> bool" where
  "plain_notice a \<longleftrightarrow> at_module a \<noteq> [] \<and> nl \<notin> set (at_module a) \<and> rule_line \<notin> set (split_on nl (at_text a))"

lemma rule_line_nonempty: "rule_line \<noteq> []" "nl \<notin> set rule_line"
  by (simp_all add: rule_line_def)

lemma heads_blocks:
  "\<forall>a \<in> set attrs. plain_notice a \<Longrightarrow> heads (concat (map block_lines attrs) @ [[]]) = at_module ` set attrs"
proof (induction attrs)
  case (Cons a attrs)
  have nil: "heads ([] # ls) = heads ls" for ls by (rule heads_skip) (rule rule_line_nonempty)
  have "heads (at_module a # [] # ls) = heads ls" for ls
    using nil by (cases "rule_line = at_module a") (simp_all add: heads.simps(1) heads_skip)
  then show ?case
    using Cons nil by (simp add: block_lines_def plain_notice_def heads_head heads_free)
qed (simp add: heads.simps)

lemma join_lines: "xs \<noteq> [] \<Longrightarrow> join [c] xs @ [c] = concat (map (\<lambda>l. l @ [c]) xs)"
  by (induction "[c]" xs rule: join.induct) auto

lemma render_lines:
  "render attrs = concat (map (\<lambda>l. l @ [nl]) (header_lines @ concat (map block_lines attrs)))"
proof -
  have "at_text a @ [nl] = concat (map (\<lambda>l. l @ [nl]) (split_on nl (at_text a)))" for a
    using join_lines [of "split_on nl (at_text a)" nl] by (simp add: join_split_on)
  then have "[nl] @ rule_line @ [nl] @ at_module a @ [nl, nl] @ at_text a @ [nl] = concat (map (\<lambda>l. l @ [nl]) (block_lines a))" for a
    by (simp add: block_lines_def)
  then have "concat (map (\<lambda>a. [nl] @ rule_line @ [nl] @ at_module a @ [nl, nl] @ at_text a @ [nl]) attrs) =
      concat (map (\<lambda>l. l @ [nl]) (concat (map block_lines attrs)))"
    by (induction attrs) simp_all
  then show ?thesis by (simp add: render_def notice_header_def)
qed

lemma headings_render:
  assumes "\<forall>a \<in> set attrs. plain_notice a"
  shows "set (headings (render attrs)) = at_module ` set attrs \<and> distinct (headings (render attrs))"
proof -
  let ?ls = "header_lines @ concat (map block_lines attrs)"
  have h: "\<forall>l \<in> set header_lines. nl \<notin> set l" "rule_line \<notin> set header_lines" by code_simp+
  have "\<forall>l \<in> set (block_lines a). nl \<notin> set l" if "a \<in> set attrs" for a
    using assms that split_on_pieces_free rule_line_nonempty by (auto simp: block_lines_def plain_notice_def)
  then have "\<forall>l \<in> set ?ls. nl \<notin> set l" using h by auto
  then have "split_on nl (render attrs) = ?ls @ [[]]"
    unfolding render_lines using split_on_lines [of ?ls nl "\<lambda>l. l" "[]"] by simp
  then show ?thesis
    using headings_from_heads [of "?ls @ [[]]" "[]"] heads_free [OF h(2)] heads_blocks [OF assms] by (simp add: headings_def)
qed

lemma sort_filter_set:
  "distinct xs \<Longrightarrow> sort (filter P xs) = sorted_list_of_set {x \<in> set xs. P x}" for xs :: "string list"
  using sorted_list_of_set_sort_remdups [of "filter P xs"] by (simp add: distinct_remdups_id)

lemma modules_of:
  "set (fold (\<lambda>a ms. List.insert (at_module a) ms) attrs ms) = set ms \<union> at_module ` set attrs \<and>
   (distinct ms \<longrightarrow> distinct (fold (\<lambda>a ms. List.insert (at_module a) ms) attrs ms))"
  by (induction attrs arbitrary: ms) auto

text \<open>A failed check says which dependency changed. When the committed file was rendered from
  other attributions, the report lists, in order, exactly the modules that ship a NOTICE and
  are not attributed and exactly those attributed that no longer are; and when there is no such
  module it says that only the text differs. Module paths are nonempty lines, and no upstream
  text has the rule as a line of its own.\<close>

theorem drift_names_modules:
  assumes "\<forall>a \<in> set old. plain_notice a"
  shows "describeDrift (render old) new =
    (if at_module ` set new = at_module ` set old
     then ''  the attributed modules match, so the upstream text itself changed''
     else join [nl] (map added_line (sorted_list_of_set (at_module ` set new - at_module ` set old)) @
       map dropped_line (sorted_list_of_set (at_module ` set old - at_module ` set new))))"
proof -
  let ?want = "fold (\<lambda>a ms. List.insert (at_module a) ms) new []"
  have w: "set ?want = at_module ` set new" "distinct ?want" using modules_of [of new "[]"] by simp_all
  note h = headings_render [OF assms]
  have "sort (filter (\<lambda>m. m \<notin> set (headings (render old))) ?want) = sorted_list_of_set (at_module ` set new - at_module ` set old)"
    using w h sort_filter_set [of ?want "\<lambda>m. m \<notin> set (headings (render old))"] by (simp add: set_diff_eq)
  moreover have "sort (filter (\<lambda>m. m \<notin> set ?want) (headings (render old))) = sorted_list_of_set (at_module ` set old - at_module ` set new)"
    using w h sort_filter_set [of "headings (render old)" "\<lambda>m. m \<notin> set ?want"] by (simp add: set_diff_eq)
  moreover have "sorted_list_of_set (A - B) = [] \<longleftrightarrow> A \<subseteq> B" if "finite A" for A B :: "string set"
    using that by (simp add: sorted_list_of_set_eq_Nil_iff)
  ultimately show ?thesis by (auto simp: describeDrift_def Let_def)
qed

end
