(* ===== verification/Go_Json_Text.thy ===== *)
theory Go_Json_Text
  imports Go_Json
begin

text \<open>
  What \<open>json.Marshal\<close> writes for values made of strings, integers, lists and maps (strings already
  escaped, the keys of a map already in order), and that the parser reads it back.
\<close>

section \<open>Writing\<close>

definition quoted :: "string \<Rightarrow> string" where
  "quoted r = CHR 0x22 # r @ [CHR 0x22]"

fun json_text :: "json \<Rightarrow> string" where
  "json_text JNull = ''null''"
| "json_text (JBool b) = (if b then ''true'' else ''false'')"
| "json_text (JNum n) = n"
| "json_text (JStr r) = quoted r"
| "json_text (JArr vs) = CHR ''['' # join '','' (map json_text vs) @ '']''"
| "json_text (JObj ms) = CHR ''{'' # join '','' (map (\<lambda>(k, v). quoted k @ CHR '':'' # json_text v) ms) @ ''}''"

definition jstring :: "string \<Rightarrow> json" where "jstring s = JStr (json_escape s)"
definition jint :: "int \<Rightarrow> json" where "jint i = JNum (itoa i)"

text \<open>A map with string keys: \<open>json.Marshal\<close> writes it in the order of the keys.\<close>

definition jmap :: "(string \<times> json) list \<Rightarrow> json" where
  "jmap ms = JObj (map (\<lambda>(k, v). (json_escape k, v)) (sort_key fst ms))"

section \<open>Reading it back\<close>

text \<open>The values that can be written: string literals without a closing quote inside, numbers as
  \<open>itoa\<close> writes them; their depth is bounded by the parser's limit.\<close>

fun printable_json :: "json \<Rightarrow> bool" where
  "printable_json JNull = True"
| "printable_json (JBool b) = True"
| "printable_json (JNum n) = (\<exists>i. n = itoa i)"
| "printable_json (JStr r) = scannable r"
| "printable_json (JArr vs) = list_all printable_json vs"
| "printable_json (JObj ms) = list_all (\<lambda>(k, v). scannable k \<and> printable_json v) ms"

fun json_depth :: "json \<Rightarrow> nat" where
  "json_depth (JArr vs) = Suc (fold max (map json_depth vs) 0)"
| "json_depth (JObj ms) = Suc (fold max (map (\<lambda>(k, v). json_depth v) ms) 0)"
| "json_depth _ = 0"

fun commas :: "json_token list list \<Rightarrow> json_token list" where
  "commas [] = []"
| "commas [ts] = ts"
| "commas (ts # us # tss) = ts @ TComma # commas (us # tss)"

fun json_toks :: "json \<Rightarrow> json_token list" where
  "json_toks JNull = [TWord ''null'']"
| "json_toks (JBool b) = [TWord (if b then ''true'' else ''false'')]"
| "json_toks (JNum n) = [TNum n]"
| "json_toks (JStr r) = [TStr r]"
| "json_toks (JArr vs) = TLBrack # commas (map json_toks vs) @ [TRBrack]"
| "json_toks (JObj ms) = TLBrace # commas (map (\<lambda>(k, v). TStr k # TColon # json_toks v) ms) @ [TRBrace]"

text \<open>What may follow a number.\<close>

definition delimited :: "string \<Rightarrow> bool" where
  "delimited s \<longleftrightarrow> s = [] \<or> hd s \<in> set (CHR 0x0A # '',]}'')"

lemma itoa_nat_head: "0 < n \<Longrightarrow> hd (itoa_nat n) \<noteq> CHR ''0''"
proof (induction n rule: itoa_nat.induct)
  case (1 n)
  show ?case
  proof (cases "n < 10")
    case True
    then have "ord (digit_char n) = 48 + n" by (simp add: digit_char_def)
    then have "digit_char n \<noteq> CHR ''0''" using "1.prems" by auto
    then show ?thesis using True by (subst itoa_nat.simps) simp
  next
    case False
    then show ?thesis using 1 by (subst itoa_nat.simps) (simp add: hd_append)
  qed
qed

lemma itoa_nat_zero_head: "itoa_nat n = CHR ''0'' # r \<Longrightarrow> r = []"
proof (cases "n = 0")
  case True
  assume "itoa_nat n = CHR ''0'' # r"
  then show ?thesis using True by (simp add: itoa_nat.simps [of 0])
next
  case False
  assume "itoa_nat n = CHR ''0'' # r"
  then show ?thesis using False itoa_nat_head [of n] by simp
qed

lemma scan_int_itoa: "delimited s \<Longrightarrow> scan_int (itoa_nat n @ s) = Some (itoa_nat n, s)"
proof -
  assume d: "delimited s"
  have digits: "\<forall>c \<in> set (itoa_nat n). is_digit c" using itoa_nat_digits [of n] by (simp add: list_all_iff)
  obtain c r where c: "itoa_nat n = c # r" by (cases "itoa_nat n") auto
  have stop: "takeWhile is_digit s = []" "dropWhile is_digit s = s"
    using d by (cases s; auto simp: delimited_def is_digit_def)+
  show ?thesis
  proof (cases "c = CHR ''0''")
    case True
    then have "r = []" using c itoa_nat_zero_head [of n r] by simp
    then show ?thesis using c True by (simp add: scan_int_def)
  next
    case False
    then show ?thesis using c digits stop by (simp add: scan_int_def takeWhile_append dropWhile_append)
  qed
qed

lemma scan_num_itoa: "delimited s \<Longrightarrow> scan_num (itoa i @ s) = Some (itoa i, s)"
proof -
  assume d: "delimited s"
  have rest: "scan_frac s = Some ([], s)" "scan_exp s = Some ([], s)"
    using d by (cases s; auto simp: delimited_def scan_frac_def scan_exp_def)+
  have "hd (itoa_nat n @ s) \<noteq> CHR ''-''" for n using itoa_nat_head_digit [of n] by (auto simp: is_digit_def)
  then show ?thesis
    using scan_int_itoa [OF d] rest by (auto simp: scan_num_def itoa_def Let_def)
qed

lemma json_tokens_bracket:
  "json_tokens (CHR ''['' # s) = TLBrack # json_tokens s" "json_tokens (CHR '']'' # s) = TRBrack # json_tokens s"
  by (simp_all add: next_token_def json_space_def)

lemma json_tokens_num: "delimited s \<Longrightarrow> json_tokens (itoa i @ s) = TNum (itoa i) # json_tokens s"
proof -
  assume d: "delimited s"
  obtain c r where c: "itoa i = c # r" using itoa_nat_not_Nil by (cases "itoa i") (auto simp: itoa_def split: if_splits)
  then have "c = CHR ''-'' \<or> is_digit c"
    using itoa_nat_head_digit [of "nat i"] by (auto simp: itoa_def split: if_splits)
  then have "ord c = 45 \<or> 48 \<le> ord c \<and> ord c \<le> 57" by (auto simp: is_digit_def)
  then have sp: "\<not> json_space c" and ne: "c \<notin> set ''{}[]:,tfn'' \<and> c \<noteq> CHR 0x22" by (auto simp: json_space_def)
  from ne have "next_token c (r @ s) = map_option (\<lambda>(n, t). (TNum n, t)) (scan_num ((c # r) @ s))"
    by (simp add: next_token_def has_prefix_def)
  then show ?thesis using scan_num_itoa [OF d, of i] c sp by simp
qed

lemma json_tokens_word:
  "json_tokens (''null'' @ s) = TWord ''null'' # json_tokens s"
  "json_tokens (''true'' @ s) = TWord ''true'' # json_tokens s"
  "json_tokens (''false'' @ s) = TWord ''false'' # json_tokens s"
  by (simp_all add: next_token_def json_space_def has_prefix_def)

lemma json_tokens_quoted: "scannable r \<Longrightarrow> json_tokens (quoted r @ s) = TStr r # json_tokens s"
  by (simp add: quoted_def json_tokens_str del: json_tokens.simps)

text \<open>The tokens of a list of texts that are joined by commas and closed by a bracket.\<close>

lemma json_tokens_join:
  assumes "\<And>x s. x \<in> set xs \<Longrightarrow> delimited s \<Longrightarrow> json_tokens (f x @ s) = g x @ json_tokens s" "delimited s"
  shows "json_tokens (join '','' (map f xs) @ s) = commas (map g xs) @ json_tokens s"
  using assms
proof (induction xs)
  case (Cons x xs)
  show ?case
  proof (cases xs)
    case (Cons y ys)
    have "delimited (CHR '','' # t)" for t by (simp add: delimited_def)
    then show ?thesis using Cons.IH Cons.prems Cons
      by (simp add: json_tokens_punct del: json_tokens.simps)
  qed (use Cons.prems in simp)
qed simp

lemma json_tokens_text: "printable_json v \<Longrightarrow> delimited s \<Longrightarrow> json_tokens (json_text v @ s) = json_toks v @ json_tokens s"
proof (induction v arbitrary: s rule: json_text.induct)
  case (5 vs)
  have "delimited (CHR '']'' # s)" by (simp add: delimited_def)
  then have "json_tokens (join '','' (map json_text vs) @ CHR '']'' # s) = commas (map json_toks vs) @ json_tokens (CHR '']'' # s)"
    using "5.IH" "5.prems"(1) by (intro json_tokens_join) (auto simp: list_all_iff)
  then show ?case by (simp add: json_tokens_bracket del: json_tokens.simps)
next
  case (6 ms)
  have "delimited (CHR ''}'' # s)" by (simp add: delimited_def)
  moreover have "json_tokens ((case p of (k, v) \<Rightarrow> quoted k @ CHR '':'' # json_text v) @ t) =
      (case p of (k, v) \<Rightarrow> TStr k # TColon # json_toks v) @ json_tokens t" if p: "p \<in> set ms" "delimited t" for p t
  proof -
    obtain k v where kv: "p = (k, v)" by (cases p)
    then have ok: "scannable k" "printable_json v" using p(1) "6.prems"(1) by (auto simp: list_all_iff)
    have "json_tokens (json_text v @ t) = json_toks v @ json_tokens t" using "6.IH" [OF p(1) kv [symmetric] ok(2) p(2)] .
    then show ?thesis using kv ok(1) by (simp add: json_tokens_quoted json_tokens_punct del: json_tokens.simps)
  qed
  ultimately have "json_tokens (join '','' (map (\<lambda>(k, v). quoted k @ CHR '':'' # json_text v) ms) @ CHR ''}'' # s) =
      commas (map (\<lambda>(k, v). TStr k # TColon # json_toks v) ms) @ json_tokens (CHR ''}'' # s)"
    by (intro json_tokens_join) auto
  then show ?case by (simp add: json_tokens_punct del: json_tokens.simps)
qed (auto simp: json_tokens_num json_tokens_word json_tokens_quoted simp del: json_tokens.simps append.simps)

lemma fold_max_bound: "x \<in> set xs \<Longrightarrow> x \<le> fold max xs (n::nat)" "n \<le> fold max xs (n::nat)"
proof -
  show n: "n \<le> fold max xs n" for n :: nat and xs by (induction xs arbitrary: n) (auto intro: order_trans [OF max.cobounded2])
  show "x \<in> set xs \<Longrightarrow> x \<le> fold max xs n"
    by (induction xs arbitrary: n) (auto intro: order_trans [OF max.cobounded1 n])
qed

text \<open>The parser reads a value and delivers it, whatever is open around it.\<close>

lemma json_run_commas_arr:
  assumes "\<And>v st ts. v \<in> set vs \<Longrightarrow> length st \<le> n \<Longrightarrow> json_run (Reading MValue st) (json_toks v @ ts) = json_run (deliver v st) ts"
    and "Suc (length st) \<le> n" "vs \<noteq> []"
  shows "json_run (Reading MValue (InArr acc # st)) (commas (map json_toks vs) @ TRBrack # ts) =
    json_run (deliver (JArr (acc @ vs)) st) ts"
  using assms
proof (induction vs arbitrary: acc)
  case (Cons v vs)
  show ?case
  proof (cases vs)
    case Nil
    then show ?thesis using Cons.prems by simp
  next
    case (Cons u us)
    then show ?thesis using Cons.IH [of "acc @ [v]"] Cons.prems by simp
  qed
qed simp

lemma json_run_commas_obj:
  assumes "\<And>k v st ts. (k, v) \<in> set ms \<Longrightarrow> length st \<le> n \<Longrightarrow>
      json_run (Reading MValue st) (json_toks v @ ts) = json_run (deliver v st) ts"
    and "Suc (length st) \<le> n" "ms \<noteq> []" "m = MKey \<or> m = MKeyOrEnd"
  shows "json_run (Reading m (InObj acc # st)) (commas (map (\<lambda>(k, v). TStr k # TColon # json_toks v) ms) @ TRBrace # ts) =
    json_run (deliver (JObj (acc @ ms)) st) ts"
  using assms
proof (induction ms arbitrary: acc m)
  case (Cons p ms)
  obtain k v where p: "p = (k, v)" by (cases p)
  have key: "json_run (Reading m (InObj acc # st)) (TStr k # TColon # us) =
      json_run (Reading MValue (InMember acc k # st)) us" for us
    using Cons.prems(4) by auto
  have val: "json_run (Reading MValue (InMember acc k # st)) (json_toks v @ us) =
      json_run (Reading MAfter (InObj (acc @ [p]) # st)) us" for us
    using Cons.prems(1) [of k v "InMember acc k # st" us] Cons.prems(2) p by simp
  show ?case
  proof (cases ms)
    case Nil
    then show ?thesis using key val p by simp
  next
    case (Cons q qs)
    let ?f = "\<lambda>(k, v). TStr k # TColon # json_toks v"
    have "json_run (Reading MKey (InObj (acc @ [p]) # st)) (commas (map ?f ms) @ TRBrace # ts) =
        json_run (deliver (JObj ((acc @ [p]) @ ms)) st) ts"
      by (rule Cons.IH) (use Cons.prems Cons in auto)
    moreover have "commas (map ?f (p # ms)) @ TRBrace # ts =
        TStr k # TColon # json_toks v @ TComma # commas (map ?f ms) @ TRBrace # ts"
      using Cons p by simp
    ultimately show ?thesis unfolding key val by (simp add: key val del: json_run.simps(3)) simp
  qed
qed simp

lemma json_toks_start: "json_toks v = t # ts \<Longrightarrow> t \<noteq> TRBrack"
  by (cases v) auto

lemma json_run_text:
  "printable_json v \<Longrightarrow> length st + json_depth v \<le> maxNestingDepth \<Longrightarrow>
   json_run (Reading MValue st) (json_toks v @ ts) = json_run (deliver v st) ts"
proof (induction v arbitrary: st ts rule: json_text.induct)
  case (5 vs)
  let ?n = "maxNestingDepth - fold max (map json_depth vs) 0"
  have IH: "json_run (Reading MValue st') (json_toks v @ ts') = json_run (deliver v st') ts'"
    if "v \<in> set vs" "length st' \<le> ?n" for v st' ts'
  proof (rule "5.IH" [OF that(1)])
    have "json_depth v \<le> fold max (map json_depth vs) 0" using that(1) by (intro fold_max_bound) simp
    then show "length st' + json_depth v \<le> maxNestingDepth" using that(2) "5.prems"(2) by simp
  qed (use that "5.prems" in \<open>simp add: list_all_iff\<close>)
  have len: "Suc (length st) \<le> ?n" "length st < maxNestingDepth" using "5.prems"(2) by simp_all
  show ?case
  proof (cases vs)
    case (Cons v us)
    obtain t ts' where t: "json_toks v = t # ts'" by (cases "json_toks v") (cases v, auto)
    have "json_run (Reading MValueOrEnd (InArr [] # st)) (t # us') = json_run (Reading MValue (InArr [] # st)) (t # us')" for us'
      using json_toks_start [OF t] by (cases t) auto
    moreover obtain us' where "commas (map json_toks vs) = t # us'" using Cons t by (cases us) auto
    ultimately show ?thesis
      using json_run_commas_arr [where vs = vs and n = ?n and acc = "[]" and st = st and ts = ts, OF IH len(1)] Cons len(2)
      by (simp add: value_step_def open_frame_def)
  qed (use len(2) in \<open>simp add: value_step_def open_frame_def\<close>)
next
  case (6 ms)
  let ?n = "maxNestingDepth - fold max (map (\<lambda>(k, v). json_depth v) ms) 0"
  have IH: "json_run (Reading MValue st') (json_toks v @ ts') = json_run (deliver v st') ts'"
    if "(k, v) \<in> set ms" "length st' \<le> ?n" for k v st' ts'
  proof (rule "6.IH" [OF that(1) refl])
    have "json_depth v \<le> fold max (map (\<lambda>(k, v). json_depth v) ms) 0" using that(1) by (intro fold_max_bound) force
    then show "length st' + json_depth v \<le> maxNestingDepth" using that(2) "6.prems"(2) by simp
  qed (use that "6.prems" in \<open>auto simp: list_all_iff\<close>)
  have len: "Suc (length st) \<le> ?n" "length st < maxNestingDepth" using "6.prems"(2) by simp_all
  show ?case
  proof (cases "ms = []")
    case False
    then show ?thesis
      using json_run_commas_obj [where ms = ms and n = ?n and acc = "[]" and m = MKeyOrEnd and st = st and ts = ts, OF IH len(1)] len(2)
      by (simp add: value_step_def open_frame_def)
  qed (use len(2) in \<open>simp add: value_step_def open_frame_def\<close>)
qed (auto simp: value_step_def)

theorem json_unmarshal_text:
  "printable_json v \<Longrightarrow> json_depth v \<le> maxNestingDepth \<Longrightarrow> json_unmarshal (json_text v) = Some v"
  using json_tokens_text [of v "[]"] json_run_text [of v "[]" "[]"]
  by (simp add: json_unmarshal_def delimited_def)

lemma json_decode_text:
  "printable_json v \<Longrightarrow> json_depth v \<le> maxNestingDepth \<Longrightarrow> json_decode (json_text v) = Some v"
  using json_tokens_text [of v "[]"] json_run_text [of v "[]" "[]"] by (simp add: json_decode_def delimited_def)

end
