(* ===== verification/Stub_Issuer.thy ===== *)
theory Stub_Issuer
  imports Go_Json_Text Go_Mux Oidc Sha256 "HOL-Library.Multiset"
begin

text \<open>
  \<open>examples/compose/stub-issuer/main.go\<close>: the identity provider of the compose lab, and how the
  proxy reads what it serves. RSA is the parameter \<open>sb_sign\<close>, which signs a digest or fails; the key
  is its modulus and exponent. Each handler is a definition, and \<open>stub_handler\<close> is their mux; forms
  sent as multipart data and log lines are left out.
\<close>

section \<open>The documents\<close>

record stub =
  sb_issuer :: string
  sb_audience :: string
  sb_modulus :: nat
  sb_exponent :: nat
  sb_sign :: "string \<Rightarrow> string option"

definition stub_env :: "(string \<Rightarrow> string) \<Rightarrow> string \<Rightarrow> string \<Rightarrow> string" where
  "stub_env env key fallback = (if env key \<noteq> [] then env key else fallback)"

definition newStub :: "(string \<Rightarrow> string) \<Rightarrow> nat \<Rightarrow> nat \<Rightarrow> (string \<Rightarrow> string option) \<Rightarrow> stub" where
  "newStub env n e sign = \<lparr>sb_issuer = stub_env env ''STUB_ISSUER'' ''http://stub-issuer:8081'',
     sb_audience = stub_env env ''STUB_AUDIENCE'' ''ozone-data'', sb_modulus = n, sb_exponent = e, sb_sign = sign\<rparr>"

definition kid :: string where "kid = ''stub-2026''"

text \<open>\<open>big.Int.Bytes\<close>: big endian without leading zeros.\<close>

fun be_bytes :: "nat \<Rightarrow> string" where
  "be_bytes n = (if n = 0 then [] else be_bytes (n div 256) @ [char_of (n mod 256)])"

declare be_bytes.simps [simp del]

definition stub_discovery :: "stub \<Rightarrow> string" where
  "stub_discovery sb = json_text (jmap
     [(''issuer'', jstring (sb_issuer sb)),
      (''jwks_uri'', jstring (sb_issuer sb @ ''/jwks'')),
      (''token_endpoint'', jstring (sb_issuer sb @ ''/token'')),
      (''response_types_supported'', JArr [jstring ''token'']),
      (''subject_types_supported'', JArr [jstring ''public'']),
      (''id_token_signing_alg_values_supported'', JArr [jstring ''RS256''])])"

definition stub_jwks :: "stub \<Rightarrow> string" where
  "stub_jwks sb = json_text (jmap [(''keys'', JArr [jmap
     [(''kty'', jstring ''RSA''), (''use'', jstring ''sig''), (''alg'', jstring ''RS256''), (''kid'', jstring kid),
      (''n'', jstring (b64url_encode (be_bytes (sb_modulus sb)))),
      (''e'', jstring (b64url_encode (be_bytes (sb_exponent sb))))]])])"

section \<open>Tokens\<close>

definition signJWT :: "(string \<Rightarrow> string option) \<Rightarrow> json \<Rightarrow> string option" where
  "signJWT sign claims =
     (let header = json_text (jmap [(''alg'', jstring ''RS256''), (''typ'', jstring ''JWT''), (''kid'', jstring kid)]);
          payload = json_text claims;
          signingInput = b64url_encode header @ ''.'' @ b64url_encode payload
      in map_option (\<lambda>sig. signingInput @ ''.'' @ b64url_encode sig) (sign (sha256 signingInput)))"

definition stub_claims :: "stub \<Rightarrow> string \<Rightarrow> string \<Rightarrow> int \<Rightarrow> time \<Rightarrow> json" where
  "stub_claims sb username aud ttl now = jmap
     [(''iss'', jstring (sb_issuer sb)),
      (''sub'', jstring (''stub|'' @ username)),
      (''uid'', jstring username),
      (''aud'', JArr (map jstring (split_on (CHR '','') aud))),
      (''iat'', jint (now div second)),
      (''nbf'', jint (now div second)),
      (''exp'', jint (time_add now (seconds ttl) div second))]"

text \<open>\<open>Request.PostFormValue\<close> of a form: at most ten megabytes are read, errors are dropped.\<close>

definition post_form :: "request \<Rightarrow> url_values" where
  "post_form r = fst (parse_form r
     (case r_body r of Some b \<Rightarrow> if length b \<le> 10485760 then Some b else None | None \<Rightarrow> None))"

definition stub_ttl :: "url_values \<Rightarrow> int" where
  "stub_ttl form =
     (case atoi (values_get form ''ttl'') of Some n \<Rightarrow> if 0 < n then n else 600 | None \<Rightarrow> 600)"

definition stub_aud :: "stub \<Rightarrow> url_values \<Rightarrow> string" where
  "stub_aud sb form = (if values_get form ''aud'' \<noteq> [] then values_get form ''aud'' else sb_audience sb)"

definition json_header :: header where
  "json_header = header_set [] ''Content-Type'' ''application/json''"

definition stub_token :: "stub \<Rightarrow> time \<Rightarrow> request \<Rightarrow> response" where
  "stub_token sb now r =
     (let form = post_form r; username = values_get form ''username''; ttl = stub_ttl form; aud = stub_aud sb form in
      if username = [] then
        http_error (json_object [(''error'', ''invalid_request''), (''error_description'', ''username required'')]) 400
      else case signJWT (sb_sign sb) (stub_claims sb username aud ttl now) of
        None \<Rightarrow> http_error (json_object [(''error'', ''server_error'')]) 500
      | Some token \<Rightarrow>
          \<lparr>rp_status = 200, rp_header = json_header,
           rp_body = json_text (jmap [(''access_token'', jstring token), (''token_type'', jstring ''Bearer''),
             (''expires_in'', jint ttl)]) @ [CHR 0x0A]\<rparr>)"

definition stub_document :: "string \<Rightarrow> response" where
  "stub_document body = \<lparr>rp_status = 200, rp_header = json_header, rp_body = body\<rparr>"

datatype stub_route = StubDiscovery | StubJwks | StubToken | StubHealthz

definition stub_mux :: "stub_route mux" where
  "stub_mux = \<lparr>mx_routes =
     [Route (Some ''GET'') [Lit ''.well-known'', Lit ''openid-configuration''] StubDiscovery,
      Route (Some ''GET'') [Lit ''jwks''] StubJwks, Route (Some ''POST'') [Lit ''token''] StubToken,
      Route (Some ''GET'') [Lit ''healthz''] StubHealthz], mx_root = None\<rparr>"

definition stub_handler :: "stub \<Rightarrow> time \<Rightarrow> request \<Rightarrow> response" where
  "stub_handler sb now r =
     (case mux_route stub_mux r of
        Handle StubDiscovery _ \<Rightarrow> stub_document (stub_discovery sb)
      | Handle StubJwks _ \<Rightarrow> stub_document (stub_jwks sb)
      | Handle StubToken _ \<Rightarrow> stub_token sb now r
      | Handle StubHealthz _ \<Rightarrow> \<lparr>rp_status = 200, rp_header = [], rp_body = []\<rparr>
      | t \<Rightarrow> mux_refusal r t)"

section \<open>What the proxy reads\<close>

lemma jmap_sorted:
  assumes "mset ms = mset ms'" "distinct (map fst ms)" "sorted (map fst ms')"
  shows "jmap ms = JObj (map (\<lambda>(k, v). (json_escape k, v)) ms')"
  using sort_key_inj_key_eq [OF assms(1) _ assms(3)] assms(2) by (simp add: jmap_def distinct_map)

lemma jstring_printable [simp]: "printable_json (jstring s)" "json_depth (jstring s) = 0"
  by (simp_all add: jstring_def scannable_json_escape)

lemma jint_printable [simp]: "printable_json (jint i)" "json_depth (jint i) = 0"
  by (auto simp: jint_def)

lemma jmap_printable: "list_all (printable_json \<circ> snd) ms \<Longrightarrow> printable_json (jmap ms)"
  by (auto simp: jmap_def list_all_iff scannable_json_escape)

text \<open>The claims in the order of their names.\<close>

definition claim_list :: "stub \<Rightarrow> string \<Rightarrow> string \<Rightarrow> int \<Rightarrow> time \<Rightarrow> (string \<times> json) list" where
  "claim_list sb username aud ttl now =
     [(''aud'', JArr (map jstring (split_on (CHR '','') aud))),
      (''exp'', jint (time_add now (seconds ttl) div second)),
      (''iat'', jint (now div second)),
      (''iss'', jstring (sb_issuer sb)),
      (''nbf'', jint (now div second)),
      (''sub'', jstring (''stub|'' @ username)),
      (''uid'', jstring username)]"

lemma claims_members: "stub_claims sb username aud ttl now = JObj (claim_list sb username aud ttl now)"
proof -
  let ?ms = "claim_list sb username aud ttl now" and ?ks = "[''aud'', ''exp'', ''iat'', ''iss'', ''nbf'', ''sub'', ''uid'']"
  have k: "map fst ?ms = ?ks" by (simp add: claim_list_def)
  have "map json_escape ?ks = ?ks" "sorted ?ks" by code_simp+
  then have "map (\<lambda>(k, v). (json_escape k, v)) ?ms = ?ms" "sorted (map fst ?ms)"
    unfolding k by (simp_all add: claim_list_def del: json_escape.simps)
  then show ?thesis
    unfolding stub_claims_def by (subst jmap_sorted [where ms' = ?ms]) (simp_all add: claim_list_def)
qed

lemma claims_printable:
  "printable_json (stub_claims sb username aud ttl now)" "json_depth (stub_claims sb username aud ttl now) \<le> maxNestingDepth"
proof -
  have names: "list_all scannable [''aud'', ''exp'', ''iat'', ''iss'', ''nbf'', ''sub'', ''uid'']" by code_simp
  then show "printable_json (stub_claims sb username aud ttl now)"
    by (simp add: claims_members claim_list_def list_all_iff)
  have "fold max (map json_depth (map jstring as)) n = n" for as and n :: nat by (induction as) simp_all
  then show "json_depth (stub_claims sb username aud ttl now) \<le> maxNestingDepth"
    by (simp add: claims_members claim_list_def maxNestingDepth_def)
qed

text \<open>How a JWT library reads the claims of a payload: the registered claims it knows, and every
  claim by its name.\<close>

definition jwt_reads :: "string \<Rightarrow> token \<Rightarrow> bool" where
  "jwt_reads payload t \<longleftrightarrow>
     (\<exists>ms. json_unmarshal payload = Some (JObj ms) \<and>
       (\<forall>k. tk_claims t k = (case map_of ms k of
          None \<Rightarrow> None | Some (JStr r) \<Rightarrow> Some (StringClaim (unquote r)) | Some _ \<Rightarrow> Some OtherClaim)) \<and>
       tk_subject t = (case map_of ms ''sub'' of Some (JStr r) \<Rightarrow> unquote r | _ \<Rightarrow> []) \<and>
       tk_audience t = (case map_of ms ''aud'' of
          Some (JArr vs) \<Rightarrow> map (\<lambda>v. case v of JStr r \<Rightarrow> unquote r | _ \<Rightarrow> []) vs | _ \<Rightarrow> []))"

lemma jwt_readsD:
  assumes "jwt_reads payload t" "json_unmarshal payload = Some (JObj ms)"
  shows "tk_claims t k = (case map_of ms k of
      None \<Rightarrow> None | Some (JStr r) \<Rightarrow> Some (StringClaim (unquote r)) | Some _ \<Rightarrow> Some OtherClaim)"
    "tk_subject t = (case map_of ms ''sub'' of Some (JStr r) \<Rightarrow> unquote r | _ \<Rightarrow> [])"
    "tk_audience t = (case map_of ms ''aud'' of
       Some (JArr vs) \<Rightarrow> map (\<lambda>v. case v of JStr r \<Rightarrow> unquote r | _ \<Rightarrow> []) vs | _ \<Rightarrow> [])"
  using assms unfolding jwt_reads_def by auto

lemma stub_claims_read:
  assumes "jwt_reads (json_text (stub_claims sb username aud ttl now)) t" "utf8_valid username" "utf8_valid (''stub|'' @ username)"
    and "\<forall>a \<in> set (split_on (CHR '','') aud). utf8_valid a"
  shows "tk_subject t = ''stub|'' @ username" "stringClaim t ''uid'' = username" "tk_audience t = split_on (CHR '','') aud"
    "k \<notin> {''uid'', ''iss'', ''sub''} \<Longrightarrow> stringClaim t k = []" "stringClaim t ''sub'' = ''stub|'' @ username"
proof -
  let ?ms = "claim_list sb username aud ttl now"
  have ms: "json_unmarshal (json_text (stub_claims sb username aud ttl now)) = Some (JObj ?ms)"
    by (rule trans [OF json_unmarshal_text [OF claims_printable] arg_cong [where f = Some, OF claims_members]])
  have mem: "map_of ?ms ''sub'' = Some (jstring (''stub|'' @ username))" "map_of ?ms ''uid'' = Some (jstring username)"
    "map_of ?ms ''aud'' = Some (JArr (map jstring (split_on (CHR '','') aud)))"
    by (simp_all add: claim_list_def)
  have other: "map_of ?ms k \<noteq> Some (JStr x)" if "k \<notin> {''uid'', ''iss'', ''sub''}" for x
    using that by (auto simp: claim_list_def jint_def)
  note rd = jwt_readsD [OF assms(1) ms]
  have str: "(case jstring s of JStr r \<Rightarrow> unquote r | _ \<Rightarrow> []) = s"
    "(case jstring s of JStr r \<Rightarrow> Some (StringClaim (unquote r)) | _ \<Rightarrow> Some OtherClaim) = Some (StringClaim s)"
    if "utf8_valid s" for s using that by (simp_all add: jstring_def unquote_json_escape)
  have "map ((\<lambda>v. case v of JStr r \<Rightarrow> unquote r | _ \<Rightarrow> []) \<circ> jstring) (split_on (CHR '','') aud) = split_on (CHR '','') aud"
    using assms(4) str(1) by (intro map_idI) (simp only: comp_apply)
  then show "tk_audience t = split_on (CHR '','') aud" unfolding rd(3) mem(3) by simp
  show "tk_subject t = ''stub|'' @ username" unfolding rd(2) mem(1) using str(1) [OF assms(3)] by (simp only: option.case)
  show "stringClaim t ''uid'' = username" "stringClaim t ''sub'' = ''stub|'' @ username"
    unfolding stringClaim_def rd(1) mem(1,2)
    using str(2) [OF assms(2)] str(2) [OF assms(3)] by (simp_all only: option.case claim.case)
  show "k \<notin> {''uid'', ''iss'', ''sub''} \<Longrightarrow> stringClaim t k = []"
    using other by (auto simp: stringClaim_def rd(1) split: option.splits json.splits)
qed

text \<open>C23: tokens of the stub issuer name the user in \<open>uid\<close> only. A token it hands out carries a
  payload from which the proxy, configured with \<open>username_claim: uid\<close>, takes exactly the username
  that was asked for; with any other username claim but \<open>iss\<close> the default policy rejects the
  token, so the proxy can never attribute a request to the subject by falling back to it.\<close>

theorem stub_token_attribution:
  assumes "rp_status (stub_token sb now r) = 200" "username = values_get (post_form r) ''username''"
    and "utf8_valid username" "\<forall>a \<in> set (split_on (CHR '','') (stub_aud sb (post_form r))). utf8_valid a"
    and "up_regex policy = Some default_username"
  shows "\<exists>header payload sig.
    rp_body (stub_token sb now r) = json_text (jmap [(''access_token'',
        jstring (b64url_encode header @ ''.'' @ b64url_encode payload @ ''.'' @ b64url_encode sig)),
      (''token_type'', jstring ''Bearer''), (''expires_in'', jint (stub_ttl (post_form r)))]) @ [CHR 0x0A] \<and>
    sb_sign sb (sha256 (b64url_encode header @ ''.'' @ b64url_encode payload)) = Some sig \<and>
    json_unmarshal payload = Some (stub_claims sb username (stub_aud sb (post_form r)) (stub_ttl (post_form r)) now) \<and>
    (\<forall>t iss. jwt_reads payload t \<longrightarrow>
       set (split_on (CHR '','') (stub_aud sb (post_form r))) \<inter> set (is_audiences iss) \<noteq> {} \<longrightarrow>
       (is_username_claim iss = ''uid'' \<longrightarrow> default_username username \<longrightarrow>
          (\<exists>ident. identityOf policy iss t = Inr ident \<and> id_username ident = username)) \<and>
       (is_username_claim iss \<notin> {''uid'', ''iss''} \<longrightarrow> (\<exists>u. identityOf policy iss t = Inl (ErrBadUsername u))))"
proof -
  let ?aud = "stub_aud sb (post_form r)"
  let ?claims = "stub_claims sb username ?aud (stub_ttl (post_form r)) now"
  let ?header = "json_text (jmap [(''alg'', jstring ''RS256''), (''typ'', jstring ''JWT''), (''kid'', jstring kid)])"
  let ?in = "b64url_encode ?header @ ''.'' @ b64url_encode (json_text ?claims)"
  obtain sig where sig: "sb_sign sb (sha256 ?in) = Some sig" "username \<noteq> []"
    "rp_body (stub_token sb now r) = json_text (jmap [(''access_token'',
        jstring (b64url_encode ?header @ ''.'' @ b64url_encode (json_text ?claims) @ ''.'' @ b64url_encode sig)),
      (''token_type'', jstring ''Bearer''), (''expires_in'', jint (stub_ttl (post_form r)))]) @ [CHR 0x0A]"
    using assms(1,2) by (auto simp: stub_token_def Let_def signJWT_def http_error_def split: if_splits option.splits)
  have sub: "utf8_valid (''stub|'' @ username)" using assms(3) by (simp add: utf8_valid.simps)
  have bad: "\<not> default_username (''stub|'' @ username)" by (simp add: default_username_def char_class_defs)
  have "(is_username_claim iss = ''uid'' \<longrightarrow> default_username username \<longrightarrow>
          (\<exists>ident. identityOf policy iss t = Inr ident \<and> id_username ident = username)) \<and>
       (is_username_claim iss \<notin> {''uid'', ''iss''} \<longrightarrow> (\<exists>u. identityOf policy iss t = Inl (ErrBadUsername u)))"
    if t: "jwt_reads (json_text ?claims) t" "set (split_on (CHR '','') ?aud) \<inter> set (is_audiences iss) \<noteq> {}" for t iss
  proof -
    note rd = stub_claims_read [OF t(1) assms(3) sub assms(4)]
    have "intersects (tk_audience t) (is_audiences iss)" using t(2) rd(3) by (simp add: intersects_iff)
    then show ?thesis
      using rd(1,2,5) rd(4) [of "is_username_claim iss"] sig(2) bad assms(5)
      by (cases "is_username_claim iss = ''sub''") (auto simp: identityOf_def Let_def policy_validate_def)
  qed
  then show ?thesis using sig json_unmarshal_text [OF claims_printable] by blast
qed

lemma jwt_reads_exists:
  assumes "json_unmarshal payload = Some (JObj ms)"
  shows "\<exists>t. jwt_reads payload t"
proof -
  have "jwt_reads payload \<lparr>
      tk_subject = (case map_of ms ''sub'' of Some (JStr r) \<Rightarrow> unquote r | _ \<Rightarrow> []),
      tk_audience = (case map_of ms ''aud'' of
        Some (JArr vs) \<Rightarrow> map (\<lambda>v. case v of JStr r \<Rightarrow> unquote r | _ \<Rightarrow> []) vs | _ \<Rightarrow> []),
      tk_expiration = 0,
      tk_claims = (\<lambda>k. case map_of ms k of
        None \<Rightarrow> None | Some (JStr r) \<Rightarrow> Some (StringClaim (unquote r)) | Some _ \<Rightarrow> Some OtherClaim)\<rparr>"
    using assms by (simp add: jwt_reads_def)
  then show ?thesis by blast
qed

definition lab_stub :: stub where
  "lab_stub = newStub (\<lambda>_. []) 3233 17 Some"

definition lab_request :: request where
  "lab_request = \<lparr>r_method = ''POST'',
     r_url = \<lparr>u_scheme = [], u_host = [], u_path = ''/token'', u_raw_path = [], u_raw_query = []\<rparr>,
     r_request_uri = ''/token'', r_host = ''stub-issuer:8081'',
     r_header = [(''Content-Type'', [form_type])], r_content_length = 21,
     r_body = Some ''username=alice&ttl=60'', r_client_ip = None, r_tls = False\<rparr>"

definition lab_issuer :: issuer where
  "lab_issuer = \<lparr>is_name = ''stub'', is_issuer = ''http://stub-issuer:8081'', is_jwks_uri = [],
     is_audiences = [''ozone-data''], is_username_claim = ''uid''\<rparr>"

theorem stub_token_attribution_witness:
  "\<exists>payload t ident. jwt_reads payload t \<and> id_username ident = ''alice'' \<and>
     identityOf \<lparr>up_pattern = defaultPattern, up_regex = Some default_username\<rparr> lab_issuer t = Inr ident"
proof -
  have "parse_form lab_request (Some ''username=alice&ttl=60'') = ([(''username'', ''alice''), (''ttl'', ''60'')], True)"
    by code_simp
  then have form: "post_form lab_request = [(''username'', ''alice''), (''ttl'', ''60'')]"
    by (simp add: post_form_def lab_request_def)
  then have user: "''alice'' = values_get (post_form lab_request) ''username''" by (simp add: values_get_def)
  have aud: "stub_aud lab_stub (post_form lab_request) = ''ozone-data''"
    unfolding form by (simp add: stub_aud_def values_get_def lab_stub_def newStub_def stub_env_def)
  have ok: "rp_status (stub_token lab_stub 0 lab_request) = 200"
    using user [symmetric] by (simp add: stub_token_def Let_def signJWT_def lab_stub_def newStub_def)
  have utf: "utf8_valid ''alice''" "\<forall>a \<in> set (split_on (CHR '','') ''ozone-data''). utf8_valid a" by code_simp+
  obtain payload where p: "json_unmarshal payload = Some (stub_claims lab_stub ''alice'' ''ozone-data''
      (stub_ttl (post_form lab_request)) 0)"
    and id: "\<And>t iss. jwt_reads payload t \<Longrightarrow> set (split_on (CHR '','') ''ozone-data'') \<inter> set (is_audiences iss) \<noteq> {} \<Longrightarrow>
      is_username_claim iss = ''uid'' \<Longrightarrow> default_username ''alice'' \<Longrightarrow>
      \<exists>ident. identityOf \<lparr>up_pattern = defaultPattern, up_regex = Some default_username\<rparr> iss t = Inr ident \<and>
        id_username ident = ''alice''"
    using stub_token_attribution [OF ok user utf(1), where policy = "\<lparr>up_pattern = defaultPattern, up_regex = Some default_username\<rparr>"]
      utf(2) unfolding aud by auto
  obtain t where t: "jwt_reads payload t" using jwt_reads_exists p claims_members by metis
  have "set (split_on (CHR '','') ''ozone-data'') \<inter> set (is_audiences lab_issuer) \<noteq> {}"
    "is_username_claim lab_issuer = ''uid''" "default_username ''alice''" by code_simp+
  from id [OF t this] t show ?thesis by blast
qed

section \<open>Discovery\<close>

definition discovery_list :: "stub \<Rightarrow> (string \<times> json) list" where
  "discovery_list sb =
     [(''id_token_signing_alg_values_supported'', JArr [jstring ''RS256'']), (''issuer'', jstring (sb_issuer sb)),
      (''jwks_uri'', jstring (sb_issuer sb @ ''/jwks'')), (''response_types_supported'', JArr [jstring ''token'']),
      (''subject_types_supported'', JArr [jstring ''public'']), (''token_endpoint'', jstring (sb_issuer sb @ ''/token''))]"

lemma discovery_members: "stub_discovery sb = json_text (JObj (discovery_list sb))"
proof -
  let ?ms = "discovery_list sb" and ?ks = "[''id_token_signing_alg_values_supported'', ''issuer'', ''jwks_uri'',
    ''response_types_supported'', ''subject_types_supported'', ''token_endpoint'']"
  have k: "map fst ?ms = ?ks" by (simp add: discovery_list_def)
  have "map json_escape ?ks = ?ks" "sorted ?ks" by code_simp+
  then have "map (\<lambda>(k, v). (json_escape k, v)) ?ms = ?ms" "sorted (map fst ?ms)"
    unfolding k by (simp_all add: discovery_list_def del: json_escape.simps)
  then show ?thesis
    unfolding stub_discovery_def by (subst jmap_sorted [where ms' = ?ms]) (simp_all add: discovery_list_def)
qed

lemma unquoted_keys: "map unquote (map fst ms) = map fst ms \<Longrightarrow> map (\<lambda>(k, x). (unquote k, x)) ms = ms"
  by (induction ms) (auto simp del: unquote.simps)

lemma json_field_one:
  "list_all (\<lambda>(k, _). \<not> same_field k f) (ms @ ms') \<Longrightarrow> same_field k f \<Longrightarrow> v \<noteq> JNull \<Longrightarrow> conv v = Some x \<Longrightarrow>
   json_field conv f (ms @ (k, v) # ms') cur = Some x"
proof (induction ms arbitrary: cur)
  case Nil
  have "json_field conv f ms' y = Some y" if "list_all (\<lambda>(k, _). \<not> same_field k f) ms'" for y
    using that by (induction ms') auto
  then show ?case using Nil by simp
qed auto

lemma stub_jwks_uri:
  assumes "list_all (\<lambda>c. ord c < 128) (sb_issuer sb)"
  shows "decode_jwks_uri (stub_discovery sb) = Some (sb_issuer sb @ ''/jwks'')"
proof -
  let ?ms = "discovery_list sb" and ?u = "sb_issuer sb @ ''/jwks''"
  have keys: "map fst ?ms = [''id_token_signing_alg_values_supported'', ''issuer'', ''jwks_uri'', ''response_types_supported'',
      ''subject_types_supported'', ''token_endpoint'']" by (simp add: discovery_list_def)
  have names: "map unquote (map fst ?ms) = map fst ?ms" "list_all scannable (map fst ?ms)" unfolding keys by code_simp+
  have "list_all printable_json (map snd ?ms)" by (simp add: discovery_list_def)
  then have "printable_json (JObj ?ms)" using names(2) by (auto simp: list_all_iff)
  moreover have "json_depth (JObj ?ms) \<le> maxNestingDepth" by (simp add: discovery_list_def maxNestingDepth_def)
  ultimately have d: "json_decode (stub_discovery sb) = Some (JObj ?ms)"
    unfolding discovery_members by (rule json_decode_text)
  have "utf8_valid ?u" using assms by (intro utf8_valid_ascii) (auto simp: list_all_iff)
  then have u: "to_string (jstring ?u) = Some ?u" "jstring ?u \<noteq> JNull"
    by (simp_all add: to_string_def jstring_def unquote_json_escape)
  have "list_all (\<lambda>k. is_ascii k \<and> map upper_char k \<noteq> map upper_char ''jwks_uri'')
      [''id_token_signing_alg_values_supported'', ''issuer'', ''response_types_supported'', ''subject_types_supported'',
       ''token_endpoint'']" "is_ascii ''jwks_uri''"
    by (simp_all add: is_ascii_def upper_char_def char_class_defs)
  then have others: "list_all (\<lambda>k. \<not> same_field k ''jwks_uri'') [''id_token_signing_alg_values_supported'', ''issuer'',
      ''response_types_supported'', ''subject_types_supported'', ''token_endpoint'']" "same_field ''jwks_uri'' ''jwks_uri''"
    using same_field_ascii by (blast intro: list.pred_mono_strong, blast)
  have "json_field to_string ''jwks_uri'' (take 2 ?ms @ (''jwks_uri'', jstring ?u) # drop 3 ?ms) [] = Some ?u"
    by (rule json_field_one [where conv = to_string, OF _ others(2) u(2,1)])
      (use others(1) in \<open>simp add: discovery_list_def\<close>)
  moreover have "take 2 ?ms @ (''jwks_uri'', jstring ?u) # drop 3 ?ms = ?ms" by (simp add: discovery_list_def)
  ultimately have "json_field to_string ''jwks_uri'' ?ms [] = Some ?u" by (simp only:)
  moreover have "json_members (JObj ?ms) = Some ?ms" using unquoted_keys [OF names(1)] by (simp only: json_members_def json.case)
  ultimately show ?thesis unfolding decode_jwks_uri_def d by (simp only: Option.bind.simps)
qed

text \<open>A request of the proxy to a path of the stub.\<close>

definition stub_request :: "string \<Rightarrow> string \<Rightarrow> request" where
  "stub_request verb p = \<lparr>r_method = verb, r_url = empty_url\<lparr>u_path := p\<rparr>, r_request_uri = p, r_host = [], r_header = [],
     r_content_length = 0, r_body = Some [], r_client_ip = None, r_tls = False\<rparr>"

interpretation discovery_path: plain_path "[''.well-known'', ''openid-configuration'']" "''/.well-known/openid-configuration''"
  by unfold_locales (simp, code_simp, simp)

interpretation jwks_path: plain_path "[''jwks'']" "''/jwks''"
  by unfold_locales (simp, code_simp, simp)

lemma stub_routed:
  "stub_handler sb now (stub_request ''GET'' ''/.well-known/openid-configuration'') = stub_document (stub_discovery sb)"
  "stub_handler sb now (stub_request ''GET'' ''/jwks'') = stub_document (stub_jwks sb)"
  using discovery_path.routed [of "stub_request ''GET'' ''/.well-known/openid-configuration''" stub_mux StubDiscovery "[]"]
    jwks_path.routed [of "stub_request ''GET'' ''/jwks''" stub_mux StubJwks "[]"]
  by (simp_all add: stub_handler_def stub_mux_def stub_request_def empty_url_def method_matches_def
      discovery_path.match_path_segments jwks_path.match_path_segments)

text \<open>C30: the proxy finds the keys of the stub. When the issuer URL of the stub is ASCII and the proxy's
  requests below it reach the stub's mux, discovery succeeds and yields a URL under which the
  mux serves the key set.\<close>

theorem stub_keys_discovered:
  assumes "list_all (\<lambda>c. ord c < 128) (sb_issuer sb)"
    and "\<forall>p. jo_http_get j (sb_issuer sb @ p) =
      (case stub_handler sb now (stub_request ''GET'' p) of a \<Rightarrow> Some (rp_status a, rp_body a))"
  shows "discoverJWKS j (sb_issuer sb) = Inr (sb_issuer sb @ ''/jwks'') \<and>
    jo_http_get j (sb_issuer sb @ ''/jwks'') = Some (200, stub_jwks sb)"
proof -
  have "jo_http_get j (sb_issuer sb @ ''/.well-known/openid-configuration'') = Some (200, stub_discovery sb)"
    by (simp add: assms(2) stub_routed stub_document_def)
  then have "discoverJWKS j (sb_issuer sb) = Inr (sb_issuer sb @ ''/jwks'')"
    by (simp add: discoverJWKS_def stub_jwks_uri [OF assms(1)] Let_def)
  then show ?thesis by (simp add: assms(2) stub_routed stub_document_def)
qed

definition lab_jose :: "(unit, unit, unit) jose" where
  "lab_jose = \<lparr>jo_parse_insecure = (\<lambda>_. None), jo_jws = (\<lambda>_. None), jo_parse = (\<lambda>_ _ _ _ _. Inr \<lparr>tk_subject = [],
     tk_audience = [], tk_expiration = 0, tk_claims = Map.empty\<rparr>), jo_lookup_key_id = (\<lambda>_ _. None),
     jo_cache_register = (\<lambda>_ c. (True, c)), jo_cache_get = (\<lambda>_ c. (None, c)), jo_cache_refresh = (\<lambda>_ c. (None, c)),
     jo_http_get = (\<lambda>u. case stub_handler lab_stub 0 (stub_request ''GET'' (drop (length (sb_issuer lab_stub)) u)) of
       a \<Rightarrow> Some (rp_status a, rp_body a))\<rparr>"

theorem stub_keys_discovered_witness:
  "discoverJWKS lab_jose (sb_issuer lab_stub) = Inr (sb_issuer lab_stub @ ''/jwks'')"
proof -
  have "list_all (\<lambda>c. ord c < 128) (sb_issuer lab_stub)" by code_simp
  moreover have "\<forall>p. jo_http_get lab_jose (sb_issuer lab_stub @ p) =
      (case stub_handler lab_stub 0 (stub_request ''GET'' p) of a \<Rightarrow> Some (rp_status a, rp_body a))"
    by (simp add: lab_jose_def)
  ultimately show ?thesis using stub_keys_discovered by blast
qed

end
