(* ===== verification/Loadtest.thy ===== *)
theory Loadtest
  imports Sigv4_Facts Go_Flag
begin

text \<open>
  \<open>examples/compose/loadtest/main.go\<close>: the load generator that signs requests with the proxy's
  own \<open>sigv4\<close> package and judges the run by the histogram of verification times. The HTTP client
  is the parameter \<open>send\<close>; the latencies that the client measures and prints are left
  out, the report on the histogram is \<open>load_report\<close>. A Go map is an association list with distinct keys, in the order in which the loop happens to visit it.
\<close>

section \<open>One request\<close>

text \<open>\<open>http.NewRequest\<close>: a port that is empty is dropped with its colon.\<close>

definition removeEmptyPort :: "string \<Rightarrow> string" where
  "removeEmptyPort h = (if has_suffix '':'' h then butlast h else h)"

definition new_request :: "string \<Rightarrow> string \<Rightarrow> string \<Rightarrow> request option" where
  "new_request verb u body = map_option (\<lambda>x. \<lparr>r_method = verb, r_url = x\<lparr>u_host := removeEmptyPort (u_host x)\<rparr>, r_request_uri = [],
     r_host = removeEmptyPort (u_host x), r_header = [], r_content_length = int (length body), r_body = Some body,
     r_client_ip = None, r_tls = False\<rparr>) (url_parse u)"

text \<open>An answer: the status, or an error of the round trip or of reading the body. The result is
  whether the request succeeded.\<close>

record load_target =
  lt_endpoint :: string
  lt_bucket :: string
  lt_akid :: string
  lt_secret :: string
  lt_token :: string
  lt_region :: string

definition load_do ::
  "(request \<Rightarrow> int option) \<Rightarrow> time \<Rightarrow> load_target \<Rightarrow> string \<Rightarrow> string \<Rightarrow> string \<Rightarrow> bool" where
  "load_do send now t verb key body =
     (case new_request verb (lt_endpoint t @ ''/'' @ lt_bucket t @ ''/'' @ key) body of
        None \<Rightarrow> False
      | Some req \<Rightarrow>
          let req1 = req_set (req_set req ''X-Amz-Security-Token'' (lt_token t)) ''X-Amz-Content-Sha256'' ''UNSIGNED-PAYLOAD'' in
          (case sign \<lparr>si_access_key_id = lt_akid t, si_secret = lt_secret t, si_region = lt_region t, si_service = ''s3'',
              si_host = [], si_now = now\<rparr> req1 of
             (_, Some _) \<Rightarrow> False
           | (req2, None) \<Rightarrow> (case send req2 of None \<Rightarrow> False | Some status \<Rightarrow> status div 100 = 2)))"

section \<open>Scraping the histogram\<close>

record verify_sample =
  vs_buckets :: "(string \<times> float64) list"
  vs_sum :: float64
  vs_count :: float64

definition zero_float :: float64 where "zero_float = Fin False 0 0"

definition no_sample :: verify_sample where
  "no_sample = \<lparr>vs_buckets = [], vs_sum = zero_float, vs_count = zero_float\<rparr>"

datatype scrape = Scraped verify_sample | ScrapeFailed | ScrapePanic

text \<open>The lines of a \<open>bufio.Scanner\<close>: a carriage return before the line feed is dropped, a line of
  65536 bytes ends the scan with an error.\<close>

definition maxLine :: int where "maxLine = 65535"

definition drop_cr :: "string \<Rightarrow> string" where
  "drop_cr s = (if s \<noteq> [] \<and> last s = CHR 0x0D then butlast s else s)"

definition scan_lines :: "string \<Rightarrow> string list" where
  "scan_lines s = (let ls = split_on (CHR 0x0A) s in if last ls = [] then butlast ls else ls)"

definition verification_series :: string where "verification_series = ''verification_duration_seconds''"

definition lane_label :: string where "lane_label = ''lane='' @ [CHR 34] @ ''sigv4'' @ [CHR 34]"

text \<open>The value of the label \<open>le\<close>. A label that is missing gives the index -1, so that the text
  is taken from the third byte on; a text without a closing quote panics.\<close>

definition le_label :: "string \<Rightarrow> string option" where
  "le_label line =
     (let start = (case find_sub (''le='' @ [CHR 34]) line of Some i \<Rightarrow> i + 4 | None \<Rightarrow> 3); t = drop start line
      in map_option (\<lambda>j. take j t) (find_sub [CHR 34] t))"

fun scan_sample :: "string list \<Rightarrow> verify_sample \<Rightarrow> scrape" where
  "scan_sample [] out = Scraped out"
| "scan_sample (raw # ls) out =
     (let line = drop_cr raw in
      if maxLine < int (length raw) then ScrapeFailed
      else if \<not> has_prefix verification_series line \<or> find_sub lane_label line = None then scan_sample ls out
      else case parse_float (last (str_fields line)) of
        None \<Rightarrow> ScrapeFailed
      | Some v \<Rightarrow>
          if has_prefix (verification_series @ ''_bucket'') line then
            (case le_label line of
               None \<Rightarrow> ScrapePanic
             | Some le \<Rightarrow> scan_sample ls (out\<lparr>vs_buckets := AList.update le v (vs_buckets out)\<rparr>))
          else if has_prefix (verification_series @ ''_sum'') line then scan_sample ls (out\<lparr>vs_sum := v\<rparr>)
          else if has_prefix (verification_series @ ''_count'') line then scan_sample ls (out\<lparr>vs_count := v\<rparr>)
          else scan_sample ls out)"

text \<open>\<open>buckets\<close>: the body of the answer, or \<open>None\<close>.\<close>

definition buckets :: "(string \<Rightarrow> string option) \<Rightarrow> string \<Rightarrow> scrape" where
  "buckets get admin = (case get (admin @ ''/metrics'') of
     None \<Rightarrow> ScrapeFailed
   | Some body \<Rightarrow> scan_sample (scan_lines body) no_sample)"

section \<open>Quantiles\<close>

definition bucket_of :: "verify_sample \<Rightarrow> string \<Rightarrow> float64" where
  "bucket_of s le = (case map_of (vs_buckets s) le of Some v \<Rightarrow> v | None \<Rightarrow> zero_float)"

definition plus_inf :: string where "plus_inf = ''+Inf''"

text \<open>The finite edges with the number of samples at or below them.\<close>

definition edges_of :: "verify_sample \<Rightarrow> verify_sample \<Rightarrow> (float64 \<times> float64) list" where
  "edges_of before after =
     List.map_filter (\<lambda>(le, v). if le = plus_inf then None
       else map_option (\<lambda>f. (f, fsub v (bucket_of before le))) (parse_float le)) (vs_buckets after)"

definition total_of :: "verify_sample \<Rightarrow> verify_sample \<Rightarrow> int" where
  "total_of before after = (case map_of (vs_buckets after) plus_inf of
     None \<Rightarrow> 0
   | Some v \<Rightarrow> float_trunc (fsub v (bucket_of before plus_inf)))"

text \<open>\<open>sort.Slice\<close>, which sorts up to twelve elements by insertion.\<close>

fun insert_edge :: "float64 \<times> float64 \<Rightarrow> (float64 \<times> float64) list \<Rightarrow> (float64 \<times> float64) list" where
  "insert_edge x [] = [x]"
| "insert_edge x (y # ys) = (if fless (fst x) (fst y) then x # y # ys else y # insert_edge x ys)"

definition sort_edges :: "(float64 \<times> float64) list \<Rightarrow> (float64 \<times> float64) list" where
  "sort_edges es = foldl (\<lambda>s x. insert_edge x s) [] es"

definition quantileBound :: "verify_sample \<Rightarrow> verify_sample \<Rightarrow> float64 \<Rightarrow> float64 \<times> int \<times> bool" where
  "quantileBound before after q =
     (let cnt = total_of before after in
      if cnt = 0 then (zero_float, 0, False)
      else
        let need = fmul q (float_of_int cnt) in
        case find (\<lambda>(le, cum). fle need cum) (sort_edges (edges_of before after)) of
          Some (le, _) \<Rightarrow> (le, cnt, True)
        | None \<Rightarrow> (Infinite False, cnt, True))"

definition meanMs :: "verify_sample \<Rightarrow> verify_sample \<Rightarrow> float64" where
  "meanMs before after =
     (let n = fsub (vs_count after) (vs_count before) in
      if fle n zero_float then zero_float
      else fmul (fdiv (fsub (vs_sum after) (vs_sum before)) n) (float_of_int 1000))"

text \<open>The verb \<open>%7.3f\<close>: the number rounded to three decimals, ties to even, right-aligned.\<close>

definition fixed3 :: "float64 \<Rightarrow> string" where
  "fixed3 x =
     (let s = (case x of
          NaN \<Rightarrow> ''NaN''
        | Infinite neg \<Rightarrow> if neg then ''-Inf'' else ''+Inf''
        | Fin neg m e \<Rightarrow>
            let n = (if 0 \<le> e then m * 1000 * 2 ^ nat e else round_even (m * 1000) (2 ^ nat (- e)))
            in (if neg then ''-'' else []) @ itoa (n div 1000) @ ''.'' @ pad_num 3 (n mod 1000))
      in replicate (7 - length s) (CHR '' '') @ s)"

definition fmtBound :: "float64 \<Rightarrow> string" where
  "fmtBound b = (if b = Infinite False then ''  over 10ms'' else ''<= '' @ fixed3 (fmul b (float_of_int 1000)) @ ''ms'')"

section \<open>The run\<close>

text \<open>How the command ends: with a status, with a panic, or with its main goroutine blocked for good on
  a channel that nobody receives from (the Go runtime may notice and abort).\<close>

datatype load_outcome = LoadExit nat | LoadPanic | LoadDeadlock

definition load_flags :: "flag list" where
  "load_flags =
     [string_flag ''endpoint'' ''http://proxy:9000'', string_flag ''admin'' ''http://proxy:9090'', string_flag ''bucket'' [],
      string_flag ''akid'' [], string_flag ''secret'' [], string_flag ''token'' [], string_flag ''region'' ''us-east-1'',
      int_flag ''n'' 5000, int_flag ''c'' 20, float_flag ''p99-limit-ms'' (float_of_int 1)]"

definition fixture_key :: string where "fixture_key = ''loadtest-fixture.txt''"

text \<open>The verdict on the two scrapes, the number of failed requests and the limit.\<close>

definition load_verdict :: "verify_sample \<Rightarrow> verify_sample \<Rightarrow> nat \<Rightarrow> float64 \<Rightarrow> float64 \<Rightarrow> nat" where
  "load_verdict before after errs p99 limit =
     (case quantileBound before after p99 of (bound, cnt, ok) \<Rightarrow>
        if \<not> ok \<or> 0 < errs \<or> fless limit (fmul bound (float_of_int 1000)) then 1 else 0)"

text \<open>What the command prints about the distribution, and when it adds that only the tail is slow.\<close>

definition load_report :: "verify_sample \<Rightarrow> verify_sample \<Rightarrow> string list" where
  "load_report before after =
     (let bound = (\<lambda>p. fst (quantileBound before after (of_frac False p 100))) in
      [''proxy sigv4 verification ('' @ itoa (total_of before after) @ '' samples, histogram bucket bounds)'',
       ''  p50  '' @ fmtBound (bound 50), ''  mean    '' @ fixed3 (meanMs before after) @ ''ms  (exact)'',
       ''  p95  '' @ fmtBound (bound 95), ''  p99  '' @ fmtBound (bound 99)])"

definition only_tail_slow :: "verify_sample \<Rightarrow> verify_sample \<Rightarrow> float64 \<Rightarrow> bool" where
  "only_tail_slow before after limit \<longleftrightarrow>
     fle (fmul (fst (quantileBound before after (of_frac False 50 100))) (float_of_int 1000)) limit \<and>
     fle (meanMs before after) limit"

text \<open>The environment of a run: the answer to the \<open>i\<close>-th request (the fixture comes first) and the
  time when it is sent, and the metrics page before and after. The workers share the
  requests; which worker sends which request makes no difference to the number of failures.\<close>

record load_env =
  le_send :: "nat \<Rightarrow> request \<Rightarrow> int option"
  le_now :: "nat \<Rightarrow> time"
  le_get :: "bool \<Rightarrow> string \<Rightarrow> string option"

definition load_run :: "load_env \<Rightarrow> load_target \<Rightarrow> string \<Rightarrow> int \<Rightarrow> int \<Rightarrow> float64 \<Rightarrow> load_outcome" where
  "load_run env t admin n c limit =
     (let send = (\<lambda>i verb body. load_do (le_send env i) (le_now env i) t verb fixture_key body) in
      if \<not> send 0 ''PUT'' ''loadtest'' then LoadExit 1
      else case buckets (le_get env False) admin of
        ScrapeFailed \<Rightarrow> LoadExit 1
      | ScrapePanic \<Rightarrow> LoadPanic
      | Scraped before \<Rightarrow>
          if n < 0 then LoadPanic
          else if c \<le> 0 \<and> 0 < n then LoadDeadlock
          else
            let errs = length (filter (\<lambda>i. \<not> send (Suc i) ''GET'' []) [0..<nat n]) in
            case buckets (le_get env True) admin of
              ScrapeFailed \<Rightarrow> LoadExit 1
            | ScrapePanic \<Rightarrow> LoadPanic
            | Scraped after \<Rightarrow>
                if n = 0 then LoadPanic
                else LoadExit (load_verdict before after errs (of_frac False 99 100) limit))"

definition loadtest_main :: "load_env \<Rightarrow> string list \<Rightarrow> load_outcome" where
  "loadtest_main env args =
     (case flag_parse load_flags args of
        FlagsExit k \<Rightarrow> LoadExit k
      | FlagsParsed vals _ \<Rightarrow>
          let s = flag_string vals in
          if s ''bucket'' = [] \<or> s ''akid'' = [] \<or> s ''secret'' = [] \<or> s ''token'' = [] then LoadExit 2
          else load_run env \<lparr>lt_endpoint = s ''endpoint'', lt_bucket = s ''bucket'', lt_akid = s ''akid'', lt_secret = s ''secret'',
              lt_token = s ''token'', lt_region = s ''region''\<rparr> (s ''admin'') (flag_int vals ''n'') (flag_int vals ''c'')
              (flag_float vals ''p99-limit-ms''))"

section \<open>Facts\<close>

lemma set_insert_edge: "set (insert_edge x ys) = insert x (set ys)"
  by (induction ys) auto

lemma set_sort_edges: "set (sort_edges es) = set es"
proof -
  have "set (foldl (\<lambda>s x. insert_edge x s) acc es) = set acc \<union> set es" for acc
    by (induction es arbitrary: acc) (auto simp: set_insert_edge)
  then show ?thesis by (simp add: sort_edges_def)
qed

abbreviation edge_order :: "float64 \<times> float64 \<Rightarrow> float64 \<times> float64 \<Rightarrow> bool" where
  "edge_order x y \<equiv> fval (fst x) \<le> fval (fst y)"

lemma insert_edge_sorted:
  "sorted_wrt edge_order ys \<Longrightarrow> \<forall>y \<in> set (x # ys). fst y \<noteq> NaN \<Longrightarrow> sorted_wrt edge_order (insert_edge x ys)"
proof (induction ys)
  case (Cons y ys)
  then show ?case by (auto simp: fless_iff set_insert_edge)
qed simp

lemma sort_edges_sorted:
  assumes "\<forall>e \<in> set es. fst e \<noteq> NaN"
  shows "sorted_wrt edge_order (sort_edges es)"
proof -
  have "sorted_wrt edge_order (foldl (\<lambda>s x. insert_edge x s) acc es)"
    if "sorted_wrt edge_order acc" "\<forall>e \<in> set acc \<union> set es. fst e \<noteq> NaN" for acc
    using that
  proof (induction es arbitrary: acc)
    case (Cons e es)
    then show ?case using insert_edge_sorted [of acc e] by (simp add: set_insert_edge)
  qed simp
  then show ?thesis using assms by (simp add: sort_edges_def)
qed

text \<open>The first element that satisfies a predicate in a sorted list is a least one.\<close>

lemma find_sorted_least:
  assumes "sorted_wrt R xs" "\<And>x. R x x" "find P xs = Some x"
  shows "x \<in> set xs \<and> P x \<and> (\<forall>y \<in> set xs. P y \<longrightarrow> R x y)"
  using assms(1,3)
proof (induction xs)
  case (Cons z zs)
  then show ?case using assms(2) by (auto split: if_splits)
qed simp

section \<open>Properties\<close>

definition covers :: "float64 \<Rightarrow> int \<Rightarrow> float64 \<times> float64 \<Rightarrow> bool" where
  "covers q cnt e \<longleftrightarrow> fle (fmul q (float_of_int cnt)) (snd e)"


text \<open>A run of 200 samples, as the metrics page shows it.\<close>

definition metrics_line :: "string \<Rightarrow> string \<Rightarrow> string" where
  "metrics_line le v = verification_series @ ''_bucket{lane='' @ [CHR 34] @ ''sigv4'' @ [CHR 34] @ '',le='' @ [CHR 34] @ le @
     [CHR 34] @ ''} '' @ v @ [CHR 0x0A]"

definition demo_metrics :: string where
  "demo_metrics = ''# TYPE verification_duration_seconds histogram'' @ [CHR 0x0A] @ metrics_line ''0.001'' ''199'' @
     metrics_line ''0.0005'' ''150'' @ metrics_line ''0.01'' ''200'' @ metrics_line ''+Inf'' ''200''"

definition demo_after :: verify_sample where
  "demo_after = no_sample\<lparr>vs_buckets := [(''0.001'', float_of_int 199), (''0.0005'', float_of_int 150),
     (''0.01'', float_of_int 200), (''+Inf'', float_of_int 200)]\<rparr>"

lemma demo_scrape: "buckets (\<lambda>_. Some demo_metrics) ''http://proxy:9090'' = Scraped demo_after"
  by code_simp



text \<open>A p99 bound of exactly one millisecond passes the default limit.\<close>

lemma verdict_passes_at_limit:
  "fst (quantileBound no_sample demo_after (of_frac False 99 100)) = of_frac False 1 1000 \<and>
   load_verdict no_sample demo_after 0 (of_frac False 99 100) (float_of_int 1) = 0"
  by code_simp

definition demo_load :: load_env where
  "demo_load = \<lparr>le_send = (\<lambda>_ _. Some 200), le_now = (\<lambda>_. 1700000000000000000),
     le_get = (\<lambda>later _. Some (if later then demo_metrics else []))\<rparr>"

definition demo_target :: load_target where
  "demo_target = \<lparr>lt_endpoint = ''http://proxy:9000'', lt_bucket = ''b'', lt_akid = ''OZPX1'', lt_secret = ''s'',
     lt_token = ''t'', lt_region = ''us-east-1''\<rparr>"

lemma load_do_answered:
  assumes "url_parse (lt_endpoint t @ ''/'' @ lt_bucket t @ ''/'' @ key) = Some u" "u_raw_query u = []"
    and "\<And>r. send r = Some 200"
  shows "load_do send now t verb key body"
proof -
  have q: "canonicalQuery [] [] = Inr []" by code_simp
  let ?si = "\<lparr>si_access_key_id = lt_akid t, si_secret = lt_secret t, si_region = lt_region t, si_service = ''s3'',
      si_host = [], si_now = now\<rparr>"
  have "snd (sign ?si r) = None" if "u_raw_query (r_url r) = []" for r using that q by (simp add: sign_succeeds_iff)
  then have sign: "\<exists>r'. sign ?si r = (r', None)" if "u_raw_query (r_url r) = []" for r using that by (metis prod.collapse)
  obtain req where req: "new_request verb (lt_endpoint t @ ''/'' @ lt_bucket t @ ''/'' @ key) body = Some req"
    "u_raw_query (r_url req) = []" using assms(1,2) by (simp add: new_request_def)
  let ?r = "req_set (req_set req ''X-Amz-Security-Token'' (lt_token t)) ''X-Amz-Content-Sha256'' ''UNSIGNED-PAYLOAD''"
  obtain r' where "sign ?si ?r = (r', None)" using sign [of ?r] req(2) by (auto simp: req_set_def)
  then show ?thesis using req(1) assms(3) by (simp add: load_do_def)
qed


end
