(* ===== verification/Spec2Isabelle.thy ===== *)
theory Spec2Isabelle
  imports Lanes Admin Proxy_Main Config_Duration Portal_Exchange Login_Main Gennotice Stub_Issuer Loadtest
begin

text \<open>
  A verification library for \<open>ozone-oidc-proxy\<close>, a Go program that stands in front of an Apache
  Ozone S3 gateway. It exchanges OIDC tokens for temporary S3 credentials (\<open>internal/sts\<close>),
  authenticates S3 requests by Bearer token, SigV4 header or presigned URL
  (\<open>internal/server\<close>, \<open>internal/sigv4\<close>, \<open>internal/oidc\<close>) and forwards them with the username as
  access key ID (\<open>internal/forward\<close>). Credentials live in a store, in the process or shared in
  Valkey (\<open>internal/store\<close>). People reach it through a command (\<open>cmd/ozone-login\<close> over
  \<open>internal/devicelogin\<close>) and a web page (\<open>cmd/credential-portal\<close>). The repository also holds an
  identity provider and a load generator for its lab (\<open>examples/compose\<close>) and a tool for the
  NOTICE file (\<open>hack/gennotice\<close>).

  \<^bold>\<open>The Go library.\<close> \<open>Go_Strings\<close>, \<open>Go_Encoding\<close>, \<open>Go_Time\<close>, \<open>Go_Utf8\<close>, \<open>Go_Path\<close>, \<open>Go_Url\<close>,
  \<open>Go_Http\<close>, \<open>Go_Mux\<close>, \<open>Go_Flag\<close>, \<open>Go_Float\<close>, \<open>Go_Duration\<close>, \<open>Go_Xml\<close>, \<open>Go_Xml_Decode\<close>, \<open>Go_Json\<close>,
  \<open>Go_Json_Text\<close>, \<open>Sha256\<close> and \<open>Aes_Gcm\<close> model what the program uses of Go's standard library, as executable functions on
  byte strings: splitting and trimming (with the Unicode spaces), decimal and hexadecimal
  numbers, base64, percent escapes, the proleptic Gregorian calendar with the two time
  formats, URL parsing, header maps, form and media type parsing, the routing of \<open>http.ServeMux\<close>,
  command line flags, binary64 arithmetic with correct rounding, the text of durations, XML
  rendering and \<open>xml.Unmarshal\<close>, JSON writing and parsing, SHA-256, HMAC and AES-256-GCM.
  \<open>Go_Xml_Facts\<close> shows that the decoder reads back what the renderer writes. Integers that the source multiplies without a bound wrap around at 64 bits
  (\<open>wrap64\<close>). \<open>strings.ToLower\<close> is modelled on ASCII: signed header names with other bytes
  are outside the model.

  \<^bold>\<open>The components.\<close> Each component is a theory with its records, operations and lemmas;
  larger ones have their lemmas in a second theory.
  \<^item> \<open>Sigv4\<close> (\<open>sigv4.go\<close>, \<open>presign.go\<close>, \<open>sign.go\<close>): \<open>parseAuthorization\<close>, \<open>canonicalQuery\<close>,
    \<open>buildCanonical\<close>, \<open>verify\<close>, \<open>parsePresigned\<close>, \<open>verifyPresigned\<close>, \<open>sign\<close>. \<open>Sigv4_Facts\<close> shows
    that parsing inverts rendering, that the canonical query is a canonical form and that what is
    signed verifies; \<open>Sigv4_Props\<close> states the properties.
  \<^item> \<open>Store\<close> (\<open>store.go\<close>, \<open>memory.go\<close>): credentials, \<open>mint\<close>, the memory store. The Go interface is
    the record \<open>store_impl\<close>, its contract the locale \<open>credential_store\<close>.
  \<^item> \<open>Config\<close> and \<open>Config_Duration\<close> (\<open>config.go\<close>): \<open>applyEnv\<close>, \<open>applyDefaults\<close>, \<open>validate\<close>,
    \<open>parse_config\<close>, and the decoding of durations \<open>UnmarshalYAML\<close>.
  \<^item> \<open>Oidc\<close> (\<open>oidc.go\<close>): \<open>Validate\<close> with key lookup, discovery and the refresh cooldown; the JOSE
    library is the record \<open>jose\<close> of parameters. The contract of a validator is the locale
    \<open>token_validator\<close>.
  \<^item> \<open>Sts\<close> (\<open>sts.go\<close>, \<open>xml.go\<close>): the exchange handler \<open>sts_serve\<close>.
  \<^item> \<open>S3err\<close> (\<open>s3err.go\<close>), \<open>Forward\<close> (\<open>forward.go\<close> and what \<open>httputil.ReverseProxy\<close> does with the
    outbound request).
  \<^item> \<open>Server\<close> (\<open>server.go\<close>, \<open>metrics.go\<close>): \<open>serve\<close> and its lanes, \<open>handleRevoke\<close>, the probes and
    the counters. \<open>Admin\<close> has the mux of the admin surface and shows that its requests are steps of
    the system below.
  \<^item> \<open>System\<close> (\<open>cmd/proxy/main.go\<close>): the step relation \<open>sys_step\<close> over requests, revocations,
    probes, scrapes and sweeps, its runs, and the locale \<open>proxy_system\<close>, which joins the two
    contracts and proves the provenance of stored credentials for every implementation.
    It is interpreted on the memory store and the OIDC validator.
  \<^item> \<open>Valkey\<close> (\<open>valkey.go\<close>): the shared store, which seals each record with AES-256-GCM under its
    access key ID; the client library is a parameter with the laws \<open>valkey_lawful\<close>.
    \<open>Shared_Store\<close> has the choice of the store in \<open>cmd/proxy/main.go\<close> and shows that a proxy on the
    shared store meets the locale \<open>proxy_system\<close> too.
  \<^item> \<open>Proxy_Main\<close> (\<open>cmd/proxy/main.go\<close>): the life of the process, from the flags to its exit status.
  \<^item> \<open>Lanes\<close> and \<open>Revocation\<close>: what the lanes do to presigned URLs and to the metrics, and what a
    revocation means for later requests.
  \<^item> \<open>Devicelogin\<close> (\<open>devicelogin.go\<close>), \<open>Ozone_Login\<close> and \<open>Login_Main\<close> (\<open>cmd/ozone-login/main.go\<close>): the
    flags, the device flow, the token file, the refresh loop and the messages, over a world of parameters (HTTP, clock, sleeping, faults
    of system calls).
  \<^item> \<open>Portal\<close> (\<open>cmd/credential-portal/main.go\<close>): the mux, the handler with the
    decoding of the answers it gets, and the page with its escaping. \<open>Portal_Exchange\<close> runs a visit
    against the proxy.
  \<^item> \<open>Gennotice\<close> (\<open>hack/gennotice/main.go\<close>): the tool that writes and checks the NOTICE file.
  \<^item> \<open>Stub_Issuer\<close> (\<open>examples/compose/stub-issuer/main.go\<close>): the identity provider of the lab.
  \<^item> \<open>Loadtest\<close> (\<open>examples/compose/loadtest/main.go\<close>): the signed requests, the scraped histogram, its
    quantiles and the verdict.
  \<^item> \<open>Samples\<close>: a concrete deployment that the witnesses evaluate.

  \<^bold>\<open>Time, chance and failure.\<close> A request reads the clock at named places (\<open>reading\<close>); the
  readings are arguments and nothing relates them unless a statement says so. Random bytes
  come from \<open>rand_source\<close>, whose reads may fail. Store operations may report errors. Handlers
  are atomic steps: each store operation holds the mutex, and the handlers share no other
  state that a decision depends on than the store and the key cache.

  \<^bold>\<open>What is shown.\<close>
  \<^item> Attribution: on either store a request forwarded in strict mode belongs to a user whose token
    was accepted, now or in an earlier exchange; the exception is a client that strips the
    identity itself with a Connection header, and this is stated too.
  \<^item> Requests that should get through do: signed and presigned requests with live credentials.
  \<^item> Requests that should not, do not: expired presigned URLs, revoked credentials, forged
    signatures, records of the shared store that were not sealed for their access key ID.
  \<^item> Signing and verification: round trips, canonical forms, unambiguous canonical requests.
  \<^item> The stores refine an abstract map; minted credentials have their shape; exchanges are bounded
    by the token, the configuration and the request.
  \<^item> The parts together: the admin surface changes the stored records by revocations only, and a
    revocation reaches its record; a visit of the portal shows the credentials that the proxy
    stored; the proxy finds the keys of the stub issuer; a sign-in leaves the issued token.
  \<^item> The process listens only on a configuration that passed validation, and its exit status says
    whether it did, but not whether a listener failed.
  \<^item> Configuration, key refresh, metrics, polling, the refresh loop, the token file, the portal's
    pages, the load test and the NOTICE file: an invariant, a bound, a round trip or a reference
    definition each.

  \<^bold>\<open>Loops.\<close> The only function with fuel is the loop over media type parameters
  (\<open>params_ok\<close>): each round consumes at least a semicolon, so the length of the string is
  enough. Polling for a token and scanning the shared store may go on forever; they are
  partial functions in the option type, and that they return is proved from the lifetime of
  the device code and from the end of the scan. The refresh loop is a step that is iterated.

  \<^bold>\<open>Not modelled.\<close> Log lines; the sockets and the connection handling of \<open>http.Server\<close> before a
  handler is called; measured durations (their observations are counted) and the client-side
  latencies of the load test; the streaming of bodies; forms sent to the stub as multipart
  data. Code outside the repository is a parameter: YAML, regular expressions, the JOSE and
  Prometheus libraries, the Valkey client, HTTP transports, RSA, the file system.
\<close>

section \<open>Attribution\<close>

text \<open>C1: strict mode attributes every forwarded request. In every state that the proxy with the
  memory store can reach, a request that is forwarded to the gateway in strict mode has been
  authenticated as a user whom the username policy accepts: by a Bearer token that the
  validator accepts now, or by live credentials that an earlier exchange minted for a token
  the validator accepted then. The outbound request names no other user than this one, and
  it does not carry the session token.\<close>

theorem strict_attribution:
  assumes "start_memory cfg j up quote errtext cache g = Some (sv, st0)"
    and "sys_run sv memory_tick st0 evs st" "serve sv clk r st = (reply, st')"
    and "forwarded reply = Some out" "StrictEnabled (cf_data_path cfg)"
    and "\<forall>u. policy_validate (cf_username_policy cfg) u \<longrightarrow> CHR ''/'' \<notin> set u"
  shows "\<exists>u rq auth. authenticates sv clk st r u rq auth \<and> policy_validate (cf_username_policy cfg) u \<and>
    outbound_user out \<in> {None, Some u} \<and> header_values (r_header out) ''X-Amz-Security-Token'' = [] \<and>
    ((\<exists>ident v. Validate j clk (trim_prefix ''Bearer '' (req_get r ''Authorization'')) (ss_validator st)
         = (Inr ident, v) \<and> u = id_username ident) \<or>
     (\<exists>c. exchanged sv evs c \<and> u = cr_username c \<and> clk At_expiry_check < cr_expires_at c \<and>
        memory_abs (ss_store st) (cr_access_key_id c) = Some c))"
proof -
  obtain target where sv: "sv = memory_server cfg target j up quote errtext" and st0: "st0 = memory_state cfg cache g"
    using assms(1) by (auto simp: start_memory_Some)
  have good: "proxy_system.good sv memory_abs memory_inv (validator_inv cfg)
      (policy_validate (cf_username_policy cfg)) evs st"
    using ms.good_run [OF assms(2) [unfolded sv st0] memory_state_good] unfolding sv .
  have strict: "StrictEnabled (cf_data_path (sv_cfg sv))" using assms(5) by (simp add: sv)
  show ?thesis
    using ms.strict_forwarded [OF good [unfolded sv] assms(3,4) [unfolded sv] strict [unfolded sv] assms(6)]
    unfolding sv by simp
qed

lemma sample_policy: "policy_validate (cf_username_policy sample_cfg) u \<Longrightarrow> CHR ''/'' \<notin> set u"
  using default_username_scope [of u] by (auto simp: policy_validate_def sample_cfg_def list_all_iff)

theorem strict_attribution_witness:
  "\<exists>out u. forwarded (fst (serve sample_server sample_clock bearer_request sample_state)) = Some out \<and>
     outbound_user out \<in> {None, Some u} \<and> default_username u \<and>
     header_values (r_header out) ''X-Amz-Security-Token'' = []"
proof -
  obtain reply st' where s: "serve sample_server sample_clock bearer_request sample_state = (reply, st')"
    by (cases "serve sample_server sample_clock bearer_request sample_state")
  obtain out where o: "forwarded reply = Some out" using sample_bearer_forwarded s by auto
  have "StrictEnabled (cf_data_path sample_cfg)" by (simp add: StrictEnabled_def sample_cfg_def)
  from strict_attribution [OF sample_start sys_run.start s o this] sample_policy s o show ?thesis
    by (fastforce simp: policy_validate_def sample_cfg_def)
qed


lemma default_username_utf8: "default_username u \<Longrightarrow> utf8_valid u"
  by (rule utf8_valid_ascii) (auto simp: default_username_def list_all_iff char_class_defs)

lemma sample_utf8: "utf8_config sample_cfg"
proof -
  have names: "list_all (\<lambda>i. list_all (\<lambda>c. ord c < 128) (is_name i)) (cf_issuers sample_cfg)" by code_simp
  have "utf8_valid (is_name iss)" if "iss \<in> set (cf_issuers sample_cfg)" for iss
    using names that by (intro utf8_valid_ascii) (simp add: list_all_iff)
  moreover have "policy_validate (cf_username_policy sample_cfg) u \<Longrightarrow> utf8_valid u" for u
    using default_username_utf8 [of u] by (simp add: policy_validate_def sample_cfg_def)
  ultimately show ?thesis by (simp add: utf8_config_def)
qed


text \<open>C31: a stolen hop. A client that lists \<open>Authorization\<close> in its Connection header makes the
  reverse proxy remove the header that carries the identity it has just injected: in strict
  mode, for every authenticated request of this kind, the gateway receives no identity.\<close>

theorem connection_header_strips_identity:
  assumes "serve sv clk r st = (reply, st')" "forwarded reply = Some out"
    and "StrictEnabled (cf_data_path (sv_cfg sv))"
    and "''Authorization'' \<in> canonical_key ` set (connection_options (r_header r))"
  shows "header_values (r_header out) ''Authorization'' = []"
proof -
  obtain u rq auth where a: "authenticates sv clk st r u rq auth"
    and o: "proxy_outbound (sv_target sv) (applyIdentity sv clk rq u auth) = Some out"
    using serve_forwarded [OF assms(1-3)] by blast
  have "connection_options (r_header (applyIdentity sv clk rq u auth)) = connection_options (r_header r)"
    by (rule trans [OF applyIdentity_connection authenticates_connection [OF a]])
  then show ?thesis
    using proxy_outbound_values [OF o, of "''Authorization''"] authorization_not_managed assms(4) by simp
qed

definition hop_request :: request where
  "hop_request = bearer_request\<lparr>r_header :=
     [(''Authorization'', [''Bearer jwt-alice'']), (''Connection'', [''close, authorization''])]\<rparr>"

theorem connection_header_strips_identity_witness:
  "\<exists>out. forwarded (fst (serve sample_server sample_clock hop_request sample_state)) = Some out \<and>
     header_values (r_header out) ''Authorization'' = []"
proof -
  obtain reply st' where s: "serve sample_server sample_clock hop_request sample_state = (reply, st')"
    by (cases "serve sample_server sample_clock hop_request sample_state")
  have "\<not> isSTSRequest hop_request" "req_get hop_request ''Authorization'' = ''Bearer jwt-alice''"
    "printable (upgrade_type (r_header hop_request))" by code_simp+
  from sample_bearer_accepts [OF sample_server_simps refl this] obtain out where o: "forwarded reply = Some out" using s by auto
  have "StrictEnabled (cf_data_path (sv_cfg sample_server))"
    by (simp add: StrictEnabled_def sample_cfg_def sample_server_def)
  moreover have "''Authorization'' \<in> canonical_key ` set (connection_options (r_header hop_request))" by code_simp
  ultimately show ?thesis using connection_header_strips_identity [OF s o] s o by auto
qed

section \<open>From an exchange to the gateway\<close>

text \<open>C2: signed requests get through. When the store holds live credentials, a request that the
  client signs with them (any header request whose query decodes, with the session token in
  its header, no Connection header and a clock within the skew) is forwarded, and the gateway
  reads the username of the credentials off its Authorization header.\<close>

theorem signed_request_forwarded:
  assumes "memory_inv (ss_store st)" "memory_abs (ss_store st) akid = Some c"
    and "clk At_expiry_check < cr_expires_at c" "CHR ''/'' \<notin> set (cr_username c)"
    and "scope_text akid" "akid \<noteq> []" "scope_text (se_region (cf_security cfg))" "four_digit_year now"
    and "canonicalQuery (u_raw_query (r_url r)) [] = Inr q" "wf_header (r_header r)" "\<not> isSTSRequest r"
      "header_values (r_header r) ''Connection'' = []"
      "req_get r ''X-Amz-Security-Token'' = cr_session_token c"
    and "- se_clock_skew (cf_security cfg) \<le> time_sub (clk At_verification) (now - now mod second)"
      "time_sub (clk At_verification) (now - now mod second) \<le> se_clock_skew (cf_security cfg)"
  shows "\<exists>out. forwarded (fst (serve (memory_server cfg target j up quote errtext) clk
      (fst (sign \<lparr>si_access_key_id = akid, si_secret = cr_secret_access_key c,
        si_region = se_region (cf_security cfg), si_service = ''s3'', si_host = [], si_now = now\<rparr> r)) st)) = Some out \<and>
    outbound_user out = Some (cr_username c)"
proof -
  let ?sv = "memory_server cfg target j up quote errtext"
  let ?si = "\<lparr>si_access_key_id = akid, si_secret = cr_secret_access_key c,
        si_region = se_region (cf_security cfg), si_service = ''s3'', si_host = [], si_now = now\<rparr>"
  have svc: "scope_text ''s3''" by (simp add: scope_text_def graphic_def)
  have "snd (sign ?si r) = None" using assms(9) by (simp add: sign_succeeds_iff)
  then obtain r' where s: "sign ?si r = (r', None)" by (metis prod.collapse)
  obtain auth where auth: "parseAuthorization (req_get r' ''Authorization'') = Inr auth"
    using sign_header_parses [OF s assms(10)] assms(5-8) svc by auto
  have v: "au_access_key_id auth = akid"
    "verify \<lparr>in_request = r', in_auth = auth, in_secret = cr_secret_access_key c,
      in_region = sv_region ?sv, in_service = ''s3'', in_now = clk At_verification,
      in_clock_skew = sv_skew ?sv\<rparr> = Inr ()"
    using sign_verifies [OF s assms(10) _ _ _ _ _ auth, of "se_clock_skew (cf_security cfg)"] assms(5-8,14,15) svc
    by simp_all
  obtain d ns sig where h: "req_get r' ''Authorization'' = authHeader akid d (se_region (cf_security cfg)) ''s3'' ns sig"
    using sign_authorization [OF s] by auto
  have kind: "isSigV4 (req_get r' ''Authorization'')" "\<not> has_prefix ''Bearer '' (req_get r' ''Authorization'')"
    unfolding h authHeader_def by (simp_all add: isSigV4_def has_prefix_def Algorithm_def)
  have tok: "req_get r' ''X-Amz-Security-Token'' = cr_session_token c"
    using sign_keeps [OF s, of "''X-Amz-Security-Token''"] assms(13) by (simp add: req_get_def header_get_def)
  have conn: "header_values (r_header r') ''Connection'' = []"
    using sign_keeps [OF s, of "''Connection''"] assms(12) by simp
  obtain reqID g where serve: "serve ?sv clk r' st =
      serveSigV4 ?sv clk r' (req_get r' ''Authorization'') reqID (st\<lparr>ss_rand := g\<rparr>)"
    using serve_sigv4 [of r'] kind assms(11) sign_not_sts [OF s] by metis
  let ?r = "applyIdentity ?sv clk r' (cr_username c) (Some auth)"
  have get: "st_get (sv_store ?sv) (au_access_key_id auth) (ss_store (st\<lparr>ss_rand := g\<rparr>)) = (Inr (Some c), ss_store st)"
    using assms(2) v(1) by (simp add: memory_impl_def memory_get_def memory_abs_def)
  have fwd: "forwarded (fst (serve ?sv clk r' st)) = proxy_outbound target ?r"
    unfolding serve
    using serveSigV4_accepts [where sv = ?sv and clk = clk and r = r' and auth = auth and reqID = reqID, OF auth get _ tok v(2)]
      assms(3) by (simp add: expired_def)
  have c2: "header_values (r_header ?r) ''Connection'' = []"
    by (simp add: applyIdentity_keeps [OF connection_not_identity] conn)
  then obtain out where out: "proxy_outbound target ?r = Some out" using proxy_outbound_plain by blast
  have "connection_options (r_header ?r) = []" using c2 by (simp add: connection_options_def)
  then show ?thesis using outbound_identity(1) [OF out assms(4)] fwd out s by simp
qed

definition sample_creds :: credentials where
  "sample_creds = \<lparr>cr_access_key_id = ''OZPX0123456789ABCDEF'', cr_secret_access_key = ''c2VjcmV0'',
     cr_session_token = ''dG9rZW4'', cr_username = ''alice'', cr_issuer = ''kc'',
     cr_expires_at = 1700000900000000000\<rparr>"

definition stocked_state :: "(memory, unit validator) state" where
  "stocked_state = sample_state\<lparr>ss_store := snd (memory_put sample_creds (newMemory []))\<rparr>"

definition client_request :: request where
  "client_request = sample_request\<lparr>r_header := (''X-Amz-Security-Token'', [''dG9rZW4'']) # r_header sample_request\<rparr>"

lemma stocked_facts:
  "memory_inv (ss_store stocked_state)"
  "memory_abs (ss_store stocked_state) ''OZPX0123456789ABCDEF'' = Some sample_creds"
  "sample_clock At_expiry_check < cr_expires_at sample_creds" "CHR ''/'' \<notin> set (cr_username sample_creds)"
  "scope_text ''OZPX0123456789ABCDEF''" "''OZPX0123456789ABCDEF'' \<noteq> []"
  "scope_text (se_region (cf_security sample_cfg))" "four_digit_year 1700000000123456789"
  "canonicalQuery (u_raw_query (r_url client_request)) [] = Inr ''partNumber=7&uploadId=x%2Fy''"
  "wf_header (r_header client_request)" "\<not> isSTSRequest client_request"
  "header_values (r_header client_request) ''Connection'' = []"
  "req_get client_request ''X-Amz-Security-Token'' = cr_session_token sample_creds"
  "- se_clock_skew (cf_security sample_cfg) \<le>
     time_sub (sample_clock At_verification) (1700000000123456789 - 1700000000123456789 mod second)"
  "time_sub (sample_clock At_verification) (1700000000123456789 - 1700000000123456789 mod second) \<le>
     se_clock_skew (cf_security sample_cfg)"
  by code_simp+

theorem signed_request_forwarded_witness:
  "\<exists>out. forwarded (fst (serve sample_server sample_clock
      (fst (sign \<lparr>si_access_key_id = ''OZPX0123456789ABCDEF'', si_secret = ''c2VjcmV0'',
        si_region = ''us-east-1'', si_service = ''s3'', si_host = [], si_now = 1700000000123456789\<rparr>
        client_request)) stocked_state)) = Some out \<and> outbound_user out = Some ''alice''"
  using signed_request_forwarded [OF stocked_facts, of sample_target sample_jose sample_up sample_quote sample_errtext]
  by (simp add: sample_server_def sample_creds_def sample_cfg_def)

end
